(* ===== verification/Prelude.thy ===== *)
theory Prelude
  imports Main "HOL-Library.Word" "HOL-Library.Monad_Syntax" "HOL-Library.Signed_Division"
begin

text \<open>
  Shared vocabulary of the development: the C integer and pointer types the
  sources use, the error numbers, pointers that carry an error (\<open>ERR_PTR\<close>), byte
  buffers and the operations on ranges of them, and the lemma collections that the
  component theories extend.

  A buffer (a page, a kmalloc'ed block, the bytes of a file) is a function from byte
  offsets to bytes; its length is kept by whoever owns it.  A computation that may
  dereference \<open>NULL\<close> or run into \<open>BUG_ON\<close> returns an \<^typ>\<open>'a option\<close>, whose
  \<^const>\<open>None\<close> is the kernel oops; an error that the code reports is an ordinary
  negative \<^typ>\<open>int\<close>.
\<close>

unbundle bit_operations_syntax

section \<open>Lemma collections\<close>

text \<open>
  \<open>run_simps\<close> unfolds a straight-line piece of code, \<open>link_simps\<close> the accessors of private data,
  \<open>held_simps\<close> the accounting of resources and \<open>state_defs\<close> the concrete states of the witnesses.
\<close>

named_theorems run_simps
named_theorems link_simps
named_theorems held_simps
named_theorems state_defs

section \<open>Types\<close>

type_synonym byte = "8 word"
type_synonym u16 = "16 word"
type_synonym u32 = "32 word"
type_synonym ptr = nat
type_synonym buffer = "nat \<Rightarrow> byte"

text \<open>The value of an expression of pointer type that may be \<open>ERR_PTR (-errno)\<close>.\<close>

datatype 'a eptr = Ptr 'a | ErrPtr int

definition IS_ERR :: "'a eptr \<Rightarrow> bool" where
  "IS_ERR p = (case p of Ptr _ \<Rightarrow> False | ErrPtr _ \<Rightarrow> True)"

lemma IS_ERR_simps [simp]: "IS_ERR (Ptr x) = False" "IS_ERR (ErrPtr e) = True"
  by (simp_all add: IS_ERR_def)

section \<open>Error numbers (i386)\<close>

abbreviation (input) EPERM :: int where "EPERM \<equiv> 1"
abbreviation (input) ENOENT :: int where "ENOENT \<equiv> 2"
abbreviation (input) EIO :: int where "EIO \<equiv> 5"
abbreviation (input) ECHILD :: int where "ECHILD \<equiv> 10"
abbreviation (input) ENOMEM :: int where "ENOMEM \<equiv> 12"
abbreviation (input) EACCES :: int where "EACCES \<equiv> 13"
abbreviation (input) EFAULT :: int where "EFAULT \<equiv> 14"
abbreviation (input) EBUSY :: int where "EBUSY \<equiv> 16"
abbreviation (input) EXDEV :: int where "EXDEV \<equiv> 18"
abbreviation (input) EINVAL :: int where "EINVAL \<equiv> 22"
abbreviation (input) ENOTTY :: int where "ENOTTY \<equiv> 25"
abbreviation (input) ENOTEMPTY :: int where "ENOTEMPTY \<equiv> 39"
abbreviation (input) ESTALE :: int where "ESTALE \<equiv> 116"

section \<open>Ranges of buffers\<close>

text \<open>
  \<open>buf_write b off n d\<close> overwrites the \<open>n\<close> bytes of \<open>b\<close> from offset \<open>off\<close> with the first
  \<open>n\<close> bytes of \<open>d\<close> (\<open>memcpy\<close>); \<open>zero_range b from to\<close> is \<open>memset(b + from, 0, to - from)\<close>.
\<close>

definition buf_write :: "(nat \<Rightarrow> 'a) \<Rightarrow> nat \<Rightarrow> nat \<Rightarrow> (nat \<Rightarrow> 'a) \<Rightarrow> nat \<Rightarrow> 'a" where
  "buf_write b off n d = (\<lambda>i. if off \<le> i \<and> i < off + n then d (i - off) else b i)"

definition zero_range :: "buffer \<Rightarrow> nat \<Rightarrow> nat \<Rightarrow> buffer" where
  "zero_range b from to = (\<lambda>i. if from \<le> i \<and> i < to then 0 else b i)"

definition bytes_of :: "buffer \<Rightarrow> nat \<Rightarrow> byte list" where
  "bytes_of b n = map b [0..<n]"

lemma buf_write_inside [simp]: "off \<le> i \<Longrightarrow> i < off + n \<Longrightarrow> buf_write b off n d i = d (i - off)"
  and buf_write_outside [simp]: "i < off \<or> off + n \<le> i \<Longrightarrow> buf_write b off n d i = b i"
  by (auto simp: buf_write_def)

lemma buf_write_0 [simp]: "buf_write b off 0 d = b"
  by (rule ext) (auto simp: buf_write_def)

lemma buf_write_start: "buf_write b 0 n d i = (if i < n then d i else b i)"
  by (simp add: buf_write_def)

lemma buf_write_shift: "buf_write b off n d (off + i) = (if i < n then d i else b (off + i))"
  by (simp add: buf_write_def)

lemma buf_write_cong: "(\<And>i. i < n \<Longrightarrow> d i = d' i) \<Longrightarrow> buf_write b off n d = buf_write b off n d'"
  by (auto simp: buf_write_def fun_eq_iff)

lemma zero_range_inside [simp]: "from \<le> i \<Longrightarrow> i < to \<Longrightarrow> zero_range b from to i = 0"
  and zero_range_outside [simp]: "i < from \<or> to \<le> i \<Longrightarrow> zero_range b from to i = b i"
  by (auto simp: zero_range_def)

lemma zero_range_empty [simp]: "to \<le> from \<Longrightarrow> zero_range b from to = b"
  by (rule ext) (auto simp: zero_range_def)

lemma length_bytes_of [simp]: "length (bytes_of b n) = n"
  by (simp add: bytes_of_def)

lemma nth_bytes_of [simp]: "i < n \<Longrightarrow> bytes_of b n ! i = b i"
  by (simp add: bytes_of_def)

lemma bytes_of_eq_iff: "bytes_of b n = bytes_of c n \<longleftrightarrow> (\<forall>i<n. b i = c i)"
  by (auto simp: list_eq_iff_nth_eq)

lemma bytes_of_buf_write [simp]: "bytes_of (buf_write b 0 n d) n = bytes_of d n"
  by (simp add: bytes_of_eq_iff)

section \<open>Computations that may oops\<close>

text \<open>
  Sequencing is \<^const>\<open>Option.bind\<close>, written with \<open>do\<close>.  The following rules are what the
  component proofs take a computation apart with.
\<close>

lemmas bind_Some_iff = Option.bind_eq_Some_conv

declare Let_def [run_simps] split_beta [run_simps] comp_def [run_simps]

lemma bind_Some_pairE:
  assumes "Option.bind m f = Some r"
  obtains x s where "m = Some (x, s)" and "f (x, s) = Some r"
  using assms by (cases m) auto

text \<open>Truncation to a C \<open>int\<close> and the unsigned comparison of one.\<close>

definition to_u32 :: "int \<Rightarrow> u32" where
  "to_u32 x = word_of_int x"

definition u32_to_int :: "u32 \<Rightarrow> int" where
  "u32_to_int w = sint w"

lemma u32_to_int_to_u32: "- (2 ^ 31) \<le> x \<Longrightarrow> x < 2 ^ 31 \<Longrightarrow> u32_to_int (to_u32 x) = x"
  by (simp add: u32_to_int_def to_u32_def sint_sbintrunc' signed_take_bit_int_eq_self)

lemma unsigned_never_negative: "\<not> (w::u32) < 0"
  by simp

lemma unat_add_small: "unat a + unat b < 2 ^ 32 \<Longrightarrow> unat (a + b :: u32) = unat a + unat b"
  using unat_add_lem [of a b] by simp

lemma zero_segments:
  "f \<le> n \<Longrightarrow> zero_range (zero_range d 0 f) t n = (\<lambda>j. if j < n \<and> (j < f \<or> t \<le> j) then 0 else d j)"
  by (auto simp: zero_range_def fun_eq_iff)

lemma buf_write_absorb: "buf_write b off n (buf_write c 0 n u) = buf_write b off n u"
  by (rule buf_write_cong) (simp add: buf_write_start)

end
