(* ===== verification/Kernel.thy ===== *)
theory Kernel
  imports Prelude
begin

text \<open>
  The data the module works on.  Every kernel structure is a record with the fields that
  the sources of wrapfs read or write, every table of function pointers a datatype, and
  the memory of the kernel a record of heaps, one per structure, indexed by pointers.
  The objects of the mounted (upper) file system live in \<open>kst\<close>, those of the file system
  below in its component \<open>low\<close>: the functions of the lower file system, which are
  parameters of the model, are given that component alone.

  A call whose effect no statement of wrapfs can observe (a reference count, a lock, a
  temporary mapping, an allocation) is recorded in the \<open>log\<close>; the resources an operation
  still holds are computed from it (\<open>held\<close>).
\<close>

section \<open>Constants\<close>

definition PAGE_CACHE_SHIFT :: nat where "PAGE_CACHE_SHIFT = 12"

definition PAGE_CACHE_SIZE :: nat where "PAGE_CACHE_SIZE = 2 ^ PAGE_CACHE_SHIFT"

lemma PAGE_CACHE_SIZE_eq: "PAGE_CACHE_SIZE = 4096"
  by (simp add: PAGE_CACHE_SIZE_def PAGE_CACHE_SHIFT_def)

lemma PAGE_CACHE_SIZE_pos [simp]: "0 < PAGE_CACHE_SIZE"
  by (simp add: PAGE_CACHE_SIZE_def)

section \<open>Structures\<close>

datatype mm_segment = USER_DS | KERNEL_DS

type_synonym timespec = "int \<times> int"

record path =
  p_dentry :: "ptr option"
  p_mnt :: "ptr option"

datatype fop_method =
    F_llseek | F_read | F_write | F_aio_read | F_aio_write | F_readdir | F_unlocked_ioctl
  | F_compat_ioctl | F_mmap | F_open | F_flush | F_release | F_fsync | F_fasync

datatype fops =
    wrapfs_main_fops | wrapfs_dir_fops | wrapfs_mmap_fops | foreign_fops "fop_method list"

datatype iop_method =
    I_create | I_lookup | I_link | I_unlink | I_symlink | I_mkdir | I_rmdir | I_mknod
  | I_rename | I_readlink | I_follow_link | I_put_link | I_permission | I_setattr

datatype iops =
    wrapfs_main_iops | wrapfs_dir_iops | wrapfs_symlink_iops | foreign_iops "iop_method list"

datatype aop_method = A_writepage | A_readpage | A_write_begin | A_write_end

datatype aops = wrapfs_aops | wrapfs_aops_null | foreign_aops "aop_method list"

datatype vm_ops = wrapfs_vm_ops | foreign_vm_ops nat

datatype dops = wrapfs_dops | foreign_dops bool \<comment> \<open>has a \<open>d_revalidate\<close>\<close>

datatype sops = wrapfs_sops | foreign_sops bool \<comment> \<open>has an \<open>umount_begin\<close>\<close>

record inode =
  i_ino :: nat
  i_mode :: u16
  i_size :: int
  i_nlink :: nat
  i_atime :: timespec
  i_mtime :: timespec
  i_ctime :: timespec
  i_rdev :: nat
  i_sb :: ptr
  i_version :: nat
  i_new :: bool \<comment> \<open>\<open>i_state & I_NEW\<close>\<close>
  i_op :: "iops option"
  i_fop :: "fops option"
  a_ops :: aops \<comment> \<open>\<open>i_mapping->a_ops\<close>\<close>

text \<open>
  Of \<open>struct wrapfs_inode_info\<close> the members \<open>lower_file_mutex\<close> and \<open>lower_file_count\<close> are left out: only
  \<open>wrapfs_get_inode_mutex\<close> mentions one of them, and it is called nowhere.
\<close>

record wrapfs_inode_info =
  ii_lower_file :: "ptr option"
  lower_inode :: "ptr option"
  vfs_inode :: inode

record dentry =
  d_inode :: "ptr option"
  d_fsdata :: "ptr option"
  d_parent :: ptr
  d_name :: string
  d_sb :: ptr
  d_op :: "dops option"
  d_unhashed :: bool
  d_nfs_renamed :: bool \<comment> \<open>\<open>d_flags & DCACHE_NFSFS_RENAMED\<close>\<close>

record wrapfs_dentry_info =
  lower_path :: path

record super_block =
  s_fs_info :: "ptr option"
  s_root :: "ptr option"
  s_maxbytes :: int
  s_time_gran :: nat
  s_op :: "sops option"
  s_active :: int

record wrapfs_sb_info =
  lower_sb :: "ptr option"
  keyVal :: "ptr option"
  aops_enabled :: int

record kfile =
  f_dentry :: ptr \<comment> \<open>\<open>f_path.dentry\<close>, also spelt \<open>f_dentry\<close>\<close>
  f_pos :: int
  f_mode :: u32
  f_flags :: u32
  f_op :: "fops option"
  f_mapping :: ptr \<comment> \<open>the inode whose pages the file maps\<close>
  private_data :: "ptr option"

record wrapfs_file_info =
  lower_file :: "ptr option"
  lower_vm_ops :: "vm_ops option"

record page =
  pg_index :: u32
  pg_host :: "ptr option" \<comment> \<open>\<open>mapping->host\<close>\<close>
  pg_data :: buffer
  pg_uptodate :: bool
  pg_dirty :: bool
  pg_locked :: bool

section \<open>Calls recorded in the log\<close>

datatype event =
    Spin_lock ptr | Spin_unlock ptr
  | Path_get path | Path_put path
  | Dget ptr | Dput ptr \<comment> \<open>dentries of the lower file system\<close>
  | Dget_up ptr | Dput_up ptr \<comment> \<open>dentries of the mounted file system\<close>
  | Mutex_lock ptr | Mutex_unlock ptr
  | Lock_rename ptr ptr | Unlock_rename ptr ptr
  | Mnt_want_write "ptr option" | Mnt_drop_write "ptr option"
  | Igrab ptr | Iput "ptr option" \<comment> \<open>inodes of the lower file system\<close>
  | Iget_up ptr | Iput_up ptr \<comment> \<open>inodes of the mounted file system\<close>
  | File_open ptr | Fput ptr
  | Kmap ptr | Kunmap ptr
  | Alloc_page ptr | Grab_page ptr | Page_cache_release ptr
  | Kmalloc ptr | Kfree "ptr option"
  | Info_alloc ptr | Info_free ptr \<comment> \<open>private data of files\<close>
  | Dinfo_alloc ptr | Dinfo_free ptr \<comment> \<open>private data of dentries\<close>
  | Sbinfo_alloc ptr | Sbinfo_free ptr \<comment> \<open>private data of super blocks\<close>
  | Inode_alloc ptr | Inode_free ptr
  | Cache_create ptr | Cache_destroy ptr
  | Alloc_tfm ptr | Free_tfm ptr
  | Flush_dcache_page ptr | Mark_inode_dirty_sync ptr | Balance_dirty_pages ptr
  | Truncate_inode_pages ptr | End_writeback ptr | Wait_on_page_writeback ptr
  | Vfs_read ptr nat int | Vfs_write ptr nat int | Lower_writepage ptr
  | Lower_ioctl ptr u32 | Lower_call string

section \<open>The state\<close>

record lower_st =
  l_inodes :: "ptr \<Rightarrow> inode"
  l_dentries :: "ptr \<Rightarrow> dentry"
  l_files :: "ptr \<Rightarrow> kfile"
  l_sbs :: "ptr \<Rightarrow> super_block"
  l_pages :: "ptr \<Rightarrow> page"
  l_bytes :: "ptr \<Rightarrow> buffer" \<comment> \<open>the contents of a lower regular file, by inode\<close>

record kst =
  sbs :: "ptr \<Rightarrow> super_block"
  sb_infos :: "ptr \<Rightarrow> wrapfs_sb_info"
  inodes :: "ptr \<Rightarrow> wrapfs_inode_info"
  dentries :: "ptr \<Rightarrow> dentry"
  dinfos :: "ptr \<Rightarrow> wrapfs_dentry_info"
  files :: "ptr \<Rightarrow> kfile"
  finfos :: "ptr \<Rightarrow> wrapfs_file_info"
  pages :: "ptr \<Rightarrow> page"
  bufs :: "ptr \<Rightarrow> buffer"
  inode_cachep :: "ptr option"
  dentry_cachep :: "ptr option"
  addr_limit :: mm_segment
  low :: lower_st
  log :: "event list"

type_synonym 'a run = "('a \<times> kst) option"

text \<open>
  Assignments through pointers.  The state occurs once in each, so that a long sequence of
  assignments stays a term of linear size.
\<close>

abbreviation upd_page :: "ptr \<Rightarrow> (page \<Rightarrow> page) \<Rightarrow> kst \<Rightarrow> kst" where
  "upd_page p f \<equiv> pages_update (\<lambda>h. h(p := f (h p)))"

abbreviation upd_iinfo :: "ptr \<Rightarrow> (wrapfs_inode_info \<Rightarrow> wrapfs_inode_info) \<Rightarrow> kst \<Rightarrow> kst" where
  "upd_iinfo p f \<equiv> inodes_update (\<lambda>h. h(p := f (h p)))"

abbreviation upd_inode :: "ptr \<Rightarrow> (inode \<Rightarrow> inode) \<Rightarrow> kst \<Rightarrow> kst" where
  "upd_inode p f \<equiv> upd_iinfo p (vfs_inode_update f)"

abbreviation upd_dentry :: "ptr \<Rightarrow> (dentry \<Rightarrow> dentry) \<Rightarrow> kst \<Rightarrow> kst" where
  "upd_dentry p f \<equiv> dentries_update (\<lambda>h. h(p := f (h p)))"

abbreviation upd_dinfo :: "ptr \<Rightarrow> (wrapfs_dentry_info \<Rightarrow> wrapfs_dentry_info) \<Rightarrow> kst \<Rightarrow> kst" where
  "upd_dinfo p f \<equiv> dinfos_update (\<lambda>h. h(p := f (h p)))"

abbreviation upd_sb :: "ptr \<Rightarrow> (super_block \<Rightarrow> super_block) \<Rightarrow> kst \<Rightarrow> kst" where
  "upd_sb p f \<equiv> sbs_update (\<lambda>h. h(p := f (h p)))"

abbreviation upd_sb_info :: "ptr \<Rightarrow> (wrapfs_sb_info \<Rightarrow> wrapfs_sb_info) \<Rightarrow> kst \<Rightarrow> kst" where
  "upd_sb_info p f \<equiv> sb_infos_update (\<lambda>h. h(p := f (h p)))"

abbreviation upd_file :: "ptr \<Rightarrow> (kfile \<Rightarrow> kfile) \<Rightarrow> kst \<Rightarrow> kst" where
  "upd_file p f \<equiv> files_update (\<lambda>h. h(p := f (h p)))"

abbreviation upd_finfo :: "ptr \<Rightarrow> (wrapfs_file_info \<Rightarrow> wrapfs_file_info) \<Rightarrow> kst \<Rightarrow> kst" where
  "upd_finfo p f \<equiv> finfos_update (\<lambda>h. h(p := f (h p)))"

abbreviation upd_buf :: "ptr \<Rightarrow> (buffer \<Rightarrow> buffer) \<Rightarrow> kst \<Rightarrow> kst" where
  "upd_buf p f \<equiv> bufs_update (\<lambda>h. h(p := f (h p)))"

abbreviation upd_lfile :: "ptr \<Rightarrow> (kfile \<Rightarrow> kfile) \<Rightarrow> kst \<Rightarrow> kst" where
  "upd_lfile p f \<equiv> low_update (l_files_update (\<lambda>h. h(p := f (h p))))"

abbreviation upd_lpage :: "ptr \<Rightarrow> (page \<Rightarrow> page) \<Rightarrow> kst \<Rightarrow> kst" where
  "upd_lpage p f \<equiv> low_update (l_pages_update (\<lambda>h. h(p := f (h p))))"

abbreviation upd_lsb :: "ptr \<Rightarrow> (super_block \<Rightarrow> super_block) \<Rightarrow> kst \<Rightarrow> kst" where
  "upd_lsb p f \<equiv> low_update (l_sbs_update (\<lambda>h. h(p := f (h p))))"

abbreviation emit :: "event \<Rightarrow> kst \<Rightarrow> kst" where
  "emit e \<equiv> log_update (\<lambda>l. l @ [e])"

text \<open>Accessors of single fields that the sources call by name.\<close>

abbreviation i_size_read :: "ptr \<Rightarrow> kst \<Rightarrow> int" where
  "i_size_read i s \<equiv> i_size (vfs_inode (inodes s i))"

abbreviation i_size_write :: "ptr \<Rightarrow> int \<Rightarrow> kst \<Rightarrow> kst" where
  "i_size_write i n \<equiv> upd_inode i (i_size_update (\<lambda>_. n))"

abbreviation SetPageUptodate :: "ptr \<Rightarrow> kst \<Rightarrow> kst" where
  "SetPageUptodate p \<equiv> upd_page p (pg_uptodate_update (\<lambda>_. True))"

abbreviation ClearPageUptodate :: "ptr \<Rightarrow> kst \<Rightarrow> kst" where
  "ClearPageUptodate p \<equiv> upd_page p (pg_uptodate_update (\<lambda>_. False))"

abbreviation set_page_dirty :: "ptr \<Rightarrow> kst \<Rightarrow> kst" where
  "set_page_dirty p \<equiv> upd_page p (pg_dirty_update (\<lambda>_. True))"

abbreviation unlock_page :: "ptr \<Rightarrow> kst \<Rightarrow> kst" where
  "unlock_page p \<equiv> upd_page p (pg_locked_update (\<lambda>_. False))"

abbreviation set_fs :: "mm_segment \<Rightarrow> kst \<Rightarrow> kst" where
  "set_fs seg \<equiv> addr_limit_update (\<lambda>_. seg)"

abbreviation zero_user_segment :: "ptr \<Rightarrow> nat \<Rightarrow> nat \<Rightarrow> kst \<Rightarrow> kst" where
  "zero_user_segment p a b \<equiv> upd_page p (pg_data_update (\<lambda>d. zero_range d a b))"

abbreviation zero_user_segments ::
  "ptr \<Rightarrow> nat \<Rightarrow> nat \<Rightarrow> nat \<Rightarrow> nat \<Rightarrow> kst \<Rightarrow> kst" where
  "zero_user_segments p a b c d s \<equiv> zero_user_segment p c d (zero_user_segment p a b s)"

text \<open>\<open>kunmap\<close> looks up the zone of its page when the kernel has high memory, so \<open>NULL\<close> is an oops.\<close>

definition kunmap :: "ptr option \<Rightarrow> kst \<Rightarrow> kst option" where
  "kunmap p s = map_option (\<lambda>q. emit (Kunmap q) s) p"

lemma kunmap_simps [simp]: "kunmap None s = None" "kunmap (Some p) s = Some (emit (Kunmap p) s)"
  by (simp_all add: kunmap_def)

definition page_offset :: "u32 \<Rightarrow> int" where
  "page_offset idx = push_bit PAGE_CACHE_SHIFT (uint idx)"

lemma page_offset_eq: "page_offset idx = uint idx * 4096"
  by (simp add: page_offset_def PAGE_CACHE_SHIFT_def push_bit_eq_mult)

lemma page_offset_nonneg [simp]: "0 \<le> page_offset idx"
  by (simp add: page_offset_eq)

section \<open>Resources\<close>

text \<open>
  What a logged call acquires (+1) or gives back (-1).  \<open>held r evs\<close> is the balance of \<open>r\<close>
  over a log: an operation that leaves every balance unchanged neither leaks a resource
  nor drops one it does not own.
\<close>

datatype resource =
    R_spin ptr | R_path path | R_dentry ptr | R_mutex ptr | R_rename ptr ptr
  | R_write "ptr option" | R_inode ptr | R_file ptr
  | R_kmap ptr | R_page ptr | R_mem ptr | R_info ptr | R_tfm ptr
  | R_up_dentry ptr | R_up_inode ptr | R_dinfo ptr | R_sbinfo ptr | R_inode_mem ptr | R_cache ptr

fun effect :: "event \<Rightarrow> (resource \<times> int) option" where
  "effect (Spin_lock p) = Some (R_spin p, 1)"
| "effect (Spin_unlock p) = Some (R_spin p, -1)"
| "effect (Path_get p) = Some (R_path p, 1)"
| "effect (Path_put p) = Some (R_path p, -1)"
| "effect (Dget p) = Some (R_dentry p, 1)"
| "effect (Dput p) = Some (R_dentry p, -1)"
| "effect (Dget_up p) = Some (R_up_dentry p, 1)"
| "effect (Dput_up p) = Some (R_up_dentry p, -1)"
| "effect (Iget_up p) = Some (R_up_inode p, 1)"
| "effect (Iput_up p) = Some (R_up_inode p, -1)"
| "effect (Dinfo_alloc p) = Some (R_dinfo p, 1)"
| "effect (Dinfo_free p) = Some (R_dinfo p, -1)"
| "effect (Sbinfo_alloc p) = Some (R_sbinfo p, 1)"
| "effect (Sbinfo_free p) = Some (R_sbinfo p, -1)"
| "effect (Inode_alloc p) = Some (R_inode_mem p, 1)"
| "effect (Inode_free p) = Some (R_inode_mem p, -1)"
| "effect (Cache_create p) = Some (R_cache p, 1)"
| "effect (Cache_destroy p) = Some (R_cache p, -1)"
| "effect (Mutex_lock p) = Some (R_mutex p, 1)"
| "effect (Mutex_unlock p) = Some (R_mutex p, -1)"
| "effect (Lock_rename p q) = Some (R_rename p q, 1)"
| "effect (Unlock_rename p q) = Some (R_rename p q, -1)"
| "effect (Mnt_want_write m) = Some (R_write m, 1)"
| "effect (Mnt_drop_write m) = Some (R_write m, -1)"
| "effect (Igrab p) = Some (R_inode p, 1)"
| "effect (Iput (Some p)) = Some (R_inode p, -1)"
| "effect (File_open p) = Some (R_file p, 1)"
| "effect (Fput p) = Some (R_file p, -1)"
| "effect (Kmap p) = Some (R_kmap p, 1)"
| "effect (Kunmap p) = Some (R_kmap p, -1)"
| "effect (Alloc_page p) = Some (R_page p, 1)"
| "effect (Grab_page p) = Some (R_page p, 1)"
| "effect (Page_cache_release p) = Some (R_page p, -1)"
| "effect (Kmalloc p) = Some (R_mem p, 1)"
| "effect (Kfree (Some p)) = Some (R_mem p, -1)"
| "effect (Info_alloc p) = Some (R_info p, 1)"
| "effect (Info_free p) = Some (R_info p, -1)"
| "effect (Alloc_tfm p) = Some (R_tfm p, 1)"
| "effect (Free_tfm p) = Some (R_tfm p, -1)"
| "effect _ = None"

definition delta :: "resource \<Rightarrow> event \<Rightarrow> int" where
  "delta r e = (case effect e of None \<Rightarrow> 0 | Some (r', d) \<Rightarrow> if r = r' then d else 0)"

definition held :: "resource \<Rightarrow> event list \<Rightarrow> int" where
  "held r evs = sum_list (map (delta r) evs)"

lemma held_Nil [simp]: "held r [] = 0"
  and held_Cons [simp]: "held r (e # evs) = delta r e + held r evs"
  and held_append [simp]: "held r (evs @ evs') = held r evs + held r evs'"
  by (simp_all add: held_def)

declare delta_def [held_simps]

lemma effect_option:
  "effect (Iput v) = map_option (\<lambda>p. (R_inode p, -1)) v"
  "effect (Kfree v) = map_option (\<lambda>p. (R_mem p, -1)) v"
  by (cases v; simp)+

section \<open>Frames\<close>

text \<open>
  \<open>data_frame p s s'\<close>: from \<open>s\<close> to \<open>s'\<close> at most the bytes of page \<open>p\<close> and the log have
  changed.
\<close>

definition same_but_pages :: "kst \<Rightarrow> kst \<Rightarrow> bool" where
  "same_but_pages s s' \<longleftrightarrow>
     bufs s' = bufs s \<and> low s' = low s \<and> inodes s' = inodes s \<and> files s' = files s \<and>
     finfos s' = finfos s \<and> dentries s' = dentries s \<and> dinfos s' = dinfos s \<and> sbs s' = sbs s \<and>
     sb_infos s' = sb_infos s \<and> addr_limit s' = addr_limit s \<and>
     inode_cachep s' = inode_cachep s \<and> dentry_cachep s' = dentry_cachep s"

definition same_flags :: "page \<Rightarrow> page \<Rightarrow> bool" where
  "same_flags g g' \<longleftrightarrow> pg_index g' = pg_index g \<and> pg_host g' = pg_host g \<and>
     pg_uptodate g' = pg_uptodate g \<and> pg_dirty g' = pg_dirty g \<and> pg_locked g' = pg_locked g"

definition data_frame :: "ptr \<Rightarrow> kst \<Rightarrow> kst \<Rightarrow> bool" where
  "data_frame p s s' \<longleftrightarrow> same_but_pages s s' \<and> (\<forall>q. same_flags (pages s q) (pages s' q)) \<and>
     (\<forall>q. q \<noteq> p \<longrightarrow> pages s' q = pages s q)"

lemmas data_frame_defs = data_frame_def same_but_pages_def same_flags_def

lemma data_frame_fields:
  assumes "data_frame p s s'"
  shows "bufs s' = bufs s" "low s' = low s" "inodes s' = inodes s" "files s' = files s"
    "finfos s' = finfos s" "dentries s' = dentries s" "dinfos s' = dinfos s" "sbs s' = sbs s"
    "sb_infos s' = sb_infos s" "addr_limit s' = addr_limit s"
  using assms by (simp_all add: data_frame_def same_but_pages_def)

lemma data_frame_page:
  assumes "data_frame p s s'"
  shows "pg_index (pages s' q) = pg_index (pages s q)" "pg_host (pages s' q) = pg_host (pages s q)"
    "pg_uptodate (pages s' q) = pg_uptodate (pages s q)" "pg_dirty (pages s' q) = pg_dirty (pages s q)"
    "pg_locked (pages s' q) = pg_locked (pages s q)" "q \<noteq> p \<Longrightarrow> pages s' q = pages s q"
  using assms by (simp_all add: data_frame_def same_flags_def)

lemma data_frame_refl: "data_frame p s s"
  by (simp add: data_frame_defs)

lemma held_tfm_only: "set es \<subseteq> range Alloc_tfm \<Longrightarrow> (\<And>t. x \<noteq> R_tfm t) \<Longrightarrow> held x es = 0"
  by (induction es) (auto simp: held_simps)

section \<open>Positions and pages\<close>

text \<open>
  The offset of a file position within its page, and the page that holds it.  A page index
  has 32 bits, which suffices for positions below \<open>2 ^ 44\<close>.
\<close>

abbreviation in_page :: "int \<Rightarrow> nat" where
  "in_page pos \<equiv> nat (pos mod int PAGE_CACHE_SIZE)"

abbreviation page_of :: "int \<Rightarrow> u32" where
  "page_of pos \<equiv> word_of_int (pos div int PAGE_CACHE_SIZE)"

lemma in_page_less: "in_page pos < PAGE_CACHE_SIZE"
  by (simp add: nat_less_iff)

lemma unat_in_page: "unat (word_of_int (pos mod int PAGE_CACHE_SIZE) :: u32) = in_page pos"
  by (simp add: PAGE_CACHE_SIZE_eq unat_eq_nat_uint uint_word_of_int take_bit_int_eq_self)

lemma page_offset_of_pos:
  assumes "0 \<le> pos" and "pos < 2 ^ 44"
  shows "page_offset (page_of pos) = pos - pos mod int PAGE_CACHE_SIZE"
proof -
  have "pos div 4096 < 2 ^ 32" using assms(2) by simp
  moreover have "0 \<le> pos div 4096" using assms(1) by simp
  ultimately have "uint (word_of_int (pos div 4096) :: u32) = pos div 4096"
    by (simp add: uint_word_of_int take_bit_int_eq_self)
  then show ?thesis
    by (simp add: page_offset_eq PAGE_CACHE_SIZE_eq minus_mod_eq_div_mult)
qed

lemma page_byte_mod: "(nat (page_offset idx) + j) mod PAGE_CACHE_SIZE = j mod PAGE_CACHE_SIZE"
  by (simp add: page_offset_eq PAGE_CACHE_SIZE_eq nat_mult_distrib)

lemma pos_split: "0 \<le> pos \<Longrightarrow> nat pos = nat (pos - pos mod int PAGE_CACHE_SIZE) + in_page pos"
proof -
  assume "0 \<le> pos"
  then have "0 \<le> pos mod int PAGE_CACHE_SIZE" "pos mod int PAGE_CACHE_SIZE \<le> pos"
    by (simp_all add: zmod_le_nonneg_dividend)
  then show ?thesis by arith
qed

end
