(* ===== verification/Wrapfs_H.thy ===== *)
theory Wrapfs_H
  imports Kernel
begin

text \<open>
  The inline functions and macros of \<^verbatim>\<open>wrapfs.h\<close>: from an object of the mounted file system
  to its private data and to the lower object it stands for, the setters of these links,
  the lower path of a dentry with its reference counting, the parent lock, and the
  encryption key of the super block.  A function that follows a private-data pointer
  returns \<^const>\<open>None\<close> (an oops) when the pointer is \<open>NULL\<close>.
\<close>

section \<open>Private data\<close>

definition WRAPFS_I :: "kst \<Rightarrow> ptr \<Rightarrow> wrapfs_inode_info" where
  "WRAPFS_I s inode = inodes s inode"

definition WRAPFS_D :: "kst \<Rightarrow> ptr \<Rightarrow> ptr option" where
  "WRAPFS_D s dent = d_fsdata (dentries s dent)"

definition WRAPFS_SB :: "kst \<Rightarrow> ptr \<Rightarrow> ptr option" where
  "WRAPFS_SB s super = s_fs_info (sbs s super)"

definition WRAPFS_F :: "kst \<Rightarrow> ptr \<Rightarrow> ptr option" where
  "WRAPFS_F s fl = private_data (files s fl)"

section \<open>Links to lower objects\<close>

definition wrapfs_lower_file :: "kst \<Rightarrow> ptr \<Rightarrow> ptr option option" where
  "wrapfs_lower_file s f = map_option (\<lambda>fi. lower_file (finfos s fi)) (WRAPFS_F s f)"

definition wrapfs_set_lower_file :: "ptr \<Rightarrow> ptr option \<Rightarrow> kst \<Rightarrow> kst option" where
  "wrapfs_set_lower_file f v s =
     map_option (\<lambda>fi. upd_finfo fi (lower_file_update (\<lambda>_. v)) s) (WRAPFS_F s f)"

definition wrapfs_lower_inode :: "kst \<Rightarrow> ptr \<Rightarrow> ptr option" where
  "wrapfs_lower_inode s i = lower_inode (WRAPFS_I s i)"

definition wrapfs_set_lower_inode :: "ptr \<Rightarrow> ptr option \<Rightarrow> kst \<Rightarrow> kst" where
  "wrapfs_set_lower_inode i v s = upd_iinfo i (lower_inode_update (\<lambda>_. v)) s"

definition wrapfs_lower_super :: "kst \<Rightarrow> ptr \<Rightarrow> ptr option option" where
  "wrapfs_lower_super s sb = map_option (\<lambda>p. lower_sb (sb_infos s p)) (WRAPFS_SB s sb)"

definition wrapfs_set_lower_super :: "ptr \<Rightarrow> ptr option \<Rightarrow> kst \<Rightarrow> kst option" where
  "wrapfs_set_lower_super sb v s =
     map_option (\<lambda>p. upd_sb_info p (lower_sb_update (\<lambda>_. v)) s) (WRAPFS_SB s sb)"

section \<open>The encryption key\<close>

definition MD5_SIGNATURE_SIZE :: nat where "MD5_SIGNATURE_SIZE = 16"

definition wrapfs_set_enc_key :: "ptr \<Rightarrow> ptr option \<Rightarrow> kst \<Rightarrow> kst option" where
  "wrapfs_set_enc_key sb key s =
     map_option (\<lambda>p. upd_sb_info p (keyVal_update (\<lambda>_. key)) s) (WRAPFS_SB s sb)"

definition wrapfs_get_enc_key :: "kst \<Rightarrow> ptr \<Rightarrow> ptr option option" where
  "wrapfs_get_enc_key s sb = map_option (\<lambda>p. keyVal (sb_infos s p)) (WRAPFS_SB s sb)"

section \<open>Lower paths\<close>

definition pathcpy :: "path \<Rightarrow> path \<Rightarrow> path" where
  "pathcpy dst src = dst\<lparr>p_dentry := p_dentry src, p_mnt := p_mnt src\<rparr>"

definition null_path :: path where
  "null_path = \<lparr>p_dentry = None, p_mnt = None\<rparr>"

definition wrapfs_get_lower_path :: "ptr \<Rightarrow> kst \<Rightarrow> path run" where
  "wrapfs_get_lower_path dent s = do {
     d \<leftarrow> WRAPFS_D s dent;
     let s = emit (Spin_lock d) s;
     let lp = pathcpy null_path (lower_path (dinfos s d));
     let s = emit (Path_get lp) s;
     let s = emit (Spin_unlock d) s;
     Some (lp, s)
   }"

definition wrapfs_put_lower_path :: "ptr \<Rightarrow> path \<Rightarrow> kst \<Rightarrow> kst" where
  "wrapfs_put_lower_path dent lp s = emit (Path_put lp) s"

definition wrapfs_set_lower_path :: "ptr \<Rightarrow> path \<Rightarrow> kst \<Rightarrow> kst option" where
  "wrapfs_set_lower_path dent lp s = do {
     d \<leftarrow> WRAPFS_D s dent;
     let s = emit (Spin_lock d) s;
     let s = upd_dinfo d (lower_path_update (\<lambda>old. pathcpy old lp)) s;
     Some (emit (Spin_unlock d) s)
   }"

definition wrapfs_reset_lower_path :: "ptr \<Rightarrow> kst \<Rightarrow> kst option" where
  "wrapfs_reset_lower_path dent s = do {
     d \<leftarrow> WRAPFS_D s dent;
     let s = emit (Spin_lock d) s;
     let s = upd_dinfo d (lower_path_update (p_dentry_update (\<lambda>_. None))) s;
     let s = upd_dinfo d (lower_path_update (p_mnt_update (\<lambda>_. None))) s;
     Some (emit (Spin_unlock d) s)
   }"

definition wrapfs_put_reset_lower_path :: "ptr \<Rightarrow> kst \<Rightarrow> kst option" where
  "wrapfs_put_reset_lower_path dent s = do {
     d \<leftarrow> WRAPFS_D s dent;
     let s = emit (Spin_lock d) s;
     let lp = pathcpy null_path (lower_path (dinfos s d));
     let s = upd_dinfo d (lower_path_update (p_dentry_update (\<lambda>_. None))) s;
     let s = upd_dinfo d (lower_path_update (p_mnt_update (\<lambda>_. None))) s;
     let s = emit (Spin_unlock d) s;
     Some (emit (Path_put lp) s)
   }"

section \<open>Locking helpers\<close>

text \<open>Both are called on dentries of the lower file system only.\<close>

definition lock_parent :: "ptr \<Rightarrow> kst \<Rightarrow> ptr run" where
  "lock_parent dent s = do {
     let dir = d_parent (l_dentries (low s) dent);
     let s = emit (Dget dir) s;
     i \<leftarrow> d_inode (l_dentries (low s) dir);
     Some (dir, emit (Mutex_lock i) s)
   }"

definition unlock_dir :: "ptr \<Rightarrow> kst \<Rightarrow> kst option" where
  "unlock_dir dir s = do {
     i \<leftarrow> d_inode (l_dentries (low s) dir);
     let s = emit (Mutex_unlock i) s;
     Some (emit (Dput dir) s)
   }"

declare WRAPFS_I_def [link_simps] WRAPFS_D_def [link_simps] WRAPFS_SB_def [link_simps]
  WRAPFS_F_def [link_simps] wrapfs_lower_file_def [link_simps] wrapfs_set_lower_file_def [link_simps]
  wrapfs_lower_inode_def [link_simps] wrapfs_set_lower_inode_def [link_simps]
  wrapfs_lower_super_def [link_simps] wrapfs_set_lower_super_def [link_simps]
  wrapfs_get_enc_key_def [link_simps] wrapfs_set_enc_key_def [link_simps]

section \<open>The contract of a link\<close>

text \<open>
  The lower file of a file, the lower inode of an inode, the lower super block and the key
  of a super block are all kept the same way: a cell that can be read exactly when it can
  be written, that returns what was last written, and whose writes touch neither the
  lower file system nor the log.
\<close>

locale link_cell =
  fixes get :: "kst \<Rightarrow> ptr \<Rightarrow> 'v option option"
    and set :: "ptr \<Rightarrow> 'v option \<Rightarrow> kst \<Rightarrow> kst option"
  assumes set_defined: "set p v s \<noteq> None \<longleftrightarrow> get s p \<noteq> None"
    and get_set: "set p v s = Some s' \<Longrightarrow> get s' p = Some v"
    and set_set: "set p v s = Some s' \<Longrightarrow> set p w s' = set p w s"
    and set_get: "get s p = Some v \<Longrightarrow> set p v s = Some s"
    and set_frame: "set p v s = Some s' \<Longrightarrow> low s' = low s \<and> log s' = log s \<and> pages s' = pages s"
begin

lemma set_total: "get s p = Some u \<Longrightarrow> \<exists>s'. set p v s = Some s' \<and> get s' p = Some v"
proof -
  assume "get s p = Some u"
  then have "set p v s \<noteq> None" using set_defined [of p v s] by simp
  then obtain s' where "set p v s = Some s'" by auto
  with get_set show ?thesis by blast
qed

lemma set_oops: "set p v s = None \<longleftrightarrow> get s p = None"
  using set_defined [of p v s] by auto

text \<open>Writing another value and then the old one back restores the state.\<close>

lemma set_restore: "get s p = Some u \<Longrightarrow> set p v s = Some s' \<Longrightarrow> set p u s' = Some s"
  using set_set set_get by metis

end

interpretation lower_file: link_cell wrapfs_lower_file wrapfs_set_lower_file
  by unfold_locales (auto simp: link_simps)

interpretation lower_super: link_cell wrapfs_lower_super wrapfs_set_lower_super
  by unfold_locales (auto simp: link_simps)

interpretation enc_key: link_cell wrapfs_get_enc_key wrapfs_set_enc_key
  by unfold_locales (auto simp: link_simps)

interpretation lower_inode: link_cell
  "\<lambda>s i. Some (wrapfs_lower_inode s i)" "\<lambda>i v s. Some (wrapfs_set_lower_inode i v s)"
  by unfold_locales (auto simp: link_simps)

section \<open>Lower paths: laws\<close>

lemma pathcpy_eq [simp]: "pathcpy dst src = src"
  by (cases dst, cases src) (simp add: pathcpy_def)

lemma get_lower_path_Some:
  "wrapfs_get_lower_path dent s = Some (lp, s') \<longleftrightarrow>
     (\<exists>d. WRAPFS_D s dent = Some d \<and> lp = lower_path (dinfos s d) \<and>
          s' = emit (Spin_unlock d) (emit (Path_get lp) (emit (Spin_lock d) s)))"
  by (auto simp: wrapfs_get_lower_path_def bind_Some_iff run_simps)

lemma set_lower_path_Some:
  "wrapfs_set_lower_path dent lp s = Some s' \<longleftrightarrow>
     (\<exists>d. WRAPFS_D s dent = Some d \<and>
          s' = emit (Spin_unlock d) (upd_dinfo d (lower_path_update (\<lambda>_. lp)) (emit (Spin_lock d) s)))"
  by (auto simp: wrapfs_set_lower_path_def bind_Some_iff run_simps)

lemma put_reset_lower_path_Some:
  "wrapfs_put_reset_lower_path dent s = Some s' \<longleftrightarrow>
     (\<exists>d. WRAPFS_D s dent = Some d \<and>
          s' = emit (Path_put (lower_path (dinfos s d))) (emit (Spin_unlock d)
                 (upd_dinfo d (lower_path_update (\<lambda>_. null_path)) (emit (Spin_lock d) s))))"
proof -
  have "lower_path_update (p_mnt_update (\<lambda>_. None)) (lower_path_update (p_dentry_update (\<lambda>_. None)) i)
      = lower_path_update (\<lambda>_. null_path) i" for i :: wrapfs_dentry_info
    by (cases i) (simp add: null_path_def)
  then show ?thesis
    by (auto simp: wrapfs_put_reset_lower_path_def bind_Some_iff run_simps)
qed

lemma lock_parent_Some:
  "lock_parent dent s = Some (dir, s') \<longleftrightarrow>
     dir = d_parent (l_dentries (low s) dent) \<and>
     (\<exists>i. d_inode (l_dentries (low s) dir) = Some i \<and> s' = emit (Mutex_lock i) (emit (Dget dir) s))"
  by (auto simp: lock_parent_def bind_Some_iff run_simps)

lemma unlock_dir_Some:
  "unlock_dir dir s = Some s' \<longleftrightarrow>
     (\<exists>i. d_inode (l_dentries (low s) dir) = Some i \<and> s' = emit (Dput dir) (emit (Mutex_unlock i) s))"
  by (auto simp: unlock_dir_def bind_Some_iff run_simps)

lemmas wrapfs_h_Some =
  get_lower_path_Some set_lower_path_Some put_reset_lower_path_Some lock_parent_Some unlock_dir_Some

end
