(* ===== verification/Crypto.thy ===== *)
theory Crypto
  imports Wrapfs_H
begin

text \<open>
  \<^verbatim>\<open>crypto.c\<close> and \<^verbatim>\<open>md5.c\<close>: the encryption and decryption of one page under the key of the
  super block, and the digest that turns the user's key string into that key.  The
  kernel's crypto API is a parameter, \<open>crypto_api\<close>; what the sources rely on is stated by
  \<open>ctr_cipher\<close> (the mode \<open>ctr(aes)\<close> combines the data with a key stream) and by
  \<open>md5_service\<close>.
\<close>

section \<open>The crypto API\<close>

text \<open>
  \<open>'h\<close> is the state of a running hash (\<open>struct hash_desc\<close>), \<open>'c\<close> that of a keyed cipher.
  An integer component is the return value of the call.
\<close>

record ('h, 'c) crypto_api =
  crypto_alloc_hash :: "string \<Rightarrow> kst \<Rightarrow> ptr eptr"
  crypto_hash_init :: "ptr \<Rightarrow> int \<times> 'h"
  crypto_hash_update :: "'h \<Rightarrow> byte list \<Rightarrow> int \<times> 'h"
  crypto_hash_final :: "'h \<Rightarrow> int \<times> buffer"
  crypto_alloc_blkcipher :: "string \<Rightarrow> kst \<Rightarrow> ptr eptr"
  crypto_blkcipher_setkey :: "ptr \<Rightarrow> byte list \<Rightarrow> int \<times> 'c"
  crypto_blkcipher_encrypt :: "'c \<Rightarrow> buffer \<Rightarrow> nat \<Rightarrow> int \<times> buffer"
  crypto_blkcipher_decrypt :: "'c \<Rightarrow> buffer \<Rightarrow> nat \<Rightarrow> int \<times> buffer"

section \<open>\<^verbatim>\<open>crypto.c\<close>\<close>

text \<open>
  The result variable is an \<open>unsigned int\<close> in the source, so the test \<open>ret < 0\<close> compares
  words.  In the decryption the arguments \<open>dst\<close> and \<open>src\<close> of the API call are exchanged:
  it decrypts \<open>dst_page\<close> into \<open>page\<close>.
\<close>

definition wrapfs_encrypt_page_new ::
  "('h, 'c) crypto_api \<Rightarrow> ptr \<Rightarrow> ptr \<Rightarrow> ptr \<Rightarrow> kst \<Rightarrow> int \<times> kst" where
  "wrapfs_encrypt_page_new C page dst_page encKey s =
     (let ret = (0 :: u32) in
      case crypto_alloc_blkcipher C ''ctr(aes)'' s of
        ErrPtr _ \<Rightarrow> (u32_to_int ret, s)
      | Ptr tfm \<Rightarrow>
          (let s = emit (Alloc_tfm tfm) s;
               (r, desc) = crypto_blkcipher_setkey C tfm (bytes_of (bufs s encKey) MD5_SIGNATURE_SIZE);
               ret = to_u32 r
           in if ret \<noteq> 0 then (u32_to_int ret, s)
              else
                (let (r, out) = crypto_blkcipher_encrypt C desc (pg_data (pages s page)) PAGE_CACHE_SIZE;
                     ret = to_u32 r;
                     s = upd_page dst_page (pg_data_update (\<lambda>d. buf_write d 0 PAGE_CACHE_SIZE out)) s
                 in if ret < 0 then (u32_to_int ret, s) else (u32_to_int ret, s))))"

definition wrapfs_decrypt_page_new ::
  "('h, 'c) crypto_api \<Rightarrow> ptr \<Rightarrow> ptr \<Rightarrow> ptr \<Rightarrow> kst \<Rightarrow> int \<times> kst" where
  "wrapfs_decrypt_page_new C page dst_page key s =
     (let ret = (0 :: u32) in
      case crypto_alloc_blkcipher C ''ctr(aes)'' s of
        ErrPtr _ \<Rightarrow> (u32_to_int ret, s)
      | Ptr tfm \<Rightarrow>
          (let s = emit (Alloc_tfm tfm) s;
               (r, desc) = crypto_blkcipher_setkey C tfm (bytes_of (bufs s key) MD5_SIGNATURE_SIZE);
               ret = to_u32 r
           in if ret \<noteq> 0 then (u32_to_int ret, s)
              else
                (let (r, out) = crypto_blkcipher_decrypt C desc (pg_data (pages s dst_page)) PAGE_CACHE_SIZE;
                     ret = to_u32 r;
                     s = upd_page page (pg_data_update (\<lambda>d. buf_write d 0 PAGE_CACHE_SIZE out)) s
                 in if ret < 0 then (u32_to_int ret, s) else (u32_to_int ret, s))))"

section \<open>\<^verbatim>\<open>md5.c\<close>\<close>

definition wrapfs_compute_md5 ::
  "('h, 'c) crypto_api \<Rightarrow> ptr \<Rightarrow> ptr \<Rightarrow> int \<Rightarrow> kst \<Rightarrow> int \<times> kst" where
  "wrapfs_compute_md5 C integ_val key keySize s =
     (case crypto_alloc_hash C ''md5'' s of
        ErrPtr _ \<Rightarrow> (- EPERM, s)
      | Ptr crypt_hash \<Rightarrow>
          (let s = emit (Alloc_tfm crypt_hash) s;
               (r, desc) = crypto_hash_init C crypt_hash
           in if r < 0 then (- EPERM, emit (Free_tfm crypt_hash) s)
              else
                (let oldfs = addr_limit s;
                     s = set_fs KERNEL_DS s;
                     (ret, desc) = crypto_hash_update C desc (bytes_of (bufs s key) (unat (to_u32 keySize)))
                 in if ret < 0 then (- EPERM, emit (Free_tfm crypt_hash) s)
                    else
                      (let s = set_fs oldfs s;
                           (ret, digest) = crypto_hash_final C desc;
                           s = upd_buf integ_val (\<lambda>d. buf_write d 0 MD5_SIGNATURE_SIZE digest) s
                       in if ret < 0 then (- EPERM, emit (Free_tfm crypt_hash) s)
                          else (0, s)))))"

section \<open>What the sources rely on\<close>

text \<open>
  Counter mode is a stream cipher: under a fixed key and the initial counter of a fresh
  transform, encryption and decryption both combine byte \<open>i\<close> with byte \<open>i\<close> of a key stream,
  and report success.
\<close>

definition ctr_cipher :: "('h, 'c) crypto_api \<Rightarrow> (byte list \<Rightarrow> nat \<Rightarrow> byte) \<Rightarrow> bool" where
  "ctr_cipher C ks \<longleftrightarrow>
     (\<forall>tfm key. length key = MD5_SIGNATURE_SIZE \<longrightarrow>
        (\<exists>desc. crypto_blkcipher_setkey C tfm key = (0, desc) \<and>
           (\<forall>d n. fst (crypto_blkcipher_encrypt C desc d n) = 0 \<and>
                  fst (crypto_blkcipher_decrypt C desc d n) = 0 \<and>
                  (\<forall>i<n. snd (crypto_blkcipher_encrypt C desc d n) i = d i XOR ks key i) \<and>
                  (\<forall>i<n. snd (crypto_blkcipher_decrypt C desc d n) i = d i XOR ks key i))))"

definition cipher_loaded :: "('h, 'c) crypto_api \<Rightarrow> bool" where
  "cipher_loaded C \<longleftrightarrow> (\<forall>s. \<not> IS_ERR (crypto_alloc_blkcipher C ''ctr(aes)'' s))"

text \<open>The hash is available, its calls succeed, and the result is the digest of the one chunk fed to it.\<close>

definition md5_service :: "('h, 'c) crypto_api \<Rightarrow> (byte list \<Rightarrow> buffer) \<Rightarrow> bool" where
  "md5_service C md5 \<longleftrightarrow>
     (\<forall>s. \<not> IS_ERR (crypto_alloc_hash C ''md5'' s)) \<and>
     (\<forall>tfm. fst (crypto_hash_init C tfm) = 0) \<and>
     (\<forall>tfm msg. fst (crypto_hash_update C (snd (crypto_hash_init C tfm)) msg) = 0 \<and>
        crypto_hash_final C (snd (crypto_hash_update C (snd (crypto_hash_init C tfm)) msg)) = (0, md5 msg))"

section \<open>Page transforms\<close>

text \<open>
  The contract the page cache relies on: when the cipher is ready, a transform succeeds,
  and the destination page holds the source page combined with the key stream of the key
  buffer; nothing else changes but the log, where one transform object is recorded.
\<close>

locale page_transform =
  fixes run :: "'env \<Rightarrow> ptr \<Rightarrow> ptr \<Rightarrow> ptr \<Rightarrow> kst \<Rightarrow> int \<times> kst"
    and stream :: "'env \<Rightarrow> byte list \<Rightarrow> nat \<Rightarrow> byte"
    and ready :: "'env \<Rightarrow> bool"
  assumes run_eq:
    "ready env \<Longrightarrow> \<exists>tfm. run env src dst key s =
       (0, upd_page dst (pg_data_update (\<lambda>d. buf_write d 0 PAGE_CACHE_SIZE
              (\<lambda>i. pg_data (pages s src) i XOR stream env (bytes_of (bufs s key) MD5_SIGNATURE_SIZE) i)))
           (emit (Alloc_tfm tfm) s))"
begin

lemma run_ok: "ready env \<Longrightarrow> fst (run env src dst key s) = 0"
  using run_eq [of env src dst key s] by auto

lemma run_data:
  assumes "ready env" and "i < PAGE_CACHE_SIZE"
  shows "pg_data (pages (snd (run env src dst key s)) dst) i
       = pg_data (pages s src) i XOR stream env (bytes_of (bufs s key) MD5_SIGNATURE_SIZE) i"
  using run_eq [of env src dst key s] assms by (auto simp: buf_write_start)

lemma run_bufs: "ready env \<Longrightarrow> bufs (snd (run env src dst key s)) = bufs s"
  using run_eq [of env src dst key s] by auto

end

text \<open>Two transforms with the same key stream undo each other, byte by byte.\<close>

locale cipher_pair =
  enc: page_transform enc stream ready + dec: page_transform dec stream ready
  for enc dec :: "'env \<Rightarrow> ptr \<Rightarrow> ptr \<Rightarrow> ptr \<Rightarrow> kst \<Rightarrow> int \<times> kst" and stream ready
begin

lemma dec_enc:
  assumes r: "ready env" and i: "i < PAGE_CACHE_SIZE"
    and e: "enc env src mid key s = (x, s1)" and d: "dec env mid dst key s1 = (y, s2)"
  shows "x = 0 \<and> y = 0 \<and> pg_data (pages s2 dst) i = pg_data (pages s src) i"
proof -
  from enc.run_ok [OF r, of src mid key s] e have "x = 0" by simp
  moreover from dec.run_ok [OF r, of mid dst key s1] d have "y = 0" by simp
  moreover have "bufs s1 = bufs s" using enc.run_bufs [OF r, of src mid key s] e by simp
  moreover note enc.run_data [OF r i, of src mid key s] dec.run_data [OF r i, of mid dst key s1]
  ultimately show ?thesis using e d by (simp add: xor.assoc)
qed

end

lemma alloc_loadedE:
  assumes "cipher_loaded C"
  obtains tfm where "crypto_alloc_blkcipher C ''ctr(aes)'' s = Ptr tfm"
proof (cases "crypto_alloc_blkcipher C ''ctr(aes)'' s")
  case (Ptr tfm)
  then show ?thesis by (rule that)
next
  case (ErrPtr e)
  with assms show ?thesis unfolding cipher_loaded_def by (metis IS_ERR_simps(2))
qed

lemma ctr_cipherE:
  assumes "ctr_cipher C ks" and "length key = MD5_SIGNATURE_SIZE"
  obtains desc where "crypto_blkcipher_setkey C tfm key = (0, desc)"
    and "\<And>d n. fst (crypto_blkcipher_encrypt C desc d n) = 0"
    and "\<And>d n. fst (crypto_blkcipher_decrypt C desc d n) = 0"
    and "\<And>b d n. buf_write b 0 n (snd (crypto_blkcipher_encrypt C desc d n))
           = buf_write b 0 n (\<lambda>i. d i XOR ks key i)"
    and "\<And>b d n. buf_write b 0 n (snd (crypto_blkcipher_decrypt C desc d n))
           = buf_write b 0 n (\<lambda>i. d i XOR ks key i)"
proof -
  obtain desc where desc: "crypto_blkcipher_setkey C tfm key = (0, desc)"
    and *: "\<forall>d n. fst (crypto_blkcipher_encrypt C desc d n) = 0 \<and>
              fst (crypto_blkcipher_decrypt C desc d n) = 0 \<and>
              (\<forall>i<n. snd (crypto_blkcipher_encrypt C desc d n) i = d i XOR ks key i) \<and>
              (\<forall>i<n. snd (crypto_blkcipher_decrypt C desc d n) i = d i XOR ks key i)"
    using assms unfolding ctr_cipher_def by blast
  show ?thesis
    by (rule that [OF desc]) (use * in \<open>auto intro: buf_write_cong\<close>)
qed

definition cipher_ready :: "('h, 'c) crypto_api \<times> (byte list \<Rightarrow> nat \<Rightarrow> byte) \<Rightarrow> bool" where
  "cipher_ready env \<longleftrightarrow> ctr_cipher (fst env) (snd env) \<and> cipher_loaded (fst env)"

lemma encrypt_page_eq:
  assumes "ctr_cipher C ks" and "cipher_loaded C"
  shows "\<exists>tfm. wrapfs_encrypt_page_new C page dst_page key s =
     (0, upd_page dst_page (pg_data_update (\<lambda>d. buf_write d 0 PAGE_CACHE_SIZE
            (\<lambda>i. pg_data (pages s page) i XOR ks (bytes_of (bufs s key) MD5_SIGNATURE_SIZE) i)))
         (emit (Alloc_tfm tfm) s))"
proof -
  obtain tfm where tfm: "crypto_alloc_blkcipher C ''ctr(aes)'' s = Ptr tfm"
    using alloc_loadedE assms(2) .
  show ?thesis
    by (rule ctr_cipherE [OF assms(1) length_bytes_of [of "bufs s key"], of tfm])
      (auto simp: tfm wrapfs_encrypt_page_new_def run_simps to_u32_def u32_to_int_def)
qed

lemma decrypt_page_eq:
  assumes "ctr_cipher C ks" and "cipher_loaded C"
  shows "\<exists>tfm. wrapfs_decrypt_page_new C page dst_page key s =
     (0, upd_page page (pg_data_update (\<lambda>d. buf_write d 0 PAGE_CACHE_SIZE
            (\<lambda>i. pg_data (pages s dst_page) i XOR ks (bytes_of (bufs s key) MD5_SIGNATURE_SIZE) i)))
         (emit (Alloc_tfm tfm) s))"
proof -
  obtain tfm where tfm: "crypto_alloc_blkcipher C ''ctr(aes)'' s = Ptr tfm"
    using alloc_loadedE assms(2) .
  show ?thesis
    by (rule ctr_cipherE [OF assms(1) length_bytes_of [of "bufs s key"], of tfm])
      (auto simp: tfm wrapfs_decrypt_page_new_def run_simps to_u32_def u32_to_int_def)
qed

interpretation ctr: cipher_pair
  "\<lambda>env page dst_page. wrapfs_encrypt_page_new (fst env) page dst_page"
  "\<lambda>env dst_page page. wrapfs_decrypt_page_new (fst env) page dst_page"
  snd cipher_ready
  by unfold_locales (auto simp: cipher_ready_def intro: encrypt_page_eq decrypt_page_eq)

section \<open>Frames of the three functions\<close>

text \<open>
  Encryption writes the destination page and the log, nothing else, whatever the crypto
  API answers; decryption likewise.
\<close>

lemma encrypt_page_frame:
  assumes "wrapfs_encrypt_page_new C page dst_page key s = (r, s')"
  shows "data_frame dst_page s s' \<and> (\<exists>es. log s' = log s @ es \<and> set es \<subseteq> range Alloc_tfm)"
  using assms
  by (auto simp: wrapfs_encrypt_page_new_def run_simps data_frame_defs
      split: eptr.splits if_splits)

lemma decrypt_page_frame:
  assumes "wrapfs_decrypt_page_new C page dst_page key s = (r, s')"
  shows "data_frame page s s' \<and> (\<exists>es. log s' = log s @ es \<and> set es \<subseteq> range Alloc_tfm)"
  using assms
  by (auto simp: wrapfs_decrypt_page_new_def run_simps data_frame_defs
      split: eptr.splits if_splits)

lemma compute_md5_frame:
  assumes "wrapfs_compute_md5 C integ_val key n s = (r, s')"
  shows "pages s' = pages s" "sbs s' = sbs s" "sb_infos s' = sb_infos s" "low s' = low s"
    "files s' = files s" "finfos s' = finfos s" "dentries s' = dentries s" "inodes s' = inodes s"
    "p \<noteq> integ_val \<Longrightarrow> bufs s' p = bufs s p"
    "dinfos s' = dinfos s" "inode_cachep s' = inode_cachep s" "dentry_cachep s' = dentry_cachep s"
    "r > -1 \<Longrightarrow> addr_limit s' = addr_limit s" "held (R_mem p) (log s') = held (R_mem p) (log s)"
  using assms by (auto simp: wrapfs_compute_md5_def run_simps held_simps split: eptr.splits if_splits)

text \<open>Some call of the hash API fails on the message \<open>msg\<close>: no transform, or a negative return value.\<close>

definition md5_failing :: "('h, 'c) crypto_api \<Rightarrow> byte list \<Rightarrow> bool" where
  "md5_failing C msg \<longleftrightarrow> (\<forall>s tfm. crypto_alloc_hash C ''md5'' s = Ptr tfm \<longrightarrow>
     fst (crypto_hash_init C tfm) < 0 \<or> fst (crypto_hash_update C (snd (crypto_hash_init C tfm)) msg) < 0 \<or>
     fst (crypto_hash_final C (snd (crypto_hash_update C (snd (crypto_hash_init C tfm)) msg))) < 0)"

lemma compute_md5_failing:
  assumes "md5_failing C (bytes_of (bufs s key) (unat (to_u32 n)))" and "wrapfs_compute_md5 C integ_val key n s = (r, s')"
  shows "r = - EPERM"
proof (cases "crypto_alloc_hash C ''md5'' s")
  case (Ptr tfm)
  with assms show ?thesis unfolding md5_failing_def
    by (fastforce simp: wrapfs_compute_md5_def Let_def split: prod.splits if_splits)
qed (use assms(2) in \<open>simp add: wrapfs_compute_md5_def\<close>)

lemma compute_md5_eq:
  assumes "md5_service C md5"
  shows "\<exists>tfm. wrapfs_compute_md5 C integ_val key n s =
    (0, upd_buf integ_val (\<lambda>d. buf_write d 0 MD5_SIGNATURE_SIZE
          (md5 (bytes_of (bufs s key) (unat (to_u32 n))))) (emit (Alloc_tfm tfm) s))"
proof -
  from assms obtain tfm where "crypto_alloc_hash C ''md5'' s = Ptr tfm"
    unfolding md5_service_def by (metis IS_ERR_simps(2) eptr.exhaust)
  with assms show ?thesis
    by (cases s) (simp add: wrapfs_compute_md5_def md5_service_def run_simps)
qed

lemma compute_md5_held:
  assumes "wrapfs_compute_md5 C integ_val key n s = (r, s')" and "\<And>t. x \<noteq> R_tfm t"
  shows "held x (log s') = held x (log s)"
  using assms by (auto simp: wrapfs_compute_md5_def run_simps held_simps split: eptr.splits if_splits)

section \<open>A concrete service\<close>

text \<open>
  An instance of the API on which the hypotheses above hold: the key stream repeats the
  key, the digest adds the bytes up.
\<close>

definition xor_stream :: "byte list \<Rightarrow> nat \<Rightarrow> byte" where
  "xor_stream key i = key ! (i mod MD5_SIGNATURE_SIZE)"

definition sum_digest :: "byte list \<Rightarrow> buffer" where
  "sum_digest msg i = sum_list msg + of_nat i"

definition xor_crypto :: "(byte list, byte list) crypto_api" where
  "xor_crypto =
     \<lparr>crypto_alloc_hash = (\<lambda>_ _. Ptr 70), crypto_hash_init = (\<lambda>_. (0, [])),
      crypto_hash_update = (\<lambda>h msg. (0, h @ msg)), crypto_hash_final = (\<lambda>h. (0, sum_digest h)),
      crypto_alloc_blkcipher = (\<lambda>_ _. Ptr 71), crypto_blkcipher_setkey = (\<lambda>_ key. (0, key)),
      crypto_blkcipher_encrypt = (\<lambda>key d n. (0, \<lambda>i. d i XOR xor_stream key i)),
      crypto_blkcipher_decrypt = (\<lambda>key d n. (0, \<lambda>i. d i XOR xor_stream key i))\<rparr>"

lemma xor_crypto_ctr: "ctr_cipher xor_crypto xor_stream"
  by (simp add: ctr_cipher_def xor_crypto_def)

lemma xor_crypto_loaded: "cipher_loaded xor_crypto"
  by (simp add: cipher_loaded_def xor_crypto_def)

lemma xor_crypto_md5: "md5_service xor_crypto sum_digest"
  by (simp add: md5_service_def xor_crypto_def)

text \<open>A machine on which nothing has been set up, the start of the concrete states below.\<close>

definition blank_inode :: inode where
  "blank_inode = \<lparr>i_ino = 0, i_mode = 0, i_size = 0, i_nlink = 1, i_atime = (0, 0), i_mtime = (0, 0),
     i_ctime = (0, 0), i_rdev = 0, i_sb = 0, i_version = 1, i_new = False, i_op = None,
     i_fop = None, a_ops = wrapfs_aops_null\<rparr>"

definition blank_dentry :: dentry where
  "blank_dentry = \<lparr>d_inode = None, d_fsdata = None, d_parent = 0, d_name = [], d_sb = 0,
     d_op = None, d_unhashed = False, d_nfs_renamed = False\<rparr>"

definition blank_sb :: super_block where
  "blank_sb = \<lparr>s_fs_info = None, s_root = None, s_maxbytes = 0, s_time_gran = 0, s_op = None,
     s_active = 1\<rparr>"

definition blank_file :: kfile where
  "blank_file = \<lparr>f_dentry = 0, f_pos = 0, f_mode = 3, f_flags = 0, f_op = None, f_mapping = 0,
     private_data = None\<rparr>"

definition blank_page :: page where
  "blank_page = \<lparr>pg_index = 0, pg_host = None, pg_data = (\<lambda>_. 0), pg_uptodate = False,
     pg_dirty = False, pg_locked = False\<rparr>"

definition blank_lower :: lower_st where
  "blank_lower = \<lparr>l_inodes = (\<lambda>_. blank_inode), l_dentries = (\<lambda>_. blank_dentry),
     l_files = (\<lambda>_. blank_file), l_sbs = (\<lambda>_. blank_sb), l_pages = (\<lambda>_. blank_page),
     l_bytes = (\<lambda>_ _. 0)\<rparr>"

definition blank_kst :: kst where
  "blank_kst = \<lparr>sbs = (\<lambda>_. blank_sb),
     sb_infos = (\<lambda>_. \<lparr>lower_sb = None, keyVal = None, aops_enabled = 0\<rparr>),
     inodes = (\<lambda>_. \<lparr>ii_lower_file = None, lower_inode = None, vfs_inode = blank_inode\<rparr>),
     dentries = (\<lambda>_. blank_dentry), dinfos = (\<lambda>_. \<lparr>lower_path = null_path\<rparr>),
     files = (\<lambda>_. blank_file), finfos = (\<lambda>_. \<lparr>lower_file = None, lower_vm_ops = None\<rparr>),
     pages = (\<lambda>_. blank_page), bufs = (\<lambda>_ _. 0), inode_cachep = None, dentry_cachep = None,
     addr_limit = USER_DS, low = blank_lower, log = []\<rparr>"

declare blank_kst_def [state_defs] blank_lower_def [state_defs] blank_page_def [state_defs]
  blank_file_def [state_defs] blank_sb_def [state_defs] blank_dentry_def [state_defs]
  blank_inode_def [state_defs]

section \<open>Properties\<close>

text \<open>C9: decrypting what the encryption produced, under the same key buffer, gives back every
  byte of the original page, and both calls report success.\<close>

theorem encrypt_decrypt_roundtrip:
  assumes "ctr_cipher C ks" and "cipher_loaded C"
    and "wrapfs_encrypt_page_new C page dst_page key s = (x, s1)"
    and "wrapfs_decrypt_page_new C page' dst_page key s1 = (y, s2)"
    and "i < PAGE_CACHE_SIZE"
  shows "x = 0 \<and> y = 0 \<and> pg_data (pages s2 page') i = pg_data (pages s page) i"
  using ctr.dec_enc [of "(C, ks)" i page dst_page key s x s1 page' y s2] assms
  by (simp add: cipher_ready_def)

theorem encrypt_decrypt_roundtrip_witness:
  "\<exists>x s1 y s2.
     wrapfs_encrypt_page_new xor_crypto 1 2 9 (upd_page 1 (pg_data_update (\<lambda>_ i. of_nat i)) blank_kst) = (x, s1) \<and>
     wrapfs_decrypt_page_new xor_crypto 3 2 9 s1 = (y, s2) \<and>
     x = 0 \<and> y = 0 \<and> pg_data (pages s2 3) 37 = 37"
proof -
  let ?s = "upd_page 1 (pg_data_update (\<lambda>_ i. of_nat i)) blank_kst"
  obtain x s1 where e: "wrapfs_encrypt_page_new xor_crypto 1 2 9 ?s = (x, s1)" by fastforce
  obtain y s2 where d: "wrapfs_decrypt_page_new xor_crypto 3 2 9 s1 = (y, s2)" by fastforce
  have "(37::nat) < PAGE_CACHE_SIZE" by (simp add: PAGE_CACHE_SIZE_eq)
  from encrypt_decrypt_roundtrip [OF xor_crypto_ctr xor_crypto_loaded e d this]
  show ?thesis using e d by auto
qed

text \<open>When the transform cannot be allocated, for instance because the kernel was built
  without \<open>ctr(aes)\<close>, both page functions leave the state as it is and return 0, the value that
  reports success: the caller goes on with a page that was never transformed.\<close>

theorem missing_cipher_reports_success:
  assumes "IS_ERR (crypto_alloc_blkcipher C ''ctr(aes)'' s)"
  shows "wrapfs_encrypt_page_new C page dst_page key s = (0, s) \<and>
         wrapfs_decrypt_page_new C page dst_page key s = (0, s)"
  using assms
  by (auto simp: wrapfs_encrypt_page_new_def wrapfs_decrypt_page_new_def u32_to_int_def
      split: eptr.splits)

theorem missing_cipher_reports_success_witness:
  "wrapfs_encrypt_page_new (xor_crypto\<lparr>crypto_alloc_blkcipher := \<lambda>_ _. ErrPtr (- ENOENT)\<rparr>) 1 2 9 blank_kst
     = (0, blank_kst)"
  using missing_cipher_reports_success
    [of "xor_crypto\<lparr>crypto_alloc_blkcipher := \<lambda>_ _. ErrPtr (- ENOENT)\<rparr>" blank_kst 1 2 9]
  by simp

text \<open>An error of the cipher reaches the caller although the test \<open>ret < 0\<close> compares an
  unsigned value: the result is the return code of \<open>setkey\<close> when that is not 0 (the pages are
  then untouched), and otherwise that of the encryption itself.\<close>

theorem encrypt_returns_cipher_code:
  assumes "crypto_alloc_blkcipher C ''ctr(aes)'' s = Ptr tfm"
    and "crypto_blkcipher_setkey C tfm (bytes_of (bufs s key) MD5_SIGNATURE_SIZE) = (kr, desc)"
    and "fst (crypto_blkcipher_encrypt C desc (pg_data (pages s page)) PAGE_CACHE_SIZE) = er"
    and "- (2 ^ 31) \<le> kr" "kr < 2 ^ 31" "- (2 ^ 31) \<le> er" "er < 2 ^ 31"
    and "wrapfs_encrypt_page_new C page dst_page key s = (r, s')"
  shows "r = (if kr \<noteq> 0 then kr else er) \<and> (kr \<noteq> 0 \<longrightarrow> pages s' = pages s)"
proof -
  have k: "u32_to_int (to_u32 kr) = kr" and e: "u32_to_int (to_u32 er) = er"
    using assms by (auto intro: u32_to_int_to_u32)
  have "to_u32 kr = 0 \<longleftrightarrow> kr = 0"
    using k by (auto simp: u32_to_int_def to_u32_def)
  with assms k e show ?thesis
    by (auto simp: wrapfs_encrypt_page_new_def run_simps split: if_splits)
qed

theorem encrypt_returns_cipher_code_witness:
  "fst (wrapfs_encrypt_page_new
     (xor_crypto\<lparr>crypto_blkcipher_encrypt := \<lambda>_ d _. (- EINVAL, d)\<rparr>) 1 2 9 blank_kst) = - EINVAL"
proof -
  let ?C = "xor_crypto\<lparr>crypto_blkcipher_encrypt := \<lambda>_ d _. (- EINVAL, d)\<rparr>"
  obtain r s' where r: "wrapfs_encrypt_page_new ?C 1 2 9 blank_kst = (r, s')" by fastforce
  show ?thesis
    using encrypt_returns_cipher_code [where C = ?C and s = blank_kst and kr = 0 and er = "- EINVAL"
        and page = 1 and dst_page = 2 and key = 9, OF _ _ _ _ _ _ _ r] r
    by (simp add: xor_crypto_def)
qed

text \<open>With the hash available, \<open>wrapfs_compute_md5\<close> returns 0 and the first 16 bytes of the
  result buffer are the digest of the first \<open>keySize\<close> bytes of the key; the address limit is
  restored and the hash object is never freed.\<close>

theorem compute_md5_digest:
  assumes "md5_service C md5" and "wrapfs_compute_md5 C integ_val key keySize s = (r, s')"
  shows "r = 0 \<and> bytes_of (bufs s' integ_val) MD5_SIGNATURE_SIZE
           = bytes_of (md5 (bytes_of (bufs s key) (unat (to_u32 keySize)))) MD5_SIGNATURE_SIZE \<and>
         addr_limit s' = addr_limit s \<and>
         (\<exists>tfm. held (R_tfm tfm) (log s') = held (R_tfm tfm) (log s) + 1)"
  using compute_md5_eq [OF assms(1), of integ_val key keySize s] assms(2)
  by (auto simp: held_simps bytes_of_eq_iff)

theorem compute_md5_digest_witness:
  "\<exists>r s'. wrapfs_compute_md5 xor_crypto 4 5 2 (upd_buf 5 (\<lambda>_. (\<lambda>_. 7)) blank_kst) = (r, s') \<and> r = 0 \<and>
     bufs s' 4 3 = 17"
proof -
  let ?s = "upd_buf 5 (\<lambda>_. (\<lambda>_. 7)) blank_kst"
  obtain r s' where r: "wrapfs_compute_md5 xor_crypto 4 5 2 ?s = (r, s')" by fastforce
  have "bytes_of (bufs ?s 5) (unat (to_u32 2)) = [7, 7]"
    by (simp add: bytes_of_def to_u32_def upt_rec)
  with compute_md5_digest [OF xor_crypto_md5 r] r show ?thesis
    by (auto simp: bytes_of_eq_iff sum_digest_def MD5_SIGNATURE_SIZE_def)
qed

text \<open>\<open>wrapfs_compute_md5\<close> returns 0 or \<open>-EPERM\<close>, and it leaves the address limit of the
  thread as it found it on every path but one: when feeding the hash fails, the thread is left
  running with \<open>KERNEL_DS\<close>.\<close>

theorem compute_md5_addr_limit:
  assumes "wrapfs_compute_md5 C integ_val key keySize s = (r, s')"
  shows "(r = 0 \<or> r = - EPERM) \<and>
    addr_limit s' =
      (case crypto_alloc_hash C ''md5'' s of
         ErrPtr _ \<Rightarrow> addr_limit s
       | Ptr tfm \<Rightarrow>
           if 0 \<le> fst (crypto_hash_init C tfm) \<and>
              fst (crypto_hash_update C (snd (crypto_hash_init C tfm))
                     (bytes_of (bufs s key) (unat (to_u32 keySize)))) < 0
           then KERNEL_DS else addr_limit s)"
  using assms by (auto simp: wrapfs_compute_md5_def run_simps split: eptr.splits if_splits)

theorem compute_md5_addr_limit_witness:
  "addr_limit (snd (wrapfs_compute_md5
     (xor_crypto\<lparr>crypto_hash_update := \<lambda>h _. (- EINVAL, h)\<rparr>) 4 5 2 blank_kst)) = KERNEL_DS
   \<and> addr_limit blank_kst = USER_DS"
proof -
  let ?C = "xor_crypto\<lparr>crypto_hash_update := \<lambda>h _. (- EINVAL, h)\<rparr>"
  obtain r s' where r: "wrapfs_compute_md5 ?C 4 5 2 blank_kst = (r, s')" by fastforce
  from compute_md5_addr_limit [OF r] r show ?thesis
    by (simp add: xor_crypto_def blank_kst_def)
qed

end
