(* ===== verification/Lower_Api.thy ===== *)
theory Lower_Api
  imports Crypto
begin

text \<open>
  The parts of the kernel the data path calls: reading and writing a file of the lower file
  system, copying attributes between inodes, allocating memory and pages.  They are
  parameters; the named hypotheses about them state what their documentation promises.
  \<^verbatim>\<open>read_write.c\<close>, a thin layer over \<open>vfs_write\<close>, is at the end.
\<close>

section \<open>Parameters\<close>

text \<open>
  \<open>vfs_read V f count pos\<close> and \<open>vfs_write V f buf count pos\<close> act on the lower state and give
  the return value and the new position; a read also gives the bytes it stored, of which
  the first \<open>rc\<close> are meaningful.
\<close>

record vfs_api =
  vfs_read :: "ptr \<Rightarrow> nat \<Rightarrow> int \<Rightarrow> lower_st \<Rightarrow> int \<times> int \<times> buffer \<times> lower_st"
  vfs_write :: "ptr \<Rightarrow> buffer \<Rightarrow> nat \<Rightarrow> int \<Rightarrow> lower_st \<Rightarrow> int \<times> int \<times> lower_st"
  fsstack_copy_attr_atime :: "inode \<Rightarrow> inode \<Rightarrow> inode"
  fsstack_copy_attr_times :: "inode \<Rightarrow> inode \<Rightarrow> inode"
  fsstack_copy_attr_all :: "inode \<Rightarrow> inode \<Rightarrow> inode"
  fsstack_copy_inode_size :: "inode \<Rightarrow> inode \<Rightarrow> inode"

text \<open>
  \<open>grab_cache_page_write_begin M host index flags\<close> finds or creates the page of \<open>host\<close> with
  that index and gives it with its present contents, locked and referenced.
\<close>

record mm_api =
  alloc_page :: "kst \<Rightarrow> ptr option"
  kmalloc :: "nat \<Rightarrow> kst \<Rightarrow> ptr option"
  grab_cache_page_write_begin :: "ptr \<Rightarrow> u32 \<Rightarrow> u32 \<Rightarrow> kst \<Rightarrow> (ptr \<times> page) option"
  find_or_create_page :: "ptr \<Rightarrow> u32 \<Rightarrow> lower_st \<Rightarrow> (ptr \<times> lower_st) option"
  lower_writepage :: "ptr \<Rightarrow> bool \<Rightarrow> lower_st \<Rightarrow> int \<times> lower_st"

definition FMODE_READ :: u32 where "FMODE_READ = 1"
definition FMODE_WRITE :: u32 where "FMODE_WRITE = 2"
definition O_APPEND :: u32 where "O_APPEND = 0x400"

section \<open>Hypotheses\<close>

text \<open>The inode behind an open file of the lower file system.\<close>

definition lower_file_inode :: "lower_st \<Rightarrow> ptr \<Rightarrow> ptr option" where
  "lower_file_inode l f = d_inode (l_dentries l (f_dentry (l_files l f)))"

text \<open>
  Apart from times, a read changes nothing; apart from the contents and the size of one
  inode, a write changes nothing.
\<close>

definition lower_frame :: "lower_st \<Rightarrow> lower_st \<Rightarrow> bool" where
  "lower_frame l l' \<longleftrightarrow> l_dentries l' = l_dentries l \<and> l_files l' = l_files l \<and>
     l_sbs l' = l_sbs l \<and> l_pages l' = l_pages l"

text \<open>
  A healthy lower file system: a file open for reading delivers the bytes from the given
  position up to the end of the file, a file open for writing and not in append mode
  stores all bytes at the given position and grows when they reach beyond its end.
\<close>

definition lower_reads :: "vfs_api \<Rightarrow> bool" where
  "lower_reads V \<longleftrightarrow> (\<forall>f n pos l i. lower_file_inode l f = Some i \<longrightarrow> 0 \<le> pos \<longrightarrow>
     f_mode (l_files l f) AND FMODE_READ \<noteq> 0 \<longrightarrow>
     (let m = min n (nat (i_size (l_inodes l i)) - nat pos) in
      \<exists>d l'. vfs_read V f n pos l = (int m, pos + int m, d, l') \<and>
        (\<forall>k<m. d k = l_bytes l i (nat pos + k)) \<and>
        l_bytes l' = l_bytes l \<and> (\<forall>j. i_size (l_inodes l' j) = i_size (l_inodes l j)) \<and>
        lower_frame l l'))"

definition lower_writes :: "vfs_api \<Rightarrow> bool" where
  "lower_writes V \<longleftrightarrow> (\<forall>f d n pos l i. lower_file_inode l f = Some i \<longrightarrow> 0 \<le> pos \<longrightarrow>
     f_mode (l_files l f) AND FMODE_WRITE \<noteq> 0 \<longrightarrow> f_flags (l_files l f) AND O_APPEND = 0 \<longrightarrow>
     (\<exists>l'. vfs_write V f d n pos l = (int n, pos + int n, l') \<and>
        l_bytes l' = (l_bytes l)(i := buf_write (l_bytes l i) (nat pos) n d) \<and>
        i_size (l_inodes l' i) =
          (if n = 0 then i_size (l_inodes l i) else max (i_size (l_inodes l i)) (pos + int n)) \<and>
        lower_frame l l'))"

text \<open>The attribute copies of \<^verbatim>\<open>fs_stack.h\<close>, on the fields modelled here.\<close>

definition fsstack_laws :: "vfs_api \<Rightarrow> bool" where
  "fsstack_laws V \<longleftrightarrow> (\<forall>d i.
     fsstack_copy_attr_atime V d i = d\<lparr>i_atime := i_atime i\<rparr> \<and>
     fsstack_copy_attr_times V d i =
       d\<lparr>i_atime := i_atime i, i_mtime := i_mtime i, i_ctime := i_ctime i\<rparr> \<and>
     fsstack_copy_attr_all V d i =
       d\<lparr>i_mode := i_mode i, i_rdev := i_rdev i, i_atime := i_atime i, i_mtime := i_mtime i,
         i_ctime := i_ctime i, i_nlink := i_nlink i\<rparr> \<and>
     fsstack_copy_inode_size V d i = d\<lparr>i_size := i_size i\<rparr>)"

text \<open>The memory that \<open>kmalloc\<close> returns is not in use.\<close>

definition alloc_fresh :: "mm_api \<Rightarrow> bool" where
  "alloc_fresh M \<longleftrightarrow> (\<forall>n s p. kmalloc M n s = Some p \<longrightarrow> held (R_mem p) (log s) = 0)"

lemma lower_readsD:
  assumes "lower_reads V" and "lower_file_inode l f = Some i" and "0 \<le> pos"
    and "f_mode (l_files l f) AND FMODE_READ \<noteq> 0"
    and "m = min n (nat (i_size (l_inodes l i)) - nat pos)"
  shows "\<exists>d l'. vfs_read V f n pos l = (int m, pos + int m, d, l') \<and>
        (\<forall>k<m. d k = l_bytes l i (nat pos + k)) \<and>
        l_bytes l' = l_bytes l \<and> (\<forall>j. i_size (l_inodes l' j) = i_size (l_inodes l j)) \<and>
        lower_frame l l'"
  using assms unfolding lower_reads_def Let_def by blast

lemma lower_writesD:
  assumes "lower_writes V" and "lower_file_inode l f = Some i" and "0 \<le> pos"
    and "f_mode (l_files l f) AND FMODE_WRITE \<noteq> 0" and "f_flags (l_files l f) AND O_APPEND = 0"
  shows "\<exists>l'. vfs_write V f d n pos l = (int n, pos + int n, l') \<and>
        l_bytes l' = (l_bytes l)(i := buf_write (l_bytes l i) (nat pos) n d) \<and>
        i_size (l_inodes l' i) =
          (if n = 0 then i_size (l_inodes l i) else max (i_size (l_inodes l i)) (pos + int n)) \<and>
        lower_frame l l'"
  using assms unfolding lower_writes_def by blast

section \<open>A concrete kernel\<close>

text \<open>An instance of the parameters on which all hypotheses hold.\<close>

definition file_inode_or :: "lower_st \<Rightarrow> ptr \<Rightarrow> ptr" where
  "file_inode_or l f = (case lower_file_inode l f of None \<Rightarrow> 0 | Some i \<Rightarrow> i)"

definition ram_vfs :: vfs_api where
  "ram_vfs =
     \<lparr>vfs_read = (\<lambda>f n pos l.
        (let i = file_inode_or l f; m = min n (nat (i_size (l_inodes l i)) - nat pos)
         in (int m, pos + int m, \<lambda>k. l_bytes l i (nat pos + k), l))),
      vfs_write = (\<lambda>f d n pos l.
        (let i = file_inode_or l f
         in (int n, pos + int n,
             l\<lparr>l_bytes := (l_bytes l)(i := buf_write (l_bytes l i) (nat pos) n d),
               l_inodes := (l_inodes l)(i := (l_inodes l i)
                 \<lparr>i_size := (if n = 0 then i_size (l_inodes l i)
                             else max (i_size (l_inodes l i)) (pos + int n))\<rparr>)\<rparr>))),
      fsstack_copy_attr_atime = (\<lambda>d i. d\<lparr>i_atime := i_atime i\<rparr>),
      fsstack_copy_attr_times =
        (\<lambda>d i. d\<lparr>i_atime := i_atime i, i_mtime := i_mtime i, i_ctime := i_ctime i\<rparr>),
      fsstack_copy_attr_all =
        (\<lambda>d i. d\<lparr>i_mode := i_mode i, i_rdev := i_rdev i, i_atime := i_atime i,
           i_mtime := i_mtime i, i_ctime := i_ctime i, i_nlink := i_nlink i\<rparr>),
      fsstack_copy_inode_size = (\<lambda>d i. d\<lparr>i_size := i_size i\<rparr>)\<rparr>"

lemma ram_vfs_reads: "lower_reads ram_vfs"
  by (auto simp: lower_reads_def ram_vfs_def Let_def file_inode_or_def lower_frame_def)

lemma ram_vfs_writes: "lower_writes ram_vfs"
  by (auto simp: lower_writes_def ram_vfs_def Let_def file_inode_or_def lower_frame_def)

lemma ram_vfs_fsstack: "fsstack_laws ram_vfs"
  by (simp add: fsstack_laws_def ram_vfs_def)

text \<open>
  Pages come from the addresses 100, 101, \dots, one more for each entry of the log; memory
  comes from the first address beyond all that were ever handed out.
\<close>

fun mem_bound :: "event list \<Rightarrow> ptr" where
  "mem_bound [] = 200"
| "mem_bound (Kmalloc p # es) = max (Suc p) (mem_bound es)"
| "mem_bound (Kfree (Some p) # es) = max (Suc p) (mem_bound es)"
| "mem_bound (_ # es) = mem_bound es"

lemma mem_bound_unused: "mem_bound es \<le> p \<Longrightarrow> held (R_mem p) es = 0"
  by (induction es rule: mem_bound.induct) (auto simp: held_simps effect_option split: option.splits)

definition ram_mm :: mm_api where
  "ram_mm =
     \<lparr>alloc_page = (\<lambda>s. Some (100 + length (log s))), kmalloc = (\<lambda>_ s. Some (mem_bound (log s))),
      grab_cache_page_write_begin = (\<lambda>host idx _ s.
        Some (50, \<lparr>pg_index = idx, pg_host = Some host, pg_data = (\<lambda>_. 255), pg_uptodate = False,
                   pg_dirty = False, pg_locked = True\<rparr>)),
      find_or_create_page = (\<lambda>_ _ _. None), lower_writepage = (\<lambda>_ _ l. (0, l))\<rparr>"

lemma ram_mm_fresh: "alloc_fresh ram_mm"
  by (simp add: alloc_fresh_def ram_mm_def mem_bound_unused)

section \<open>\<^verbatim>\<open>read_write.c\<close>\<close>

definition wrapfs_write_lower ::
  "vfs_api \<Rightarrow> ptr \<Rightarrow> buffer \<Rightarrow> int \<Rightarrow> nat \<Rightarrow> kst \<Rightarrow> int \<times> kst" where
  "wrapfs_write_lower V wrapfs_inode data offset sz s =
     (case ii_lower_file (WRAPFS_I s wrapfs_inode) of
        None \<Rightarrow> (- EIO, s)
      | Some lf \<Rightarrow>
          (let fs_save = addr_limit s;
               s = set_fs KERNEL_DS s;
               (rc, _, l) = vfs_write V lf data sz offset (low s);
               s = emit (Vfs_write lf sz offset) (s\<lparr>low := l\<rparr>);
               s = set_fs fs_save s;
               s = emit (Mark_inode_dirty_sync wrapfs_inode) s
           in (rc, s)))"

text \<open>\<open>wrapfs_write_lower\<close> on an inode whose own \<open>lower_file\<close> is set stores the bytes at the
  requested offset of the lower file, returns the number of bytes, restores the address limit
  and marks the inode dirty after the write.\<close>

theorem write_lower_stores:
  assumes "lower_writes V" and "ii_lower_file (inodes s i) = Some lf"
    and "lower_file_inode (low s) lf = Some li" and "0 \<le> offset"
    and "f_mode (l_files (low s) lf) AND FMODE_WRITE \<noteq> 0"
    and "f_flags (l_files (low s) lf) AND O_APPEND = 0"
    and "wrapfs_write_lower V i data offset sz s = (rc, s')"
  shows "rc = int sz \<and>
    l_bytes (low s') li = buf_write (l_bytes (low s) li) (nat offset) sz data \<and>
    addr_limit s' = addr_limit s \<and>
    log s' = log s @ [Vfs_write lf sz offset, Mark_inode_dirty_sync i]"
proof -
  obtain l' where "vfs_write V lf data sz offset (low s) = (int sz, offset + int sz, l')"
    and "l_bytes l' = (l_bytes (low s))(li := buf_write (l_bytes (low s) li) (nat offset) sz data)"
    using lower_writesD [OF assms(1,3,4,5,6)] by blast
  with assms show ?thesis
    by (auto simp: wrapfs_write_lower_def WRAPFS_I_def run_simps)
qed

definition open_kst :: kst where
  \<comment> \<open>upper inode 1 with its lower file 11, whose dentry 12 names the lower inode 13\<close>
  "open_kst =
     upd_iinfo 1 (ii_lower_file_update (\<lambda>_. Some 11) \<circ> lower_inode_update (\<lambda>_. Some 13))
       (blank_kst\<lparr>low := blank_lower
          \<lparr>l_files := (\<lambda>_. blank_file)(11 := blank_file\<lparr>f_dentry := 12\<rparr>),
           l_dentries := (\<lambda>_. blank_dentry)(12 := blank_dentry\<lparr>d_inode := Some 13\<rparr>)\<rparr>\<rparr>)"

theorem write_lower_stores_witness:
  "\<exists>rc s'. wrapfs_write_lower ram_vfs 1 (\<lambda>_. 7) 10 3 open_kst = (rc, s') \<and> rc = 3 \<and>
     l_bytes (low s') 13 11 = 7 \<and> l_bytes (low s') 13 9 = 0"
proof -
  obtain rc s' where r: "wrapfs_write_lower ram_vfs 1 (\<lambda>_. 7) 10 3 open_kst = (rc, s')" by fastforce
  from write_lower_stores [OF ram_vfs_writes _ _ _ _ _ r, of 11 13] r show ?thesis
    by (simp add: open_kst_def state_defs lower_file_inode_def FMODE_WRITE_def O_APPEND_def)
qed

section \<open>A mounted file system with an open file\<close>

text \<open>
  The state of the witnesses: file 2 is open on dentry 3 and inode 1 of super block 4, whose
  key is in buffer 9; below are file 11, dentry 12, inode 13.  Page 60 has index 1.
\<close>

definition mounted_kst :: kst where
  "mounted_kst = open_kst
     \<lparr>sbs := (\<lambda>_. blank_sb)(4 := blank_sb\<lparr>s_fs_info := Some 5\<rparr>),
      sb_infos := (\<lambda>_. \<lparr>lower_sb = Some 14, keyVal = Some 9, aops_enabled = 1\<rparr>),
      dentries := (\<lambda>_. blank_dentry)(3 := blank_dentry\<lparr>d_inode := Some 1, d_sb := 4, d_fsdata := Some 7\<rparr>),
      files := (\<lambda>_. blank_file)(2 := blank_file\<lparr>f_dentry := 3, private_data := Some 6\<rparr>),
      finfos := (\<lambda>_. \<lparr>lower_file = Some 11, lower_vm_ops = None\<rparr>),
      pages := (\<lambda>_. blank_page)(60 := blank_page\<lparr>pg_index := 1, pg_host := Some 1, pg_locked := True\<rparr>),
      bufs := (\<lambda>_ i. of_nat i + 7)\<rparr>"

declare mounted_kst_def [state_defs] open_kst_def [state_defs]

text \<open>The same file system before any key was set.\<close>

definition keyless_kst :: kst where
  "keyless_kst = upd_sb_info 5 (keyVal_update (\<lambda>_. None)) mounted_kst"

end
