(* ===== verification/Mmap.thy ===== *)
theory Mmap
  imports Lower_Api
begin

text \<open>
  \<^verbatim>\<open>mmap.c\<close>: the address space operations of a file system mounted with the option \<open>mmap\<close>.
  \<open>wrapfs_readpage\<close> fills a page of the page cache from the lower file and decrypts it,
  \<open>wrapfs_write_begin\<close> and \<open>wrapfs_write_end\<close> enclose the copying of user data into a page,
  the latter encrypting and writing to the lower file, \<open>wrapfs_writepage\<close> is called for dirty
  pages, \<open>wrapfs_fault\<close> for a mapping that the lower file system serves.

  The labels \<open>out\<close> of the sources are definitions of their own.  \<open>mapping\<close> arguments are
  represented by the inode they belong to (\<open>mapping->host\<close>).  A file position (\<open>loff_t\<close>) is
  an \<^typ>\<open>int\<close>; for those, \<open>>> PAGE_CACHE_SHIFT\<close> and \<open>& (PAGE_CACHE_SIZE - 1)\<close> are \<open>div\<close> and
  \<open>mod\<close>.  The quantities of type \<open>unsigned\<close> are 32-bit words.
\<close>

section \<open>Reading a page\<close>

definition readpage_out :: "int \<Rightarrow> ptr \<Rightarrow> ptr option \<Rightarrow> kst \<Rightarrow> int run" where
  "readpage_out err page dst_page s = do {
     let s = (if err = 0 then SetPageUptodate page s else ClearPageUptodate page s);
     let s = unlock_page page s;
     s \<leftarrow> kunmap dst_page s; \<comment> \<open>reached with a key only\<close>
     Some (err, s)
   }"

text \<open>
  From \<open>page_data = kmap(page)\<close> to \<open>set_fs(old_fs)\<close>: the lower file, temporarily readable, is
  read at the offset of the page into the destination page.
\<close>

definition readpage_fill :: "vfs_api \<Rightarrow> ptr \<Rightarrow> ptr \<Rightarrow> ptr \<Rightarrow> kst \<Rightarrow> int \<times> kst" where
  "readpage_fill V lf page dst_page s =
     (let s = emit (Kmap page) s;
          s = upd_lfile lf (f_pos_update (\<lambda>_. page_offset (pg_index (pages s page)))) s;
          old_fs = addr_limit s;
          s = set_fs KERNEL_DS s;
          orig_mode = f_mode (l_files (low s) lf);
          s = upd_lfile lf (f_mode_update (\<lambda>m. m OR FMODE_READ)) s;
          pos = f_pos (l_files (low s) lf);
          (err, pos', data, l) = vfs_read V lf PAGE_CACHE_SIZE pos (low s);
          s = emit (Vfs_read lf PAGE_CACHE_SIZE pos) (low_update (\<lambda>_. l) s);
          s = upd_lfile lf (f_pos_update (\<lambda>_. pos')) s;
          s = upd_page dst_page (pg_data_update (\<lambda>d. buf_write d 0 (nat err) data)) s;
          err = (if err > 0 then 0 else err);
          s = upd_lfile lf (f_mode_update (\<lambda>_. orig_mode)) s;
          s = set_fs old_fs s
      in (err, s))"

definition wrapfs_readpage ::
  "('h, 'c) crypto_api \<Rightarrow> vfs_api \<Rightarrow> mm_api \<Rightarrow> ptr \<Rightarrow> ptr \<Rightarrow> kst \<Rightarrow> int run" where
  "wrapfs_readpage C V M fl page s = do {
     let sb = d_sb (dentries s (f_dentry (files s fl)));
     encKey \<leftarrow> wrapfs_get_enc_key s sb;
     case encKey of
       None \<Rightarrow> Some (- EPERM, s)
     | Some key \<Rightarrow>
         (case alloc_page M s of
            None \<Rightarrow> readpage_out (- ENOMEM) page None s
          | Some dst_page \<Rightarrow>
              (let s = emit (Kmap dst_page) (emit (Alloc_page dst_page) s) in
               if WRAPFS_F s fl = None then readpage_out (- ENOENT) page (Some dst_page) s
               else do {
                 lf_opt \<leftarrow> wrapfs_lower_file s fl;
                 lf \<leftarrow> lf_opt; \<comment> \<open>\<open>BUG_ON(lower_file == NULL)\<close>\<close>
                 inode \<leftarrow> d_inode (dentries s (f_dentry (files s fl)));
                 let li_opt = wrapfs_lower_inode s inode;
                 let (err, s) = readpage_fill V lf page dst_page s;
                 let (err, s) = wrapfs_decrypt_page_new C page dst_page key s;
                 let s = emit (Kunmap page) s;
                 if err < 0 then readpage_out err page (Some dst_page) s
                 else do {
                   let s = emit (Flush_dcache_page page) s;
                   li \<leftarrow> li_opt;
                   let s = upd_inode inode
                     (\<lambda>i. fsstack_copy_attr_atime V i (l_inodes (low s) li)) s;
                   readpage_out err page (Some dst_page) s
                 }
               }))
   }"

section \<open>Writing back a page\<close>

definition AOP_WRITEPAGE_ACTIVATE :: int where "AOP_WRITEPAGE_ACTIVATE = 0x80000"

text \<open>The operation vectors at the end of the file.\<close>

fun has_aop :: "aops \<Rightarrow> aop_method \<Rightarrow> bool" where
  "has_aop wrapfs_aops m = (m \<in> set [A_writepage, A_readpage, A_write_begin, A_write_end])"
| "has_aop wrapfs_aops_null m = False"
| "has_aop (foreign_aops ms) m = (m \<in> set ms)"

definition writepage_release :: "int \<Rightarrow> ptr \<Rightarrow> ptr \<Rightarrow> kst \<Rightarrow> int run" where
  "writepage_release err page lower_page s =
     Some (err, unlock_page page (emit (Page_cache_release lower_page) s))"

text \<open>From the statement \<open>lower_inode = wrapfs_lower_inode(inode)\<close> to the end.\<close>

definition writepage_lower :: "vfs_api \<Rightarrow> mm_api \<Rightarrow> ptr \<Rightarrow> ptr \<Rightarrow> bool \<Rightarrow> kst \<Rightarrow> int run" where
  "writepage_lower V M page inode for_reclaim s = do {
     li \<leftarrow> wrapfs_lower_inode s inode; \<comment> \<open>\<open>lower_inode->i_mapping\<close>\<close>
     case find_or_create_page M li (pg_index (pages s page)) (low s) of
       None \<Rightarrow> Some (0, unlock_page page (set_page_dirty page s))
     | Some (lower_page, l) \<Rightarrow> do {
         let s = emit (Grab_page lower_page) (low_update (\<lambda>_. l) s);
         let s = upd_lpage lower_page (pg_data_update (\<lambda>_. pg_data (pages s page))) s;
         let s = emit (Flush_dcache_page lower_page) s;
         let s = upd_lpage lower_page (pg_uptodate_update (\<lambda>_. True)) s;
         let s = upd_lpage lower_page (pg_dirty_update (\<lambda>_. True)) s;
         if for_reclaim
         then writepage_release (- EIO) page lower_page
                (upd_lpage lower_page (pg_locked_update (\<lambda>_. False)) s)
         else if \<not> has_aop (a_ops (l_inodes (low s) li)) A_writepage then None
         else do {
           let s = emit (Wait_on_page_writeback lower_page) s;
           let s = upd_lpage lower_page (pg_dirty_update (\<lambda>_. False)) s;
           let (err, l) = lower_writepage M lower_page for_reclaim (low s);
           let s = emit (Lower_writepage lower_page) (low_update (\<lambda>_. l) s);
           if err < 0 then writepage_release err page lower_page s
           else do {
             let (err, s) =
               (if err = AOP_WRITEPAGE_ACTIVATE
                then (0, upd_lpage lower_page (pg_locked_update (\<lambda>_. False)) s) else (err, s));
             let s = upd_inode inode (\<lambda>i. fsstack_copy_inode_size V i (l_inodes (low s) li)) s;
             let s = upd_inode inode (\<lambda>i. fsstack_copy_attr_times V i (l_inodes (low s) li)) s;
             writepage_release err page lower_page s
           }
         }
       }
   }"

text \<open>
  \<open>pg_host\<close> stands for \<open>page->mapping->host\<close>, where \<^const>\<open>None\<close> is a mapping without a host: \<open>writepage\<close> is
  called on a locked page of the page cache, and such a page has a mapping.
\<close>

definition wrapfs_writepage :: "vfs_api \<Rightarrow> mm_api \<Rightarrow> ptr \<Rightarrow> bool \<Rightarrow> kst \<Rightarrow> int run" where
  "wrapfs_writepage V M page for_reclaim s =
     (if \<not> pg_uptodate (pages s page) then None
      else
        case pg_host (pages s page) of
          None \<Rightarrow> Some (0, unlock_page page s)
        | Some inode \<Rightarrow>
            if lower_inode (WRAPFS_I s inode) \<noteq> None then Some (0, unlock_page page s)
            else writepage_lower V M page inode for_reclaim s)"

section \<open>Writing into a page\<close>

definition wrapfs_write_begin ::
  "mm_api \<Rightarrow> ptr \<Rightarrow> ptr \<Rightarrow> int \<Rightarrow> u32 \<Rightarrow> u32 \<Rightarrow> kst \<Rightarrow> (int \<times> ptr option) run" where
  "wrapfs_write_begin M fl mapping pos len flags s = do {
     let index = (page_of pos :: u32);
     encKey \<leftarrow> wrapfs_get_enc_key s (d_sb (dentries s (f_dentry (files s fl))));
     if encKey = None then Some ((- EPERM, None), s)
     else
       case grab_cache_page_write_begin M mapping index flags s of
         None \<Rightarrow> Some ((- ENOMEM, None), s)
       | Some (page, pg) \<Rightarrow> do {
           let s = emit (Grab_page page) (upd_page page (\<lambda>_. pg) s);
           let s =
             (if \<not> pg_uptodate (pages s page) \<and> len \<noteq> of_nat PAGE_CACHE_SIZE
              then
                (let from = (word_of_int (pos mod int PAGE_CACHE_SIZE) :: u32)
                 in zero_user_segments page 0 (unat from) (unat (from + len)) PAGE_CACHE_SIZE s)
              else s);
           let s = SetPageUptodate page s;
           Some ((0, Some page), s)
         }
   }"

definition fill_zeros_to_end_of_page :: "ptr \<Rightarrow> u32 \<Rightarrow> kst \<Rightarrow> int run" where
  "fill_zeros_to_end_of_page page to s = do {
     inode \<leftarrow> pg_host (pages s page);
     if i_size_read inode s sdiv int PAGE_CACHE_SIZE \<noteq> uint (pg_index (pages s page))
     then Some (0, s)
     else do {
       let end_byte_in_page = to_u32 (i_size_read inode s smod int PAGE_CACHE_SIZE);
       let end_byte_in_page = (if to > end_byte_in_page then to else end_byte_in_page);
       Some (0, zero_user_segment page (unat end_byte_in_page) PAGE_CACHE_SIZE s)
     }
   }"

definition write_end_out :: "int \<Rightarrow> bool \<Rightarrow> ptr \<Rightarrow> ptr option \<Rightarrow> ptr option \<Rightarrow> kst \<Rightarrow> int run" where
  "write_end_out rc need_unlock_page page encKey dst_page s = do {
     let s = (if need_unlock_page then unlock_page page s else s);
     let s = emit (Page_cache_release page) s;
     s \<leftarrow> (if encKey \<noteq> None then kunmap dst_page s else Some s);
     Some (rc, s)
   }"

text \<open>
  The bytes handed to \<open>vfs_write\<close>: the encrypted page from its start when there is a key, the
  page itself from offset \<open>from\<close> when there is none.  The result of the encryption is not used.
\<close>

definition write_end_data ::
  "('h, 'c) crypto_api \<Rightarrow> ptr \<Rightarrow> ptr option \<Rightarrow> ptr option \<Rightarrow> u32 \<Rightarrow> kst \<Rightarrow> buffer \<times> kst" where
  "write_end_data C page encKey dst_page from s =
     (case (encKey, dst_page) of
        (Some key, Some dst) \<Rightarrow>
          (let (ret, s) = wrapfs_encrypt_page_new C page dst key s in (pg_data (pages s dst), s))
      | _ \<Rightarrow> (\<lambda>i. pg_data (pages s page) (unat from + i), s))"

text \<open>
  The statements of \<open>wrapfs_write_end\<close> between the allocation of the destination page and
  the filling with zeros: encryption, write to the lower file, size of the upper inode.
\<close>

definition write_end_store ::
  "('h, 'c) crypto_api \<Rightarrow> vfs_api \<Rightarrow> ptr \<Rightarrow> ptr \<Rightarrow> ptr \<Rightarrow> ptr option \<Rightarrow> ptr option \<Rightarrow> u32 \<Rightarrow>
     u32 \<Rightarrow> kst \<Rightarrow> int run" where
  "write_end_store C V wrapfs_inode page lf encKey dst_page from copied s = do {
     let offset = page_offset (pg_index (pages s page));
     let s = emit (Kmap page) s;
     let fs_save = addr_limit s;
     let s = set_fs KERNEL_DS s;
     let (data, s) = write_end_data C page encKey dst_page from s;
     let (rc, _, l) = vfs_write V lf data (unat copied) offset (low s);
     let s = emit (Vfs_write lf (unat copied) offset) (low_update (\<lambda>_. l) s);
     let s = set_fs fs_save s;
     let s = emit (Mark_inode_dirty_sync wrapfs_inode) s;
     let rc = (if rc > 0 then 0 else rc);
     let s = emit (Kunmap page) s;
     if rc = 0 then do {
       li \<leftarrow> lower_file_inode (low s) lf;
       Some (u32_to_int copied,
             upd_inode wrapfs_inode (\<lambda>i. fsstack_copy_inode_size V i (l_inodes (low s) li)) s)
     }
     else Some (rc, s)
   }"

text \<open>From \<open>set_page_dirty\<close> to the end.\<close>

definition write_end_finish ::
  "ptr \<Rightarrow> int \<Rightarrow> u32 \<Rightarrow> ptr \<Rightarrow> ptr option \<Rightarrow> ptr option \<Rightarrow> kst \<Rightarrow> int run" where
  "write_end_finish wrapfs_inode pos copied page encKey dst_page s = do {
     let s = set_page_dirty page s;
     let s = unlock_page page s;
     let s =
       (if pos + uint copied > i_size_read wrapfs_inode s
        then emit (Balance_dirty_pages wrapfs_inode)
               (i_size_write wrapfs_inode (pos + uint copied) s)
        else s);
     write_end_out (u32_to_int copied) False page encKey dst_page s
   }"

definition wrapfs_write_end ::
  "('h, 'c) crypto_api \<Rightarrow> vfs_api \<Rightarrow> mm_api \<Rightarrow> ptr \<Rightarrow> ptr \<Rightarrow> int \<Rightarrow> u32 \<Rightarrow> u32 \<Rightarrow> ptr \<Rightarrow> kst
     \<Rightarrow> int run" where
  "wrapfs_write_end C V M fl mapping pos len copied page s = do {
     let from = (word_of_int (pos mod int PAGE_CACHE_SIZE) :: u32);
     let to = from + copied;
     let wrapfs_inode = mapping;
     lf_opt \<leftarrow> wrapfs_lower_file s fl;
     case lf_opt of
       None \<Rightarrow> Some (- EIO, s)
     | Some lf \<Rightarrow> do {
         encKey \<leftarrow> wrapfs_get_enc_key s (d_sb (dentries s (f_dentry (files s fl))));
         if encKey \<noteq> None \<and> alloc_page M s = None
         then write_end_out 0 True page encKey None s
         else do {
           let dst_page = (if encKey \<noteq> None then alloc_page M s else None);
           let s =
             (case dst_page of
                Some p \<Rightarrow> emit (Kmap p) (emit (Alloc_page p) s)
              | None \<Rightarrow> s);
           (rc, s) \<leftarrow> write_end_store C V wrapfs_inode page lf encKey dst_page from copied s;
           (rc, s) \<leftarrow> fill_zeros_to_end_of_page page to s;
           if rc \<noteq> 0 then write_end_out rc True page encKey dst_page s
           else write_end_finish wrapfs_inode pos copied page encKey dst_page s
         }
       }
   }"

section \<open>Faults\<close>

record vma =
  vm_file :: "ptr option"
  vm_flags :: u32
  vma_vm_ops :: "vm_ops option"
  vm_start :: nat
  vm_end :: nat

text \<open>The parameter \<open>fault\<close> is the lower file system's handler, selected by its operation table.\<close>

definition wrapfs_fault ::
  "(vm_ops \<Rightarrow> vma \<Rightarrow> nat \<Rightarrow> lower_st \<Rightarrow> int \<times> lower_st) \<Rightarrow> vma \<Rightarrow> nat \<Rightarrow> kst \<Rightarrow> int run" where
  "wrapfs_fault fault vma vmf s = do {
     let lower_vma = vma;
     fl \<leftarrow> vm_file lower_vma;
     fi \<leftarrow> WRAPFS_F s fl;
     ops \<leftarrow> lower_vm_ops (finfos s fi); \<comment> \<open>\<open>BUG_ON(!lower_vm_ops)\<close>\<close>
     lf \<leftarrow> wrapfs_lower_file s fl;
     let lower_vma = lower_vma\<lparr>vm_file := lf\<rparr>;
     let (err, l) = fault ops lower_vma vmf (low s);
     Some (err, emit (Lower_call ''fault'') (low_update (\<lambda>_. l) s))
   }"

section \<open>The plaintext view of a lower file\<close>

text \<open>
  \<open>plain ks s key li\<close> is what the lower inode \<open>li\<close> holds when every page of it is decrypted with
  the key buffer \<open>key\<close>: the abstraction that the data path implements.  \<open>enc_file\<close> collects
  what is the case for a file opened for writing on a mount whose key is set.
\<close>

definition plain :: "(byte list \<Rightarrow> nat \<Rightarrow> byte) \<Rightarrow> kst \<Rightarrow> ptr \<Rightarrow> ptr \<Rightarrow> buffer" where
  "plain ks s key li k =
     l_bytes (low s) li k XOR ks (bytes_of (bufs s key) MD5_SIGNATURE_SIZE) (k mod PAGE_CACHE_SIZE)"

definition enc_file :: "kst \<Rightarrow> ptr \<Rightarrow> ptr \<Rightarrow> ptr \<Rightarrow> ptr \<Rightarrow> ptr \<Rightarrow> bool" where
  "enc_file s fl key lf i li \<longleftrightarrow>
     wrapfs_get_enc_key s (d_sb (dentries s (f_dentry (files s fl)))) = Some (Some key) \<and>
     wrapfs_lower_file s fl = Some (Some lf) \<and>
     d_inode (dentries s (f_dentry (files s fl))) = Some i \<and>
     lower_inode (inodes s i) = Some li \<and> lower_file_inode (low s) lf = Some li \<and>
     f_mode (l_files (low s) lf) AND FMODE_WRITE \<noteq> 0 \<and> f_flags (l_files (low s) lf) AND O_APPEND = 0"

text \<open>The size of a file after \<open>n\<close> bytes were stored from \<open>off\<close> on.\<close>

definition grown :: "u32 \<Rightarrow> int \<Rightarrow> int \<Rightarrow> int" where
  "grown n old off = (if n = 0 then old else max old (off + uint n))"

lemma plain_buf_write:
  assumes "l_bytes (low s') li = buf_write (l_bytes (low s) li) (nat (page_offset idx)) n
      (\<lambda>k. d k XOR ks (bytes_of (bufs s key) MD5_SIGNATURE_SIZE) k)"
    and "bufs s' = bufs s" and "n \<le> PAGE_CACHE_SIZE"
  shows "plain ks s' key li = buf_write (plain ks s key li) (nat (page_offset idx)) n d"
proof
  fix k
  let ?o = "nat (page_offset idx)"
  show "plain ks s' key li k = buf_write (plain ks s key li) ?o n d k"
  proof (cases "?o \<le> k \<and> k < ?o + n")
    case True
    with assms(3) have "k mod PAGE_CACHE_SIZE = k - ?o"
      using page_byte_mod [of idx "k - ?o"] by (simp add: less_diff_conv2)
    with True assms(1,2) show ?thesis by (simp add: plain_def xor.assoc)
  next
    case False
    with assms(1,2) show ?thesis by (auto simp: plain_def buf_write_def)
  qed
qed

section \<open>Lemmas on the pieces of \<open>write_end\<close>\<close>

lemma fill_zeros_Some:
  assumes "fill_zeros_to_end_of_page page to s = Some (rc, s')"
  shows "rc = 0 \<and> data_frame page s s' \<and> log s' = log s"
  using assms
  by (auto simp: fill_zeros_to_end_of_page_def bind_Some_iff run_simps data_frame_defs split: if_splits)

lemma fill_zeros_total:
  assumes "pg_host (pages s page) = Some i"
  shows "\<exists>s'. fill_zeros_to_end_of_page page to s = Some (0, s')"
  using assms by (simp add: fill_zeros_to_end_of_page_def run_simps)

lemma write_end_data_frame:
  assumes "write_end_data C page encKey dst from s = (d, s')"
  shows "\<exists>p. data_frame p s s' \<and> (\<forall>q. Some q \<noteq> dst \<longrightarrow> pages s' q = pages s q)"
    and "\<exists>es. log s' = log s @ es \<and> set es \<subseteq> range Alloc_tfm"
  using assms
  by (auto simp: write_end_data_def split: option.splits prod.splits
      dest: encrypt_page_frame data_frame_page(6) intro: data_frame_refl)

lemma write_end_store_frame:
  assumes "write_end_store C V i page lf encKey dst from copied s = Some (rc, s')"
  shows "\<forall>q. Some q \<noteq> dst \<longrightarrow> pages s' q = pages s q"
    and "same_flags (pages s q) (pages s' q)"
    and "sb_infos s' = sb_infos s" "sbs s' = sbs s" "addr_limit s' = addr_limit s" "files s' = files s"
    "dentries s' = dentries s" "finfos s' = finfos s"
    and "\<exists>es. log s' = log s @ es \<and> (\<forall>x. (\<forall>t. x \<noteq> R_tfm t) \<longrightarrow> held x es = 0)"
    and "lower_inode (inodes s' j) = lower_inode (inodes s j)"
proof -
  let ?s1 = "set_fs KERNEL_DS (emit (Kmap page) s)"
  obtain d s2 where d: "write_end_data C page encKey dst from ?s1 = (d, s2)" by fastforce
  obtain p es where p: "data_frame p ?s1 s2" and q: "\<forall>q. Some q \<noteq> dst \<longrightarrow> pages s2 q = pages s q"
    and es: "log s2 = log s @ Kmap page # es" "set es \<subseteq> range Alloc_tfm"
    using write_end_data_frame [OF d] by auto
  note held_tfm_only [OF es(2)]
  with assms d p q es show "\<forall>q. Some q \<noteq> dst \<longrightarrow> pages s' q = pages s q"
    "same_flags (pages s q) (pages s' q)"
    "sb_infos s' = sb_infos s" "sbs s' = sbs s" "addr_limit s' = addr_limit s" "files s' = files s"
    "dentries s' = dentries s" "finfos s' = finfos s"
    "\<exists>es. log s' = log s @ es \<and> (\<forall>x. (\<forall>t. x \<noteq> R_tfm t) \<longrightarrow> held x es = 0)"
    "lower_inode (inodes s' j) = lower_inode (inodes s j)"
    by (auto simp: write_end_store_def run_simps data_frame_defs bind_Some_iff held_simps split: if_splits)
qed

lemma write_end_store_enc:
  assumes cipher: "ctr_cipher C ks" "cipher_loaded C" and V: "lower_writes V"
    and lf: "lower_file_inode (low s) lf = Some li"
      "f_mode (l_files (low s) lf) AND FMODE_WRITE \<noteq> 0" "f_flags (l_files (low s) lf) AND O_APPEND = 0"
    and copied: "unat copied \<le> PAGE_CACHE_SIZE" and ne: "dst \<noteq> page"
  shows "\<exists>s'. write_end_store C V i page lf (Some key) (Some dst) from copied s = Some (u32_to_int copied, s') \<and>
     l_bytes (low s') = (l_bytes (low s))(li := buf_write (l_bytes (low s) li)
         (nat (page_offset (pg_index (pages s page)))) (unat copied)
         (\<lambda>k. pg_data (pages s page) k XOR ks (bytes_of (bufs s key) MD5_SIGNATURE_SIZE) k)) \<and>
     lower_frame (low s) (low s') \<and> bufs s' = bufs s \<and> pages s' page = pages s page \<and>
     i_size (l_inodes (low s') li) = grown copied (i_size (l_inodes (low s) li)) (page_offset (pg_index (pages s page)))"
proof -
  let ?s1 = "set_fs KERNEL_DS (emit (Kmap page) s)"
  let ?off = "page_offset (pg_index (pages s page))"
  obtain tfm where e: "wrapfs_encrypt_page_new C page dst key ?s1 =
     (0, upd_page dst (pg_data_update (\<lambda>d. buf_write d 0 PAGE_CACHE_SIZE
            (\<lambda>i. pg_data (pages ?s1 page) i XOR ks (bytes_of (bufs ?s1 key) MD5_SIGNATURE_SIZE) i)))
         (emit (Alloc_tfm tfm) ?s1))"
    using encrypt_page_eq [OF cipher] by blast
  let ?d = "buf_write (pg_data (pages s dst)) 0 PAGE_CACHE_SIZE (\<lambda>i. pg_data (pages s page) i XOR ks (bytes_of (bufs s key) MD5_SIGNATURE_SIZE) i)"
  obtain l' where w: "vfs_write V lf ?d (unat copied) ?off (low s) = (int (unat copied), ?off + int (unat copied), l')"
     "l_bytes l' = (l_bytes (low s))(li := buf_write (l_bytes (low s) li) (nat ?off) (unat copied) ?d)"
     "lower_frame (low s) l'"
     "i_size (l_inodes l' li) = (if unat copied = 0 then i_size (l_inodes (low s) li)
        else max (i_size (l_inodes (low s) li)) (?off + int (unat copied)))"
    using lower_writesD [OF V lf(1) page_offset_nonneg lf(2,3)] by blast
  have d: "buf_write b o' (unat copied) ?d = buf_write b o' (unat copied)
     (\<lambda>i. pg_data (pages s page) i XOR ks (bytes_of (bufs s key) MD5_SIGNATURE_SIZE) i)" for b o'
    using copied by (intro buf_write_cong) (simp add: buf_write_start)
  have rc: "0 < uint copied \<or> uint copied = 0"
    using uint_ge_0 [of copied] by linarith
  have li: "lower_file_inode l' lf = Some li"
    using lf(1) w(3) by (simp add: lower_file_inode_def lower_frame_def)
  show ?thesis
    using e w li d ne rc by (auto simp: write_end_store_def write_end_data_def run_simps unat_eq_0 grown_def)
qed

lemma write_end_finish_frame:
  assumes "write_end_finish i pos copied page encKey dst s = Some (rc, s')"
  shows "rc = u32_to_int copied" "\<not> pg_locked (pages s' page)" "pg_dirty (pages s' page)"
    "pg_data (pages s' q) = pg_data (pages s q)" "low s' = low s" "bufs s' = bufs s"
    "sb_infos s' = sb_infos s" "sbs s' = sbs s" "addr_limit s' = addr_limit s" "files s' = files s"
    "dentries s' = dentries s" "finfos s' = finfos s" "lower_inode (inodes s' j) = lower_inode (inodes s j)"
    "i_size (vfs_inode (inodes s' i)) = max (i_size (vfs_inode (inodes s i))) (pos + uint copied)"
    "\<exists>es. log s' = log s @ es \<and> (\<forall>x. held x es =
       (if x = R_page page then -1 else 0) + (if encKey \<noteq> None \<and> (\<exists>p. dst = Some p \<and> x = R_kmap p) then -1 else 0))"
  using assms
  by (cases dst; auto simp: write_end_finish_def write_end_out_def run_simps held_simps max_def
      split: if_splits)+

text \<open>The four ways through \<open>wrapfs_write_end\<close>: no lower file, no memory, with and without a key.\<close>

lemmas write_end_defs = wrapfs_write_end_def write_end_out_def run_simps

lemma write_end_no_lower_file:
  "wrapfs_lower_file s fl = Some None \<Longrightarrow>
     wrapfs_write_end C V M fl mapping pos len copied page s = Some (- EIO, s)"
  by (simp add: write_end_defs)

lemma write_end_no_memory:
  assumes "wrapfs_lower_file s fl = Some (Some lf)" and "alloc_page M s = None"
    and "wrapfs_get_enc_key s (d_sb (dentries s (f_dentry (files s fl)))) = Some (Some key)"
  shows "wrapfs_write_end C V M fl mapping pos len copied page s =
     None"
  using assms by (simp add: write_end_defs)

definition write_end_tail ::
  "('h, 'c) crypto_api \<Rightarrow> vfs_api \<Rightarrow> ptr \<Rightarrow> ptr \<Rightarrow> int \<Rightarrow> u32 \<Rightarrow> ptr \<Rightarrow> ptr option \<Rightarrow> ptr option \<Rightarrow>
     kst \<Rightarrow> int run" where
  "write_end_tail C V lf i pos copied page encKey dst s = do {
     (r, s) \<leftarrow> write_end_store C V i page lf encKey dst (word_of_int (pos mod int PAGE_CACHE_SIZE)) copied s;
     (r, s) \<leftarrow> fill_zeros_to_end_of_page page (word_of_int (pos mod int PAGE_CACHE_SIZE) + copied) s;
     write_end_finish i pos copied page encKey dst s
   }"

lemma fill_zeros_bind_cong:
  "(\<And>s'. fill_zeros_to_end_of_page page to s = Some (0, s') \<Longrightarrow> f (0, s') = g (0, s')) \<Longrightarrow>
     Option.bind (fill_zeros_to_end_of_page page to s) f = Option.bind (fill_zeros_to_end_of_page page to s) g"
  by (cases "fill_zeros_to_end_of_page page to s") (auto dest: fill_zeros_Some)

lemma write_end_enc_eq:
  assumes "wrapfs_lower_file s fl = Some (Some lf)" and "alloc_page M s = Some dst"
    and "wrapfs_get_enc_key s (d_sb (dentries s (f_dentry (files s fl)))) = Some (Some key)"
  shows "wrapfs_write_end C V M fl i pos len copied page s =
    write_end_tail C V lf i pos copied page (Some key) (Some dst) (emit (Kmap dst) (emit (Alloc_page dst) s))"
  using assms
  by (auto simp: wrapfs_write_end_def write_end_tail_def run_simps
      intro!: Option.bind_cong fill_zeros_bind_cong)

lemma write_end_plain_eq:
  assumes "wrapfs_lower_file s fl = Some (Some lf)"
    and "wrapfs_get_enc_key s (d_sb (dentries s (f_dentry (files s fl)))) = Some None"
  shows "wrapfs_write_end C V M fl i pos len copied page s = write_end_tail C V lf i pos copied page None None s"
  using assms
  by (auto simp: wrapfs_write_end_def write_end_tail_def run_simps
      intro!: Option.bind_cong fill_zeros_bind_cong)

lemma write_end_tailE:
  assumes "write_end_tail C V lf i pos copied page encKey dst s = Some (rc, s')"
  obtains r s1 s2 where
    "write_end_store C V i page lf encKey dst (word_of_int (pos mod int PAGE_CACHE_SIZE)) copied s = Some (r, s1)"
    "fill_zeros_to_end_of_page page (word_of_int (pos mod int PAGE_CACHE_SIZE) + copied) s1 = Some (0, s2)"
    "write_end_finish i pos copied page encKey dst s2 = Some (rc, s')"
  using assms
  by (auto simp: write_end_tail_def bind_Some_iff split_beta dest: fill_zeros_Some)

lemma write_end_tail_ret:
  assumes "write_end_tail C V lf i pos copied page encKey dst s = Some (rc, s')"
  shows "rc = u32_to_int copied" and "\<not> pg_locked (pages s' page)"
  using write_end_tailE [OF assms] write_end_finish_frame(1,2) by metis+

lemma write_end_tail_held:
  assumes "write_end_tail C V lf i pos copied page encKey dst s = Some (rc, s')"
    and "\<forall>t. x \<noteq> R_tfm t"
  shows "held x (log s') = held x (log s) + (if x = R_page page then -1 else 0)
      + (if encKey \<noteq> None \<and> (\<exists>p. dst = Some p \<and> x = R_kmap p) then -1 else 0)"
proof -
  obtain r s1 s2 where a: 
    "write_end_store C V i page lf encKey dst (word_of_int (pos mod int PAGE_CACHE_SIZE)) copied s = Some (r, s1)"
    "fill_zeros_to_end_of_page page (word_of_int (pos mod int PAGE_CACHE_SIZE) + copied) s1 = Some (0, s2)"
    "write_end_finish i pos copied page encKey dst s2 = Some (rc, s')"
    using write_end_tailE [OF assms(1)] .
  from write_end_store_frame(9) [OF a(1)] assms(2) have "held x (log s1) = held x (log s)" by auto
  moreover from fill_zeros_Some [OF a(2)] have "log s2 = log s1" by simp
  ultimately show ?thesis
    using write_end_finish_frame(15) [OF a(3)] by auto
qed

section \<open>Lemmas on the pieces of \<open>readpage\<close>\<close>

lemma or_and_absorb: "(m OR FMODE_READ) AND FMODE_READ \<noteq> 0"
proof -
  have "(m OR FMODE_READ) AND FMODE_READ = FMODE_READ"
    by (rule bit_eqI) (auto simp: bit_simps)
  then show ?thesis by (simp add: FMODE_READ_def)
qed

lemma readpage_fill_frame:
  assumes "readpage_fill V lf page dst s = (err, s')"
  shows "\<forall>q. q \<noteq> dst \<longrightarrow> pages s' q = pages s q"  "same_flags (pages s q) (pages s' q)"
    "bufs s' = bufs s" "inodes s' = inodes s" "files s' = files s" "finfos s' = finfos s"
    "dentries s' = dentries s" "sbs s' = sbs s" "sb_infos s' = sb_infos s" "addr_limit s' = addr_limit s"
    "f_mode (l_files (low s') lf) = f_mode (l_files (low s) lf)"
    "log s' = log s @ [Kmap page, Vfs_read lf PAGE_CACHE_SIZE (page_offset (pg_index (pages s page)))]"
    "err \<le> 0"
  using assms by (auto simp: readpage_fill_def run_simps same_flags_def split: if_splits)

lemma readpage_fill_eq:
  assumes V: "lower_reads V" and lf: "lower_file_inode (low s) lf = Some li"
    and "readpage_fill V lf page dst s = (err, s')"
    and "j < PAGE_CACHE_SIZE"
    and "page_offset (pg_index (pages s page)) + int j < i_size (l_inodes (low s) li)"
  shows "pg_data (pages s' dst) j = l_bytes (low s) li (nat (page_offset (pg_index (pages s page))) + j)"
proof -
  let ?off = "page_offset (pg_index (pages s page))"
  let ?l = "l_files_update (\<lambda>h. h(lf := f_mode_update (\<lambda>m. m OR FMODE_READ) ((h lf)\<lparr>f_pos := ?off\<rparr>))) (low s)"
  let ?m = "min PAGE_CACHE_SIZE (nat (i_size (l_inodes (low s) li)) - nat ?off)"
  have "lower_file_inode ?l lf = Some li" using lf by (simp add: lower_file_inode_def)
  moreover have "f_mode (l_files ?l lf) AND FMODE_READ \<noteq> 0" using or_and_absorb by simp
  ultimately obtain d l' where r: "vfs_read V lf PAGE_CACHE_SIZE ?off ?l = (int ?m, ?off + int ?m, d, l')"
    "\<forall>k<?m. d k = l_bytes (low s) li (nat ?off + k)"
    using lower_readsD [OF V, where l = ?l and f = lf and i = li and pos = ?off and n = PAGE_CACHE_SIZE and m = ?m]
    by auto
  have "0 \<le> b \<Longrightarrow> b + int j < a \<Longrightarrow> j < nat a - nat b" for a b
    by arith
  with assms(4,5) have "j < ?m" by simp
  with r assms(3) show ?thesis
    by (auto simp: readpage_fill_def run_simps)
qed

lemma readpage_fill_lower:
  assumes V: "lower_reads V" and lf: "lower_file_inode (low s) lf = Some li"
    and "readpage_fill V lf page dst s = (err, s')"
  shows "l_bytes (low s') = l_bytes (low s)" "l_dentries (low s') = l_dentries (low s)"
    "f_dentry (l_files (low s') f) = f_dentry (l_files (low s) f)"
    "f_flags (l_files (low s') f) = f_flags (l_files (low s) f)"
    "i_size (l_inodes (low s') j) = i_size (l_inodes (low s) j)"
proof -
  let ?off = "page_offset (pg_index (pages s page))"
  let ?l = "l_files_update (\<lambda>h. h(lf := f_mode_update (\<lambda>m. m OR FMODE_READ) ((h lf)\<lparr>f_pos := ?off\<rparr>))) (low s)"
  let ?m = "min PAGE_CACHE_SIZE (nat (i_size (l_inodes (low s) li)) - nat ?off)"
  have "lower_file_inode ?l lf = Some li" using lf by (simp add: lower_file_inode_def)
  moreover have "f_mode (l_files ?l lf) AND FMODE_READ \<noteq> 0" using or_and_absorb by simp
  ultimately obtain d l' where r: "vfs_read V lf PAGE_CACHE_SIZE ?off ?l = (int ?m, ?off + int ?m, d, l')"
    and "l_bytes l' = l_bytes ?l" "\<forall>j. i_size (l_inodes l' j) = i_size (l_inodes ?l j)" "lower_frame ?l l'"
    using lower_readsD [OF V, where l = ?l and f = lf and i = li and pos = ?off and n = PAGE_CACHE_SIZE and m = ?m]
    by auto
  with assms(3) show "l_bytes (low s') = l_bytes (low s)" "l_dentries (low s') = l_dentries (low s)"
    "f_dentry (l_files (low s') f) = f_dentry (l_files (low s) f)"
    "f_flags (l_files (low s') f) = f_flags (l_files (low s) f)"
    "i_size (l_inodes (low s') j) = i_size (l_inodes (low s) j)"
    by (auto simp: readpage_fill_def run_simps lower_frame_def)
qed

lemma write_end_stores:
  assumes cipher: "ctr_cipher C ks" "cipher_loaded C" and V: "lower_writes V"
    and f: "enc_file s fl key lf i li" and dst: "alloc_page M s = Some dst" "dst \<noteq> page"
    and host: "pg_host (pages s page) = Some h" and n: "unat copied \<le> PAGE_CACHE_SIZE"
  shows "\<exists>s'. wrapfs_write_end C V M fl i pos len copied page s = Some (u32_to_int copied, s') \<and>
     plain ks s' key li = buf_write (plain ks s key li)
       (nat (page_offset (pg_index (pages s page)))) (unat copied) (pg_data (pages s page)) \<and>
     i_size (l_inodes (low s') li) = grown copied (i_size (l_inodes (low s) li)) (page_offset (pg_index (pages s page))) \<and>
     enc_file s' fl key lf i li \<and> pos + uint copied \<le> i_size_read i s'"
proof -
  let ?s0 = "emit (Kmap dst) (emit (Alloc_page dst) s)"
  note f' = f [unfolded enc_file_def]
  obtain s1 where s1: "write_end_store C V i page lf (Some key) (Some dst) 
      (word_of_int (pos mod int PAGE_CACHE_SIZE)) copied ?s0 = Some (u32_to_int copied, s1)"
    and b: "l_bytes (low s1) = (l_bytes (low s))(li := buf_write (l_bytes (low s) li)
         (nat (page_offset (pg_index (pages s page)))) (unat copied)
         (\<lambda>k. pg_data (pages s page) k XOR ks (bytes_of (bufs s key) MD5_SIGNATURE_SIZE) k))"
    and l: "lower_frame (low s) (low s1)" and p: "bufs s1 = bufs s" "pages s1 page = pages s page"
    and sz: "i_size (l_inodes (low s1) li) = grown copied (i_size (l_inodes (low s) li)) (page_offset (pg_index (pages s page)))"
    using write_end_store_enc [OF cipher V, of ?s0 lf li copied dst page i key] f' n dst(2) by auto
  obtain s2 where s2: "fill_zeros_to_end_of_page page (word_of_int (pos mod int PAGE_CACHE_SIZE) + copied) s1 = Some (0, s2)"
    using fill_zeros_total host p(2) by metis
  obtain rc s' where s': "write_end_finish i pos copied page (Some key) (Some dst) s2 = Some (rc, s')"
    by (simp add: write_end_finish_def write_end_out_def run_simps)
  note fin = write_end_finish_frame [OF s'] and df = fill_zeros_Some [OF s2, THEN conjunct2, THEN conjunct1]
  have "wrapfs_write_end C V M fl i pos len copied page s = Some (u32_to_int copied, s')"
    using write_end_enc_eq [of s fl lf M dst key C V i pos len copied page] f' dst s1 s2 s' fin(1) by (simp add: write_end_tail_def)
  moreover have "plain ks s' key li = buf_write (plain ks s key li)
       (nat (page_offset (pg_index (pages s page)))) (unat copied) (pg_data (pages s page))"
    using b p fin(5,6) data_frame_fields(1,2) [OF df] n by (intro plain_buf_write) auto
  moreover have "enc_file s' fl key lf i li"
    using f l fin write_end_store_frame [OF s1] data_frame_fields [OF df]
    by (simp add: enc_file_def lower_frame_def lower_file_inode_def wrapfs_get_enc_key_def
        wrapfs_lower_file_def WRAPFS_SB_def WRAPFS_F_def)
  moreover have "pos + uint copied \<le> i_size_read i s'" using fin(14) by simp
  moreover have "low s' = low s1" using fin(5) data_frame_fields(2) [OF df] by simp
  ultimately show ?thesis using sz by auto
qed

lemma readpage_plain:
  assumes cipher: "ctr_cipher C ks" "cipher_loaded C" and V: "lower_reads V"
    and f: "enc_file s fl key lf i li" and dst: "alloc_page M s = Some dst" "dst \<noteq> page"
  shows "\<exists>s'. wrapfs_readpage C V M fl page s = Some (0, s') \<and>
     pg_uptodate (pages s' page) \<and> \<not> pg_locked (pages s' page) \<and>
     (\<forall>j. j < PAGE_CACHE_SIZE \<longrightarrow> 
        page_offset (pg_index (pages s page)) + int j < i_size (l_inodes (low s) li) \<longrightarrow>
        pg_data (pages s' page) j = plain ks s key li (nat (page_offset (pg_index (pages s page))) + j)) \<and>
     plain ks s' key li = plain ks s key li \<and> enc_file s' fl key lf i li \<and>
     i_size (l_inodes (low s') li) = i_size (l_inodes (low s) li) \<and> addr_limit s' = addr_limit s"
proof -
  let ?off = "page_offset (pg_index (pages s page))"
  note f' = f [unfolded enc_file_def]
  let ?s0 = "emit (Kmap dst) (emit (Alloc_page dst) s)"
  obtain err s1 where s1: "readpage_fill V lf page dst ?s0 = (err, s1)" by fastforce
  note fr = readpage_fill_frame [OF s1]
  obtain tfm where s2: "wrapfs_decrypt_page_new C page dst key s1 =
     (0, upd_page page (pg_data_update (\<lambda>d. buf_write d 0 PAGE_CACHE_SIZE
            (\<lambda>i. pg_data (pages s1 dst) i XOR ks (bytes_of (bufs s1 key) MD5_SIGNATURE_SIZE) i)))
         (emit (Alloc_tfm tfm) s1))"
    using decrypt_page_eq [OF cipher] by blast
  obtain fi where fi: "private_data (files s fl) = Some fi"  "lower_file (finfos s fi) = Some lf"
    using f' by (auto simp: wrapfs_lower_file_def WRAPFS_F_def)
  have data: "pg_data (pages s1 dst) j XOR ks (bytes_of (bufs s1 key) MD5_SIGNATURE_SIZE) j = plain ks s key li (nat ?off + j)"
    if "j < PAGE_CACHE_SIZE" "?off + int j < i_size (l_inodes (low s) li)" for j
    using readpage_fill_eq [OF V _ s1, of li j] that fr(3) f' page_byte_mod [of "pg_index (pages s page)" j]
    by (simp add: plain_def)
  obtain pi where pi: "s_fs_info (sbs s (d_sb (dentries s (f_dentry (files s fl))))) = Some pi"
      "keyVal (sb_infos s pi) = Some key"
    using f' by (auto simp: link_simps)
  have lo: "lower_file_inode (low ?s0) lf = Some li" using f' by simp
  note lw = readpage_fill_lower [OF V lo s1]
  have pl: "plain ks s1 key li = plain ks s key li"
    using lw(1) fr(3) by (simp add: plain_def [abs_def])
  have ef: "enc_file s1 fl key lf i li"
    using f fr lw by (simp add: enc_file_def lower_file_inode_def link_simps)
  show ?thesis
    using f' dst(1) fi pi s1 s2 fr data lw(5) pl ef
    by (simp add: wrapfs_readpage_def readpage_out_def enc_file_def plain_def [abs_def]
         link_simps run_simps buf_write_start)
qed

lemma write_end_keeps_page:
  assumes "wrapfs_write_end C V M fl i pos len copied page s = Some (rc, s')"
    and "wrapfs_lower_file s fl = Some (Some lf)" and "alloc_page M s = Some dst"
    and "wrapfs_get_enc_key s (d_sb (dentries s (f_dentry (files s fl)))) = Some (Some key)"
  shows "pg_index (pages s' q) = pg_index (pages s q)" and "pg_host (pages s' q) = pg_host (pages s q)"
proof -
  let ?s0 = "emit (Kmap dst) (emit (Alloc_page dst) s)"
  from assms have t: "write_end_tail C V lf i pos copied page (Some key) (Some dst) ?s0 = Some (rc, s')"
    by (simp add: write_end_enc_eq)
  obtain r s1 s2 where a:
    "write_end_store C V i page lf (Some key) (Some dst) (word_of_int (pos mod int PAGE_CACHE_SIZE)) copied ?s0
       = Some (r, s1)"
    "fill_zeros_to_end_of_page page (word_of_int (pos mod int PAGE_CACHE_SIZE) + copied) s1 = Some (0, s2)"
    "write_end_finish i pos copied page (Some key) (Some dst) s2 = Some (rc, s')"
    using write_end_tailE [OF t] .
  have "same_flags (pages s q) (pages s1 q)" using write_end_store_frame(2) [OF a(1), of q] by simp
  moreover have "data_frame page s1 s2" using fill_zeros_Some [OF a(2)] by simp
  moreover have "pg_index (pages s' q) = pg_index (pages s2 q) \<and> pg_host (pages s' q) = pg_host (pages s2 q)"
    using a(3) by (auto simp: write_end_finish_def write_end_out_def run_simps split: if_splits)
  ultimately show "pg_index (pages s' q) = pg_index (pages s q)" "pg_host (pages s' q) = pg_host (pages s q)"
    by (simp_all add: data_frame_defs)
qed

section \<open>The data path as a store of bytes\<close>

text \<open>
  What the page cache relies on: a store with contents and a size, whose \<open>put\<close> overwrites the
  first \<open>n\<close> bytes of a page's range with those of the page and whose \<open>get\<close> fills a page
  with the contents of its range, up to the size.
\<close>

locale page_store =
  fixes ready :: "'env \<Rightarrow> kst \<Rightarrow> bool"
    and usable :: "'env \<Rightarrow> ptr \<Rightarrow> kst \<Rightarrow> bool"
    and content :: "'env \<Rightarrow> kst \<Rightarrow> buffer"
    and fsize :: "'env \<Rightarrow> kst \<Rightarrow> int"
    and put :: "'env \<Rightarrow> int \<Rightarrow> u32 \<Rightarrow> ptr \<Rightarrow> kst \<Rightarrow> int run"
    and get :: "'env \<Rightarrow> ptr \<Rightarrow> kst \<Rightarrow> int run"
  assumes put_law: "ready env s \<Longrightarrow> usable env page s \<Longrightarrow> pg_host (pages s page) \<noteq> None \<Longrightarrow>
      unat n \<le> PAGE_CACHE_SIZE \<Longrightarrow>
      \<exists>s'. put env pos n page s = Some (u32_to_int n, s') \<and> ready env s' \<and>
        content env s' = buf_write (content env s)
          (nat (page_offset (pg_index (pages s page)))) (unat n) (pg_data (pages s page)) \<and>
        fsize env s' = grown n (fsize env s) (page_offset (pg_index (pages s page))) \<and>
        (\<forall>q. pg_index (pages s' q) = pg_index (pages s q))"
    and get_law: "ready env s \<Longrightarrow> usable env page s \<Longrightarrow>
      \<exists>s'. get env page s = Some (0, s') \<and> ready env s' \<and>
        content env s' = content env s \<and> fsize env s' = fsize env s \<and> pg_uptodate (pages s' page) \<and>
        (\<forall>j. j < PAGE_CACHE_SIZE \<longrightarrow> page_offset (pg_index (pages s page)) + int j < fsize env s \<longrightarrow>
           pg_data (pages s' page) j = content env s (nat (page_offset (pg_index (pages s page))) + j))"
begin

text \<open>What was put is what any page with the same index gets.\<close>

lemma get_put:
  assumes "ready env s" "usable env page s" "pg_host (pages s page) \<noteq> None" "unat n \<le> PAGE_CACHE_SIZE"
    and put: "put env pos n page s = Some (rc, s1)" and "usable env page' s1"
    and idx: "pg_index (pages s page') = pg_index (pages s page)"
  shows "\<exists>s2. get env page' s1 = Some (0, s2) \<and> pg_uptodate (pages s2 page') \<and>
    (\<forall>j < unat n. pg_data (pages s2 page') j = pg_data (pages s page) j)"
proof -
  let ?off = "page_offset (pg_index (pages s page))"
  have "ready env s1" and c: "content env s1 = buf_write (content env s) (nat ?off) (unat n) (pg_data (pages s page))"
    and sz: "fsize env s1 = grown n (fsize env s) ?off" and i: "pg_index (pages s1 page') = pg_index (pages s page)"
    using put_law [OF assms(1-4), of pos] put idx by auto
  have cover: "?off + int j < fsize env s1" if "j < unat n" for j
  proof -
    have "int j < uint n" using that by (metis of_nat_less_iff uint_nat)
    moreover have "n \<noteq> 0" using that by auto
    ultimately show ?thesis by (simp add: sz grown_def)
  qed
  from get_law [OF \<open>ready env s1\<close> assms(6)] cover assms(4) show ?thesis
    by (auto simp: i c buf_write_shift)
qed

text \<open>Reading in between does not disturb what is stored.\<close>

lemma get_stable:
  assumes "ready env s" "usable env page s" "get env page s = Some (rc, s1)"
  shows "rc = 0 \<and> ready env s1 \<and> content env s1 = content env s \<and> fsize env s1 = fsize env s"
  using get_law [OF assms(1,2)] assms(3) by auto

end

text \<open>The parameters of the model together with one open file.\<close>

record ('h, 'c) open_env =
  oe_crypto :: "('h, 'c) crypto_api"
  oe_stream :: "byte list \<Rightarrow> nat \<Rightarrow> byte"
  oe_vfs :: vfs_api
  oe_mm :: mm_api
  oe_file :: ptr
  oe_key :: ptr
  oe_lfile :: ptr
  oe_inode :: ptr
  oe_linode :: ptr

definition oe_ready :: "('h, 'c) open_env \<Rightarrow> kst \<Rightarrow> bool" where
  "oe_ready e s \<longleftrightarrow> ctr_cipher (oe_crypto e) (oe_stream e) \<and> cipher_loaded (oe_crypto e) \<and>
     lower_writes (oe_vfs e) \<and> lower_reads (oe_vfs e) \<and>
     enc_file s (oe_file e) (oe_key e) (oe_lfile e) (oe_inode e) (oe_linode e)"

definition oe_usable :: "('h, 'c) open_env \<Rightarrow> ptr \<Rightarrow> kst \<Rightarrow> bool" where
  "oe_usable e page s \<longleftrightarrow> (\<exists>dst. alloc_page (oe_mm e) s = Some dst \<and> dst \<noteq> page)"

interpretation data_path: page_store oe_ready oe_usable
  "\<lambda>e s. plain (oe_stream e) s (oe_key e) (oe_linode e)"
  "\<lambda>e s. i_size (l_inodes (low s) (oe_linode e))"
  "\<lambda>e pos n. wrapfs_write_end (oe_crypto e) (oe_vfs e) (oe_mm e) (oe_file e) (oe_inode e) pos n n"
  "\<lambda>e. wrapfs_readpage (oe_crypto e) (oe_vfs e) (oe_mm e) (oe_file e)"
proof (unfold_locales, goal_cases)
  case (1 e s page n pos)
  then obtain dst h where a: "alloc_page (oe_mm e) s = Some dst" "dst \<noteq> page" "pg_host (pages s page) = Some h"
    by (auto simp: oe_usable_def)
  from 1 have f: "enc_file s (oe_file e) (oe_key e) (oe_lfile e) (oe_inode e) (oe_linode e)"
    and r: "ctr_cipher (oe_crypto e) (oe_stream e)" "cipher_loaded (oe_crypto e)" "lower_writes (oe_vfs e)"
      "lower_reads (oe_vfs e)"
    by (simp_all add: oe_ready_def)
  from write_end_stores [where C = "oe_crypto e", OF r(1-3) f a \<open>unat n \<le> PAGE_CACHE_SIZE\<close>, of pos n]
  show ?case
    using write_end_keeps_page(1) [OF _ _ a(1)] f r by (fastforce simp: oe_ready_def enc_file_def)
next
  case (2 e s page)
  then show ?case
    using readpage_plain [where C = "oe_crypto e" and ks = "oe_stream e" and V = "oe_vfs e" and M = "oe_mm e"]
    by (fastforce simp: oe_ready_def oe_usable_def)
qed

lemma write_begin_page:
  assumes key: "wrapfs_get_enc_key s (d_sb (dentries s (f_dentry (files s fl)))) = Some (Some key)"
    and grab: "grab_cache_page_write_begin M mapping (page_of pos) flags s = Some (page, pg)"
    and len: "in_page pos + unat len \<le> PAGE_CACHE_SIZE"
  shows "wrapfs_write_begin M fl mapping pos len flags s = Some ((0, Some page),
    upd_page page (\<lambda>_. pg\<lparr>pg_uptodate := True, pg_data := 
       (\<lambda>j. if \<not> pg_uptodate pg \<and> j < PAGE_CACHE_SIZE \<and> (j < in_page pos \<or> in_page pos + unat len \<le> j)
            then 0 else pg_data pg j)\<rparr>) (emit (Grab_page page) s))"
proof -
  let ?from = "word_of_int (pos mod int PAGE_CACHE_SIZE) :: u32"
  have to: "unat (?from + len) = in_page pos + unat len"
    using len unat_in_page [of pos] by (subst unat_add_small) (simp_all add: PAGE_CACHE_SIZE_eq)
  have z: "zero_range (zero_range d 0 (in_page pos)) (in_page pos + unat len) PAGE_CACHE_SIZE =
     (\<lambda>j. if j < PAGE_CACHE_SIZE \<and> (j < in_page pos \<or> in_page pos + unat len \<le> j) then 0 else d j)" for d
    using in_page_less [of pos] by (intro zero_segments) simp
  have full: "in_page pos = 0 \<and> unat len = PAGE_CACHE_SIZE" if "len = of_nat PAGE_CACHE_SIZE"
    using len that by (simp add: PAGE_CACHE_SIZE_eq)
  show ?thesis
  proof (cases "pg_uptodate pg \<or> len = of_nat PAGE_CACHE_SIZE")
    case True
    with full have "(\<lambda>j. if \<not> pg_uptodate pg \<and> j < PAGE_CACHE_SIZE \<and> (j < in_page pos \<or> in_page pos + unat len \<le> j)
            then 0 else pg_data pg j) = pg_data pg"
      by (auto simp: fun_eq_iff)
    with True key grab show ?thesis
      by (auto simp: wrapfs_write_begin_def run_simps)
  next
    case False
    with key grab show ?thesis
      by (cases pg) (simp add: wrapfs_write_begin_def run_simps unat_in_page to z cong: if_cong)
  qed
qed

text \<open>The state in which \<open>write_end\<close> is called, after user data \<open>u\<close> was copied into the page.\<close>

abbreviation kept :: "page \<Rightarrow> buffer" where
  "kept pg \<equiv> (\<lambda>j. if pg_uptodate pg \<or> PAGE_CACHE_SIZE \<le> j then pg_data pg j else 0)"

lemma write_begin_copy:
  assumes f: "enc_file s fl key lf i li"
    and grab: "grab_cache_page_write_begin M i (page_of pos) flags s = Some (page, pg)"
      "pg_index pg = page_of pos" "pg_host pg = Some i"
    and len: "in_page pos + unat len \<le> PAGE_CACHE_SIZE"
    and s1: "wrapfs_write_begin M fl i pos len flags s = Some ((0, Some page), s1)"
    and s2: "s2 = upd_page page (pg_data_update (\<lambda>d. buf_write d (in_page pos) (unat len) u)) s1"
  shows "enc_file s2 fl key lf i li" "pg_host (pages s2 page) = Some i" "pg_index (pages s2 page) = page_of pos"
    "pg_data (pages s2 page) = buf_write (kept pg) (in_page pos) (unat len) u"
    "plain ks s2 key li = plain ks s key li" "low s2 = low s"
    "q \<noteq> page \<Longrightarrow> pages s2 q = pages s q"
proof -
  let ?d = "\<lambda>j. if \<not> pg_uptodate pg \<and> j < PAGE_CACHE_SIZE \<and> (j < in_page pos \<or> in_page pos + unat len \<le> j)
            then 0 else pg_data pg j"
  have "wrapfs_get_enc_key s (d_sb (dentries s (f_dentry (files s fl)))) = Some (Some key)"
    using f by (simp add: enc_file_def)
  from write_begin_page [OF this grab(1) len] s1
  have s1': "s1 = upd_page page (\<lambda>_. pg\<lparr>pg_uptodate := True, pg_data := ?d\<rparr>) (emit (Grab_page page) s)"
    by simp
  have w: "buf_write ?d (in_page pos) (unat len) u = buf_write (kept pg) (in_page pos) (unat len) u"
    by (auto simp: buf_write_def fun_eq_iff)
  show "enc_file s2 fl key lf i li"
    using f by (simp add: s2 s1' enc_file_def link_simps)
  show "pg_host (pages s2 page) = Some i" "pg_index (pages s2 page) = page_of pos"
    "pg_data (pages s2 page) = buf_write (kept pg) (in_page pos) (unat len) u"
    "plain ks s2 key li = plain ks s key li" "low s2 = low s" "q \<noteq> page \<Longrightarrow> pages s2 q = pages s q"
    using grab w by (simp_all add: s2 s1' plain_def [abs_def])
qed

lemma write_sequence:
  assumes cipher: "ctr_cipher C ks" "cipher_loaded C" and V: "lower_writes V"
    and f: "enc_file s fl key lf i li" and pos: "0 \<le> pos" "pos < 2 ^ 44"
    and grab: "grab_cache_page_write_begin M i (page_of pos) flags s = Some (page, pg)"
      "pg_index pg = page_of pos" "pg_host pg = Some i"
    and len: "in_page pos + unat len \<le> PAGE_CACHE_SIZE"
    and s1: "wrapfs_write_begin M fl i pos len flags s = Some ((0, Some page), s1)"
    and s2: "s2 = upd_page page (pg_data_update (\<lambda>d. buf_write d (in_page pos) (unat len) u)) s1"
    and dst: "alloc_page M s2 = Some dst" "dst \<noteq> page"
  shows "\<exists>s3. wrapfs_write_end C V M fl i pos len len page s2 = Some (u32_to_int len, s3) \<and>
     plain ks s3 key li = buf_write (plain ks s key li) (nat (pos - pos mod int PAGE_CACHE_SIZE)) (unat len)
       (buf_write (kept pg) (in_page pos) (unat len) u) \<and>
     pos + uint len \<le> i_size_read i s3 \<and>
     i_size (l_inodes (low s3) li) = grown len (i_size (l_inodes (low s) li)) (pos - pos mod int PAGE_CACHE_SIZE) \<and>
     enc_file s3 fl key lf i li"
proof -
  note c = write_begin_copy [OF f grab len s1 s2]
  show ?thesis
    using write_end_stores [OF cipher V c(1) dst c(2), of len pos len] len
    by (auto simp: c page_offset_of_pos [OF pos])
qed

section \<open>The data path of the concrete file system\<close>

lemma mounted_enc_file: "enc_file mounted_kst 2 9 11 1 13"
  by (simp add: enc_file_def link_simps state_defs lower_file_inode_def FMODE_WRITE_def O_APPEND_def)

lemma mounted_key [simp]:
  "wrapfs_get_enc_key mounted_kst (d_sb (dentries mounted_kst (f_dentry (files mounted_kst 2)))) = Some (Some 9)"
  "wrapfs_get_enc_key keyless_kst (d_sb (dentries keyless_kst (f_dentry (files keyless_kst 2)))) = Some None"
  by (simp_all add: link_simps keyless_kst_def state_defs)

lemma mounted_lower_file [simp]: "wrapfs_lower_file mounted_kst 2 = Some (Some 11)"
  "wrapfs_lower_file keyless_kst 2 = Some (Some 11)"
  by (simp_all add: link_simps keyless_kst_def state_defs)

lemma ram_mm_alloc [simp]: "alloc_page ram_mm s = Some (100 + length (log s))"
  by (simp add: ram_mm_def)

abbreviation fresh_page :: "ptr \<Rightarrow> u32 \<Rightarrow> page" where
  "fresh_page host idx \<equiv> \<lparr>pg_index = idx, pg_host = Some host, pg_data = (\<lambda>_. 255), pg_uptodate = False,
     pg_dirty = False, pg_locked = True\<rparr>"

lemma ram_mm_grab: "grab_cache_page_write_begin ram_mm host idx flags s = Some (50, fresh_page host idx)"
  by (simp add: ram_mm_def)

section \<open>Properties\<close>

text \<open>C6: a write that starts on a page boundary is stored: after \<open>write_begin\<close>, the copy of \<open>len\<close> user
  bytes into the page and \<open>write_end\<close>, the call has returned \<open>len\<close>, the decrypted contents of the lower
  file are the old ones overwritten with exactly these bytes at the requested position, the lower file
  has grown accordingly and the file is ready for the next operation.\<close>

theorem aligned_write_stores:
  assumes "ctr_cipher C ks" "cipher_loaded C" "lower_writes V"
    and "enc_file s fl key lf i li" and "0 \<le> pos" "pos < 2 ^ 44"
    and "grab_cache_page_write_begin M i (page_of pos) flags s = Some (page, pg)"
      "pg_index pg = page_of pos" "pg_host pg = Some i"
    and "unat len \<le> PAGE_CACHE_SIZE"
    and "wrapfs_write_begin M fl i pos len flags s = Some ((0, Some page), s1)"
    and "s2 = upd_page page (pg_data_update (\<lambda>d. buf_write d (in_page pos) (unat len) u)) s1"
    and "alloc_page M s2 = Some dst" "dst \<noteq> page"
    and aligned: "pos mod int PAGE_CACHE_SIZE = 0"
  shows "\<exists>s3. wrapfs_write_end C V M fl i pos len len page s2 = Some (u32_to_int len, s3) \<and>
     plain ks s3 key li = buf_write (plain ks s key li) (nat pos) (unat len) u \<and>
     i_size (l_inodes (low s3) li) = grown len (i_size (l_inodes (low s) li)) pos \<and>
     enc_file s3 fl key lf i li"
  using assms write_sequence [where C = C and u = u and len = len and ks = ks, OF assms(1-9) _ assms(11-14)]
  by (auto simp: buf_write_absorb)

theorem aligned_write_stores_witness:
  "\<exists>s1 s3. wrapfs_write_begin ram_mm 2 1 4096 5 0 mounted_kst = Some ((0, Some 50), s1) \<and>
     wrapfs_write_end xor_crypto ram_vfs ram_mm 2 1 4096 5 5 50
       (upd_page 50 (pg_data_update (\<lambda>d. buf_write d 0 5 (\<lambda>_. 42))) s1) = Some (5, s3) \<and>
     plain xor_stream s3 9 13 4098 = 42 \<and> i_size (l_inodes (low s3) 13) = 4101"
proof -
  have u: "unat (5::u32) = 5" by simp
  obtain s1 where s1: "wrapfs_write_begin ram_mm 2 1 4096 5 0 mounted_kst = Some ((0, Some 50), s1)"
    using write_begin_page [OF mounted_key(1) ram_mm_grab, of 4096 5] by (simp add: PAGE_CACHE_SIZE_eq)
  from aligned_write_stores [OF xor_crypto_ctr xor_crypto_loaded ram_vfs_writes mounted_enc_file _ _ ram_mm_grab
      _ _ _ s1 refl ram_mm_alloc, of "\<lambda>_. 42"] s1
  show ?thesis
    by (auto simp: PAGE_CACHE_SIZE_eq u32_to_int_def u grown_def state_defs)
qed

text \<open>C2: what an aligned write stored is what a later page fault or read sees: \<open>readpage\<close> on any page
  with the same index returns 0, marks the page up to date, and its first \<open>len\<close> bytes are the bytes
  the user wrote.\<close>

theorem write_read_roundtrip:
  assumes cipher: "ctr_cipher C ks" "cipher_loaded C" and V: "lower_writes V" "lower_reads V"
    and "enc_file s fl key lf i li" and pos: "0 \<le> pos" "pos < 2 ^ 44"
    and "grab_cache_page_write_begin M i (page_of pos) flags s = Some (page, pg)"
      "pg_index pg = page_of pos" "pg_host pg = Some i"
    and len: "unat len \<le> PAGE_CACHE_SIZE"
    and "wrapfs_write_begin M fl i pos len flags s = Some ((0, Some page), s1)"
    and "s2 = upd_page page (pg_data_update (\<lambda>d. buf_write d (in_page pos) (unat len) u)) s1"
    and "alloc_page M s2 = Some dst" "dst \<noteq> page"
    and aligned: "pos mod int PAGE_CACHE_SIZE = 0"
    and s3: "wrapfs_write_end C V M fl i pos len len page s2 = Some (rc, s3)"
    and dst': "alloc_page M s3 = Some dst'" "dst' \<noteq> page'"
    and idx: "pg_index (pages s2 page') = page_of pos"
  shows "rc = u32_to_int len \<and> (\<exists>s4. wrapfs_readpage C V M fl page' s3 = Some (0, s4) \<and>
    pg_uptodate (pages s4 page') \<and> (\<forall>j < unat len. pg_data (pages s4 page') j = u j))"
proof -
  let ?e = "\<lparr>oe_crypto = C, oe_stream = ks, oe_vfs = V, oe_mm = M, oe_file = fl, oe_key = key, oe_lfile = lf,
    oe_inode = i, oe_linode = li\<rparr>"
  have z: "in_page pos + unat len \<le> PAGE_CACHE_SIZE" using aligned len by simp
  note c = write_begin_copy [OF assms(5,8-10) z assms(12,13)]
  have r: "oe_ready ?e s2" using c(1) cipher V by (simp add: oe_ready_def)
  have u: "oe_usable ?e page s2" "oe_usable ?e page' s3"
    using assms(14,15) dst' by (simp_all add: oe_usable_def)
  have "rc = u32_to_int len"
    using data_path.put_law [OF r u(1), of len pos] c(2) len s3 by auto
  moreover have "\<exists>s4. wrapfs_readpage C V M fl page' s3 = Some (0, s4) \<and> pg_uptodate (pages s4 page') \<and>
      (\<forall>j < unat len. pg_data (pages s4 page') j = pg_data (pages s2 page) j)"
    using data_path.get_put [OF r u(1) _ len _ u(2), of pos rc] c(2,3) s3 idx by simp
  ultimately show ?thesis using aligned by (simp add: c(4) buf_write_start)
qed

theorem write_read_roundtrip_witness:
  "\<exists>s1 s3 s4. wrapfs_write_begin ram_mm 2 1 4096 5 0 mounted_kst = Some ((0, Some 50), s1) \<and>
     wrapfs_write_end xor_crypto ram_vfs ram_mm 2 1 4096 5 5 50
       (upd_page 50 (pg_data_update (\<lambda>d. buf_write d 0 5 (\<lambda>j. 40 + of_nat j))) s1) = Some (5, s3) \<and>
     wrapfs_readpage xor_crypto ram_vfs ram_mm 2 60 s3 = Some (0, s4) \<and> pg_data (pages s4 60) 2 = 42"
proof -
  let ?u = "\<lambda>j. 40 + of_nat j :: byte"
  have u: "unat (5::u32) = 5" by simp
  have len: "unat (5::u32) \<le> PAGE_CACHE_SIZE" by (simp add: PAGE_CACHE_SIZE_eq)
  obtain s1 where s1: "wrapfs_write_begin ram_mm 2 1 4096 5 0 mounted_kst = Some ((0, Some 50), s1)"
    using write_begin_page [OF mounted_key(1) ram_mm_grab, of 4096 5] by (simp add: PAGE_CACHE_SIZE_eq)
  let ?s2 = "upd_page 50 (pg_data_update (\<lambda>d. buf_write d (in_page 4096) (unat (5::u32)) ?u)) s1"
  have z: "in_page 4096 + unat (5::u32) \<le> PAGE_CACHE_SIZE" by (simp add: PAGE_CACHE_SIZE_eq)
  note c = write_begin_copy [OF mounted_enc_file ram_mm_grab _ _ z s1 refl, where u = ?u]
  obtain s3 where s3: "wrapfs_write_end xor_crypto ram_vfs ram_mm 2 1 4096 5 5 50 ?s2 = Some (u32_to_int 5, s3)"
    using write_end_stores [OF xor_crypto_ctr xor_crypto_loaded ram_vfs_writes c(1) ram_mm_alloc _ c(2) len, of 4096 5]
    by auto
  have i: "pg_index (pages ?s2 60) = page_of 4096"
    using c(7) [of 60] by (simp add: state_defs PAGE_CACHE_SIZE_eq)
  from write_read_roundtrip [OF xor_crypto_ctr xor_crypto_loaded ram_vfs_writes ram_vfs_reads mounted_enc_file
      _ _ ram_mm_grab _ _ len s1 refl ram_mm_alloc _ _ s3 ram_mm_alloc _ i]
  obtain s4 where "wrapfs_readpage xor_crypto ram_vfs ram_mm 2 60 s3 = Some (0, s4)"
    and d: "\<forall>j < unat (5::u32). pg_data (pages s4 60) j = ?u j"
    by (auto simp: PAGE_CACHE_SIZE_eq)
  moreover have "pg_data (pages s4 60) 2 = 42" using d [rule_format, of 2] by simp
  ultimately show ?thesis using s1 s3 by (auto simp: PAGE_CACHE_SIZE_eq u32_to_int_def)
qed

text \<open>C35: a write that does not start on a page boundary loses bytes.  \<open>write_end\<close> reports all \<open>len\<close> bytes
  written and the size of the upper inode covers them, but it stores the first \<open>len\<close> bytes of the page at
  the start of the page: when the write starts \<open>from\<close> bytes into the page, byte \<open>j\<close> reaches the lower file
  exactly when \<open>from + j < len\<close>, the lower file keeps the old bytes at the positions of the others (all of
  them when \<open>len \<le> from\<close>), and the start of the page is overwritten with what the page cache held there,
  which is zeros when the page was not up to date.\<close>

theorem unaligned_write_lost:
  assumes "ctr_cipher C ks" "cipher_loaded C" "lower_writes V"
    and "enc_file s fl key lf i li" and "0 \<le> pos" "pos < 2 ^ 44"
    and "grab_cache_page_write_begin M i (page_of pos) flags s = Some (page, pg)"
      "pg_index pg = page_of pos" "pg_host pg = Some i"
    and "in_page pos + unat len \<le> PAGE_CACHE_SIZE"
    and "wrapfs_write_begin M fl i pos len flags s = Some ((0, Some page), s1)"
    and "s2 = upd_page page (pg_data_update (\<lambda>d. buf_write d (in_page pos) (unat len) u)) s1"
    and "alloc_page M s2 = Some dst" "dst \<noteq> page"
  shows "\<exists>s3. wrapfs_write_end C V M fl i pos len len page s2 = Some (u32_to_int len, s3) \<and>
     (\<forall>j < unat len. plain ks s3 key li (nat pos + j) =
        (if in_page pos + j < unat len then u j else plain ks s key li (nat pos + j))) \<and>
     (\<forall>k < min (in_page pos) (unat len). plain ks s3 key li (nat (pos - pos mod int PAGE_CACHE_SIZE) + k) =
        (if pg_uptodate pg then pg_data pg k else 0)) \<and>
     pos + uint len \<le> i_size_read i s3"
proof -
  let ?b = "nat (pos - pos mod int PAGE_CACHE_SIZE)"
  note p = pos_split [OF assms(5)]
  obtain s3 where "wrapfs_write_end C V M fl i pos len len page s2 = Some (u32_to_int len, s3)"
    and "plain ks s3 key li = buf_write (plain ks s key li) ?b (unat len)
       (buf_write (kept pg) (in_page pos) (unat len) u)"
    and "pos + uint len \<le> i_size_read i s3"
    using write_sequence [where C = C and u = u and len = len and ks = ks, OF assms(1-14)] by blast
  with in_page_less [of pos] show ?thesis
    by (auto simp: p add.assoc)
qed

theorem unaligned_write_lost_witness:
  "\<exists>s1 s3. wrapfs_write_begin ram_mm 2 1 4196 5 0 mounted_kst = Some ((0, Some 50), s1) \<and>
     wrapfs_write_end xor_crypto ram_vfs ram_mm 2 1 4196 5 5 50
       (upd_page 50 (pg_data_update (\<lambda>d. buf_write d 100 5 (\<lambda>_. 42))) s1) = Some (5, s3) \<and>
     plain xor_stream s3 9 13 4196 \<noteq> 42"
proof -
  have u: "unat (5::u32) = 5" by simp
  have b: "plain xor_stream mounted_kst 9 13 4196 \<noteq> 42"
    by (simp add: plain_def state_defs xor_stream_def PAGE_CACHE_SIZE_eq MD5_SIGNATURE_SIZE_def)
  obtain s1 where s1: "wrapfs_write_begin ram_mm 2 1 4196 5 0 mounted_kst = Some ((0, Some 50), s1)"
    using write_begin_page [OF mounted_key(1) ram_mm_grab, of 4196 5] by (simp add: PAGE_CACHE_SIZE_eq)
  from unaligned_write_lost [OF xor_crypto_ctr xor_crypto_loaded ram_vfs_writes mounted_enc_file _ _ ram_mm_grab
      _ _ _ s1 refl ram_mm_alloc, of "\<lambda>_. 42"] s1
  show ?thesis using b
    by (auto simp: PAGE_CACHE_SIZE_eq u32_to_int_def u dest: spec [of _ 0])
qed

text \<open>C7: \<open>readpage\<close> implements reading the decrypted file: with a key and a healthy lower file system it
  returns 0, every byte of the page that lies within the lower file is the decrypted byte at that
  position, the page is unlocked and up to date, and neither the stored contents nor the size nor the
  address limit have changed.\<close>

theorem readpage_refines:
  assumes "ctr_cipher C ks" "cipher_loaded C" "lower_reads V"
    and "enc_file s fl key lf i li" and "alloc_page M s = Some dst" "dst \<noteq> page"
    and "wrapfs_readpage C V M fl page s = Some (err, s')"
  shows "err = 0 \<and> pg_uptodate (pages s' page) \<and> \<not> pg_locked (pages s' page) \<and>
     (\<forall>j < PAGE_CACHE_SIZE.
        page_offset (pg_index (pages s page)) + int j < i_size (l_inodes (low s) li) \<longrightarrow>
        pg_data (pages s' page) j = plain ks s key li (nat (page_offset (pg_index (pages s page))) + j)) \<and>
     plain ks s' key li = plain ks s key li \<and> addr_limit s' = addr_limit s \<and>
     i_size (l_inodes (low s') li) = i_size (l_inodes (low s) li)"
  using readpage_plain [where C = C, OF assms(1-6)] assms(7) by auto

theorem readpage_refines_witness:
  "\<exists>s'. wrapfs_readpage xor_crypto ram_vfs ram_mm 2 60
       (low_update (\<lambda>l. l\<lparr>l_inodes := (\<lambda>_. blank_inode\<lparr>i_size := 5000\<rparr>)\<rparr>) mounted_kst) = Some (0, s') \<and>
     pg_data (pages s' 60) 17 = 8"
proof -
  let ?s = "low_update (\<lambda>l. l\<lparr>l_inodes := (\<lambda>_. blank_inode\<lparr>i_size := 5000\<rparr>)\<rparr>) mounted_kst"
  have f: "enc_file ?s 2 9 11 1 13"
    using mounted_enc_file by (simp add: enc_file_def link_simps lower_file_inode_def)
  have p: "page_offset (pg_index (pages ?s 60)) = 4096" by (simp add: state_defs page_offset_eq)
  have b: "plain xor_stream ?s 9 13 4113 = 8"
    by (simp add: plain_def state_defs xor_stream_def PAGE_CACHE_SIZE_eq MD5_SIGNATURE_SIZE_def)
  obtain s' where s': "wrapfs_readpage xor_crypto ram_vfs ram_mm 2 60 ?s = Some (0, s')"
    using readpage_plain [OF xor_crypto_ctr xor_crypto_loaded ram_vfs_reads f ram_mm_alloc, of 60] by auto
  from readpage_refines [OF xor_crypto_ctr xor_crypto_loaded ram_vfs_reads f ram_mm_alloc _ s', unfolded p] s' b
  show ?thesis by (auto simp: PAGE_CACHE_SIZE_eq dest!: spec [of _ 17])
qed

text \<open>
  \<open>write_end\<close> always returns when the lower write keeps the lower file attached to an inode,
  whether or not the encryption and the write succeed.
\<close>

definition keeps_inode :: "vfs_api \<Rightarrow> ptr \<Rightarrow> bool" where
  "keeps_inode V lf \<longleftrightarrow> (\<forall>d n off l. lower_file_inode l lf \<noteq> None \<longrightarrow>
     lower_file_inode (snd (snd (vfs_write V lf d n off l))) lf \<noteq> None)"

lemma write_end_store_total:
  assumes "keeps_inode V lf" and "lower_file_inode (low s) lf = Some li"
  shows "\<exists>rc s'. write_end_store C V i page lf encKey dst from copied s = Some (rc, s')"
proof -
  let ?s1 = "set_fs KERNEL_DS (emit (Kmap page) s)"
  let ?off = "page_offset (pg_index (pages s page))"
  obtain d s2 where d: "write_end_data C page encKey dst from ?s1 = (d, s2)" by fastforce
  from write_end_data_frame(1) [OF d] have "low s2 = low s" by (auto dest: data_frame_fields)
  moreover obtain li' where "lower_file_inode (snd (snd (vfs_write V lf d (unat copied) ?off (low s)))) lf = Some li'"
    using assms unfolding keeps_inode_def by fastforce
  ultimately show ?thesis using d by (auto simp: write_end_store_def run_simps)
qed

lemma write_end_total:
  assumes V: "keeps_inode V lf" and f: "enc_file s fl key lf i li" and dst: "alloc_page M s = Some dst"
    and host: "pg_host (pages s page) = Some h"
  shows "\<exists>rc s'. wrapfs_write_end C V M fl i pos len copied page s = Some (rc, s')"
proof -
  note f' = f [unfolded enc_file_def]
  let ?s0 = "emit (Kmap dst) (emit (Alloc_page dst) s)"
  have "lower_file_inode (low ?s0) lf = Some li" using f' by simp
  from write_end_store_total [OF V this] obtain rc s1 where
    s1: "write_end_store C V i page lf (Some key) (Some dst) (word_of_int (pos mod int PAGE_CACHE_SIZE)) copied ?s0
       = Some (rc, s1)" by blast
  have "pg_host (pages s1 page) = Some h"
    using write_end_store_frame(2) [OF s1, of page] host by (simp add: same_flags_def)
  then obtain s2 where "fill_zeros_to_end_of_page page (word_of_int (pos mod int PAGE_CACHE_SIZE) + copied) s1 = Some (0, s2)"
    using fill_zeros_total by blast
  with f' dst s1 show ?thesis
    by (simp add: write_end_enc_eq write_end_tail_def write_end_finish_def write_end_out_def run_simps)
qed

text \<open>When it returns, \<open>write_end\<close> has two results: \<open>-EIO\<close> without a lower file, and otherwise
  \<open>copied\<close>, whatever the encryption and the lower write returned.\<close>

theorem write_end_result:
  assumes "wrapfs_write_end C V M fl i pos len copied page s = Some (rc, s')"
    and "wrapfs_lower_file s fl = Some lf"
    and "wrapfs_get_enc_key s (d_sb (dentries s (f_dentry (files s fl)))) = Some encKey"
  shows "rc = (if lf = None then - EIO else u32_to_int copied)"
  using assms
  by (cases lf; cases encKey; cases "alloc_page M s")
    (auto simp: write_end_no_lower_file write_end_no_memory write_end_enc_eq write_end_plain_eq
      dest: write_end_tail_ret)

theorem write_end_result_witness:
  "\<exists>s'. wrapfs_write_end xor_crypto (ram_vfs\<lparr>vfs_write := \<lambda>f d n pos l. (- EIO, pos, l)\<rparr>) ram_mm 2 1 0 5 5 60
     mounted_kst = Some (5, s')"
proof -
  let ?V = "ram_vfs\<lparr>vfs_write := \<lambda>f d n pos l. (- EIO, pos, l)\<rparr>"
  have "keeps_inode ?V 11" by (simp add: keeps_inode_def)
  moreover have "pg_host (pages mounted_kst 60) = Some 1" by (simp add: state_defs)
  ultimately obtain rc s' where r: "wrapfs_write_end xor_crypto ?V ram_mm 2 1 0 5 5 60 mounted_kst = Some (rc, s')"
    using write_end_total [OF _ mounted_enc_file ram_mm_alloc] by blast
  from write_end_result [OF r mounted_lower_file(1) mounted_key(1)] r show ?thesis
    by (simp add: u32_to_int_def)
qed

text \<open>C30: with a lower file, \<open>write_end\<close> unlocks the page and drops the one reference to it that
  \<open>write_begin\<close> took on every path; all mappings it made are undone, and the only resource it keeps is the
  page allocated for the ciphertext, which is never freed.  Without a lower file it returns \<open>-EIO\<close> and has
  changed nothing: the page stays locked and referenced.\<close>

theorem write_end_resources:
  assumes "wrapfs_write_end C V M fl i pos len copied page s = Some (rc, s')"
    and "wrapfs_get_enc_key s (d_sb (dentries s (f_dentry (files s fl)))) = Some encKey"
    and "\<forall>t. x \<noteq> R_tfm t"
  shows "if wrapfs_lower_file s fl = Some None then rc = - EIO \<and> s' = s
    else \<not> pg_locked (pages s' page) \<and>
      held x (log s') = held x (log s) + (if x = R_page page then -1 else 0)
        + (if encKey \<noteq> None \<and> (\<exists>p. alloc_page M s = Some p \<and> x = R_page p) then 1 else 0)"
proof (cases "wrapfs_lower_file s fl = Some None")
  case True
  with assms(1) show ?thesis by (simp add: write_end_no_lower_file)
next
  case False
  with assms(1) obtain lf where lf: "wrapfs_lower_file s fl = Some (Some lf)"
    by (auto simp: wrapfs_write_end_def Let_def split: Option.bind_split_asm)
  show ?thesis
  proof (cases "\<exists>key. encKey = Some key \<and> alloc_page M s = None")
    case True
    with assms lf show ?thesis by (auto simp: write_end_no_memory held_simps)
  next
    case ok: False
    show ?thesis
    proof (cases encKey)
      case None
      with assms lf have "write_end_tail C V lf i pos copied page None None s = Some (rc, s')"
        by (simp add: write_end_plain_eq)
      from write_end_tail_ret(2) [OF this] write_end_tail_held [OF this assms(3)] None lf show ?thesis by simp
    next
      case (Some key)
      with ok obtain dst where dst: "alloc_page M s = Some dst" by auto
      with assms lf Some have t: "write_end_tail C V lf i pos copied page (Some key) (Some dst)
          (emit (Kmap dst) (emit (Alloc_page dst) s)) = Some (rc, s')"
        by (simp add: write_end_enc_eq)
      from write_end_tail_ret(2) [OF t] write_end_tail_held [OF t assms(3)] Some dst lf
      show ?thesis by (auto simp: held_simps)
    qed
  qed
qed

theorem write_end_resources_witness:
  "\<exists>s'. wrapfs_write_end xor_crypto ram_vfs ram_mm 2 1 4096 5 5 60 mounted_kst = Some (5, s') \<and>
     held (R_page 100) (log s') = 1 \<and> held (R_kmap 100) (log s') = 0 \<and> \<not> pg_locked (pages s' 60)"
proof -
  have log: "log mounted_kst = []" by (simp add: state_defs)
  have "pg_host (pages mounted_kst 60) = Some 1" by (simp add: state_defs)
  then obtain s' where s': "wrapfs_write_end xor_crypto ram_vfs ram_mm 2 1 4096 5 5 60 mounted_kst = Some (u32_to_int 5, s')"
    using write_end_stores [OF xor_crypto_ctr xor_crypto_loaded ram_vfs_writes mounted_enc_file ram_mm_alloc,
        of 60 1 5 4096 5] by (auto simp: PAGE_CACHE_SIZE_eq)
  from write_end_resources [OF this mounted_key(1), of "R_page 100"]
    write_end_resources [OF this mounted_key(1), of "R_kmap 100"] s'
  show ?thesis by (auto simp: log u32_to_int_def)
qed

text \<open>Without a key no page is read or prepared: \<open>readpage\<close> and \<open>write_begin\<close> return \<open>-EPERM\<close> and change
  nothing.  For \<open>readpage\<close> that includes the lock of the page, which the caller handed over locked and
  which stays locked.\<close>

theorem no_key_no_page_io:
  assumes "wrapfs_get_enc_key s (d_sb (dentries s (f_dentry (files s fl)))) = Some None"
  shows "wrapfs_readpage C V M fl page s = Some (- EPERM, s) \<and>
         wrapfs_write_begin M fl mapping pos len flags s = Some ((- EPERM, None), s)"
  using assms by (simp add: wrapfs_readpage_def wrapfs_write_begin_def run_simps)

theorem no_key_no_page_io_witness:
  "wrapfs_readpage xor_crypto ram_vfs ram_mm 2 60 keyless_kst = Some (- EPERM, keyless_kst) \<and>
   pg_locked (pages keyless_kst 60)"
proof
  show "wrapfs_readpage xor_crypto ram_vfs ram_mm 2 60 keyless_kst = Some (- EPERM, keyless_kst)"
    using no_key_no_page_io [OF mounted_key(2)] by blast
  show "pg_locked (pages keyless_kst 60)" by (simp add: keyless_kst_def state_defs)
qed

text \<open>C29: with a key, every path through \<open>readpage\<close> unlocks the page, marks it up to date exactly when it
  returns 0, restores the address limit and undoes its mappings; the page it allocates for the
  ciphertext is the only resource it keeps.\<close>

theorem readpage_unlocks:
  assumes "wrapfs_get_enc_key s (d_sb (dentries s (f_dentry (files s fl)))) = Some (Some key)"
    and "wrapfs_readpage C V M fl page s = Some (err, s')"
  shows "\<not> pg_locked (pages s' page) \<and> (pg_uptodate (pages s' page) \<longleftrightarrow> err = 0) \<and> 
     addr_limit s' = addr_limit s \<and>
     (\<forall>x. (\<forall>t. x \<noteq> R_tfm t) \<longrightarrow> held x (log s') = held x (log s)
        + (if \<exists>p. alloc_page M s = Some p \<and> x = R_page p then 1 else 0))"
proof (cases "alloc_page M s")
  case None
  with assms show ?thesis by (auto simp: wrapfs_readpage_def readpage_out_def run_simps held_simps)
next
  case (Some dst)
  let ?s0 = "emit (Kmap dst) (emit (Alloc_page dst) s)"
  show ?thesis
  proof (cases "WRAPFS_F s fl")
    case None
    with assms Some show ?thesis by (auto simp: wrapfs_readpage_def readpage_out_def WRAPFS_F_def run_simps held_simps)
  next
    case (Some fi)
    from assms \<open>alloc_page M s = Some dst\<close> Some obtain lf where lf: "wrapfs_lower_file s fl = Some (Some lf)"
      by (auto simp: wrapfs_readpage_def WRAPFS_F_def wrapfs_lower_file_def bind_Some_iff run_simps)
    obtain e s1 where s1: "readpage_fill V lf page dst ?s0 = (e, s1)" by fastforce
    obtain e' s2 where s2: "wrapfs_decrypt_page_new C page dst key s1 = (e', s2)" by fastforce
    note fr = readpage_fill_frame [OF s1] and de = decrypt_page_frame [OF s2]
    from de obtain es where es: "log s2 = log s1 @ es" "set es \<subseteq> range Alloc_tfm" by auto
    note h = held_tfm_only [OF es(2)]
    note lf' = lf [unfolded wrapfs_lower_file_def WRAPFS_F_def] Some [unfolded WRAPFS_F_def]
    show ?thesis
      using assms \<open>alloc_page M s = Some dst\<close> lf' s1 s2 fr es(1) h data_frame_fields(10) [OF conjunct1 [OF de]]
      by (auto simp: wrapfs_readpage_def readpage_out_def WRAPFS_F_def wrapfs_lower_file_def bind_Some_iff run_simps held_simps split: if_splits)
  qed
qed

theorem readpage_unlocks_witness:
  "\<exists>s'. wrapfs_readpage xor_crypto ram_vfs ram_mm 2 60 mounted_kst = Some (0, s') \<and>
     \<not> pg_locked (pages s' 60) \<and> held (R_page 100) (log s') = 1 \<and> held (R_kmap 60) (log s') = 0"
proof -
  obtain s' where s': "wrapfs_readpage xor_crypto ram_vfs ram_mm 2 60 mounted_kst = Some (0, s')"
    using readpage_plain [OF xor_crypto_ctr xor_crypto_loaded ram_vfs_reads mounted_enc_file ram_mm_alloc, of 60]
    by auto
  note w = readpage_unlocks [OF mounted_key(1) s']
  from w have "\<not> pg_locked (pages s' 60)" by blast
  moreover from w have "held (R_page 100) (log s') = 1" "held (R_kmap 60) (log s') = 0"
    by (auto simp: state_defs)
  ultimately show ?thesis using s' by blast
qed

text \<open>Running out of memory for the page of the ciphertext crashes the kernel on both paths, although
  the code has an exit for it: \<open>readpage\<close> and \<open>write_end\<close> go to their label \<open>out\<close>, which unmaps the page
  that was not allocated.\<close>

theorem no_page_oops:
  assumes "wrapfs_get_enc_key s (d_sb (dentries s (f_dentry (files s fl)))) = Some (Some key)"
    and "alloc_page M s = None" and "wrapfs_lower_file s fl = Some (Some lf)"
  shows "wrapfs_readpage C V M fl page s = None \<and>
         wrapfs_write_end C V M fl mapping pos len copied page s = None"
  using assms write_end_no_memory by (simp add: wrapfs_readpage_def readpage_out_def run_simps)

theorem no_page_oops_witness:
  "wrapfs_readpage xor_crypto ram_vfs (ram_mm\<lparr>alloc_page := \<lambda>_. None\<rparr>) 2 60 mounted_kst = None"
  using no_page_oops [OF mounted_key(1) _ mounted_lower_file(1),
      of "ram_mm\<lparr>alloc_page := \<lambda>_. None\<rparr>" xor_crypto]
  by simp

text \<open>C37: an error of the lower read is not seen: whatever \<open>vfs_read\<close> answers, \<open>readpage\<close> returns 0 and marks
  the page up to date, because the result variable is overwritten by that of the decryption.\<close>

theorem readpage_ignores_read_error:
  assumes cipher: "ctr_cipher C ks" "cipher_loaded C"
    and f: "enc_file s fl key lf i li" and dst: "alloc_page M s = Some dst"
  shows "\<exists>s'. wrapfs_readpage C V M fl page s = Some (0, s') \<and> pg_uptodate (pages s' page)"
proof -
  note f' = f [unfolded enc_file_def]
  let ?s0 = "emit (Kmap dst) (emit (Alloc_page dst) s)"
  obtain err s1 where s1: "readpage_fill V lf page dst ?s0 = (err, s1)" by fastforce
  obtain tfm d where s2: "wrapfs_decrypt_page_new C page dst key s1 =
      (0, upd_page page (pg_data_update d) (emit (Alloc_tfm tfm) s1))"
    using decrypt_page_eq [OF cipher] by blast
  show ?thesis
    using f' dst s1 s2 readpage_fill_frame(4) [OF s1]
    by (auto simp: wrapfs_readpage_def readpage_out_def WRAPFS_F_def wrapfs_lower_file_def
         wrapfs_lower_inode_def WRAPFS_I_def run_simps)
qed

theorem readpage_ignores_read_error_witness:
  "\<exists>s'. wrapfs_readpage xor_crypto (ram_vfs\<lparr>vfs_read := \<lambda>f n pos l. (- EIO, pos, \<lambda>_. 0, l)\<rparr>) ram_mm 2 60
     mounted_kst = Some (0, s') \<and> pg_uptodate (pages s' 60)"
  using readpage_ignores_read_error [OF xor_crypto_ctr xor_crypto_loaded mounted_enc_file ram_mm_alloc] .

text \<open>C36: \<open>wrapfs_writepage\<close> never writes: whenever it returns, the result is 0 and the page has been unlocked,
  and nothing else has changed, neither the lower file system nor the log of calls to it.  The guard
  that should skip inodes without a lower inode skips those that have one.\<close>

theorem writepage_writes_nothing:
  assumes "wrapfs_writepage V M page for_reclaim s = Some (err, s')"
  shows "err = 0 \<and> s' = unlock_page page s"
  using assms
  by (auto simp: wrapfs_writepage_def writepage_lower_def wrapfs_lower_inode_def WRAPFS_I_def
      split: if_splits option.splits)

theorem writepage_writes_nothing_witness:
  "wrapfs_writepage ram_vfs ram_mm 60 False (SetPageUptodate 60 mounted_kst)
     = Some (0, unlock_page 60 (SetPageUptodate 60 mounted_kst))"
proof -
  obtain e s' where r: "wrapfs_writepage ram_vfs ram_mm 60 False (SetPageUptodate 60 mounted_kst) = Some (e, s')"
    by (simp add: wrapfs_writepage_def WRAPFS_I_def state_defs)
  from writepage_writes_nothing [OF r] r show ?thesis by simp
qed

text \<open>After a write that ends at offset \<open>to\<close> of its page, \<open>fill_zeros_to_end_of_page\<close> clears the rest of
  the page from the larger of \<open>to\<close> and the end of the file, provided that the page is the one the file
  ends in, and leaves every other page alone; it never fails.\<close>

theorem fill_zeros_eq:
  assumes "pg_host (pages s page) = Some i" and "0 \<le> i_size_read i s"
  shows "fill_zeros_to_end_of_page page to s =
    Some (0, if i_size_read i s div int PAGE_CACHE_SIZE = uint (pg_index (pages s page))
             then zero_user_segment page (max (unat to) (in_page (i_size_read i s))) PAGE_CACHE_SIZE s
             else s)"
proof -
  let ?n = "i_size_read i s"
  have d: "?n sdiv int PAGE_CACHE_SIZE = ?n div int PAGE_CACHE_SIZE"
    "?n smod int PAGE_CACHE_SIZE = ?n mod int PAGE_CACHE_SIZE"
    using assms(2) by (simp_all add: signed_divide_int_def signed_modulo_int_def sgn_if)
  have "unat (to_u32 (?n mod int PAGE_CACHE_SIZE)) = in_page ?n"
    using unat_in_page by (simp add: to_u32_def)
  then show ?thesis
    using assms(1) by (auto simp: fill_zeros_to_end_of_page_def d run_simps max_def word_less_nat_alt)
qed

theorem fill_zeros_eq_witness:
  "fill_zeros_to_end_of_page 60 300 (i_size_write 1 4196 mounted_kst)
     = Some (0, zero_user_segment 60 300 4096 (i_size_write 1 4196 mounted_kst))"
  using fill_zeros_eq [of "i_size_write 1 4196 mounted_kst" 60 1 300]
  by (simp add: state_defs PAGE_CACHE_SIZE_eq)

text \<open>With a key, \<open>write_begin\<close> for \<open>len\<close> bytes that fit into the page returns the page, locked and
  referenced as the page cache gave it, marked up to date; a page that was not up to date before is
  filled with zeros around the range to be written, a page that was keeps its contents, and nothing
  is read from the lower file.\<close>

theorem write_begin_prepares:
  assumes "wrapfs_get_enc_key s (d_sb (dentries s (f_dentry (files s fl)))) = Some (Some key)"
    and "grab_cache_page_write_begin M mapping (page_of pos) flags s = Some (page, pg)"
    and "in_page pos + unat len \<le> PAGE_CACHE_SIZE"
    and "wrapfs_write_begin M fl mapping pos len flags s = Some ((rc, pagep), s')"
  shows "rc = 0 \<and> pagep = Some page \<and> pg_uptodate (pages s' page) \<and> pg_locked (pages s' page) = pg_locked pg \<and>
    (\<forall>j < PAGE_CACHE_SIZE. pg_data (pages s' page) j =
       (if pg_uptodate pg \<or> in_page pos \<le> j \<and> j < in_page pos + unat len then pg_data pg j else 0)) \<and>
    low s' = low s \<and> (\<forall>q. q \<noteq> page \<longrightarrow> pages s' q = pages s q) \<and>
    held (R_page page) (log s') = held (R_page page) (log s) + 1"
  using write_begin_page [OF assms(1-3)] assms(4) by (auto simp: held_simps)

theorem write_begin_prepares_witness:
  "\<exists>s'. wrapfs_write_begin ram_mm 2 1 4196 5 0 mounted_kst = Some ((0, Some 50), s') \<and>
     pg_data (pages s' 50) 99 = 0 \<and> pg_data (pages s' 50) 102 = 255"
proof -
  have z: "in_page 4196 + unat (5::u32) \<le> PAGE_CACHE_SIZE" by (simp add: PAGE_CACHE_SIZE_eq)
  obtain s' where s': "wrapfs_write_begin ram_mm 2 1 4196 5 0 mounted_kst = Some ((0, Some 50), s')"
    using write_begin_page [OF mounted_key(1) ram_mm_grab z] by simp
  note w = write_begin_prepares [OF mounted_key(1) ram_mm_grab z s']
  from w have d: "\<And>j. j < PAGE_CACHE_SIZE \<Longrightarrow> pg_data (pages s' 50) j =
      (if in_page 4196 \<le> j \<and> j < in_page 4196 + unat (5::u32) then 255 else 0)" by simp
  show ?thesis using s' d [of 99] d [of 102] by (simp add: PAGE_CACHE_SIZE_eq)
qed

end
