(* ===== verification/Ioctl.thy ===== *)
theory Ioctl
  imports Mmap
begin

text \<open>
  \<open>wrapfs_unlocked_ioctl\<close> of \<^verbatim>\<open>file.c\<close> with the command of \<^verbatim>\<open>wrapfs_ioctl.h\<close>: setting and
  clearing the encryption key of a mount.  The command takes a structure with a length and a
  user pointer to the key string; the string "0" clears the key, any other is hashed with MD5
  and the digest becomes the key.  All other commands go to the lower file.
\<close>

section \<open>\<^verbatim>\<open>wrapfs_ioctl.h\<close>\<close>

record wrapfs_ioctl_key =
  ik_len :: int
  ik_key :: u32 \<comment> \<open>a user address\<close>

definition sizeof_wrapfs_ioctl_key :: nat where "sizeof_wrapfs_ioctl_key = 8"

definition WRAPFS_MAGIC :: u32 where "WRAPFS_MAGIC = 0xFE"

text \<open>\<open>_IOW (type, nr, t)\<close> of the kernel: direction 1, the size of \<open>t\<close>, the type, the number.\<close>

definition IOW :: "u32 \<Rightarrow> u32 \<Rightarrow> u32 \<Rightarrow> u32" where
  "IOW ty nr sz = push_bit 30 1 OR push_bit 8 ty OR nr OR push_bit 16 sz"

definition WRAPFS_SETEKEY :: u32 where "WRAPFS_SETEKEY = IOW WRAPFS_MAGIC 0 4"

lemma WRAPFS_SETEKEY_eq: "WRAPFS_SETEKEY = 0x4004FE00"
  by (simp add: WRAPFS_SETEKEY_def IOW_def WRAPFS_MAGIC_def push_bit_eq_mult)

section \<open>Operation vectors of files\<close>

fun has_fop :: "fops \<Rightarrow> fop_method \<Rightarrow> bool" where
  "has_fop wrapfs_main_fops m = (m \<in> set [F_llseek, F_read, F_write, F_unlocked_ioctl, F_mmap, F_open,
     F_flush, F_release, F_fsync, F_fasync])"
| "has_fop wrapfs_dir_fops m = (m \<in> set [F_llseek, F_read, F_readdir, F_unlocked_ioctl, F_open,
     F_release, F_flush, F_fsync, F_fasync])"
| "has_fop wrapfs_mmap_fops m = (m \<in> set [F_llseek, F_read, F_aio_read, F_write, F_aio_write,
     F_unlocked_ioctl, F_mmap, F_open, F_flush, F_release, F_fsync, F_fasync])"
| "has_fop (foreign_fops ms) m = (m \<in> set ms)"

text \<open>\<open>f->f_op && f->f_op->m\<close> for a lower file.\<close>

definition lower_has_fop :: "lower_st \<Rightarrow> ptr \<Rightarrow> fop_method \<Rightarrow> bool" where
  "lower_has_fop l f m = (case f_op (l_files l f) of None \<Rightarrow> False | Some ops \<Rightarrow> has_fop ops m)"

section \<open>User memory\<close>

text \<open>
  \<open>copy_key_struct\<close> is \<open>copy_from_user\<close> of the argument structure, \<^const>\<open>None\<close> when bytes remain
  uncopied; \<open>getname\<close> gives the address and the contents of a kernel copy of a user string;
  \<open>lower_ioctl\<close> is the method of the lower file.
\<close>

record user_api =
  access_ok :: "u32 \<Rightarrow> nat \<Rightarrow> kst \<Rightarrow> bool"
  copy_key_struct :: "u32 \<Rightarrow> kst \<Rightarrow> wrapfs_ioctl_key option"
  getname :: "u32 \<Rightarrow> kst \<Rightarrow> (ptr \<times> buffer) eptr"
  lower_ioctl :: "ptr \<Rightarrow> u32 \<Rightarrow> u32 \<Rightarrow> lower_st \<Rightarrow> int \<times> lower_st"

text \<open>\<open>strcmp (b, cs) == 0\<close> for a literal \<open>cs\<close>.\<close>

definition strcmp_eq :: "buffer \<Rightarrow> byte list \<Rightarrow> bool" where
  "strcmp_eq b cs \<longleftrightarrow> (\<forall>i<length cs. b i = cs ! i) \<and> b (length cs) = 0"

text \<open>\<open>sprintf (p, "%02x", v)\<close>: two lower-case digits and the terminator.\<close>

definition hex_digit :: "nat \<Rightarrow> byte" where
  "hex_digit n = of_nat (if n < 10 then 48 + n else 87 + n)"

definition sprintf_02x :: "buffer \<Rightarrow> nat \<Rightarrow> byte \<Rightarrow> buffer" where
  "sprintf_02x d off v = d(off := hex_digit (unat v div 16), off + 1 := hex_digit (unat v mod 16), off + 2 := 0)"

fun write_hex :: "buffer \<Rightarrow> nat list \<Rightarrow> buffer \<Rightarrow> buffer" where
  "write_hex v [] d = d"
| "write_hex v (i # is) d = write_hex v is (sprintf_02x d (2 * i) (v i AND 0xff))"

section \<open>The handler\<close>

text \<open>From the test of the digest's result to \<open>return 0\<close>.\<close>

definition setekey_store :: "mm_api \<Rightarrow> ptr \<Rightarrow> ptr \<Rightarrow> int \<Rightarrow> kst \<Rightarrow> int run" where
  "setekey_store M sb integ_val err s =
     (if err > -1 then
        (case kmalloc M (2 * MD5_SIGNATURE_SIZE + 1) s of
           None \<Rightarrow> Some (- ENOMEM, s)
         | Some md5_digest \<Rightarrow> do {
             let s = emit (Kmalloc md5_digest) s;
             let s = upd_buf md5_digest (\<lambda>d. zero_range d 0 (2 * MD5_SIGNATURE_SIZE + 1)) s;
             let s = upd_buf md5_digest (write_hex (bufs s integ_val) [0..<MD5_SIGNATURE_SIZE]) s;
             s \<leftarrow> wrapfs_set_enc_key sb (Some integ_val) s;
             Some (0, s)
           })
      else Some (0, s))"

text \<open>From the comparison with "0" to the end of the case.\<close>

definition setekey_apply ::
  "('h, 'c) crypto_api \<Rightarrow> mm_api \<Rightarrow> ptr \<Rightarrow> ptr \<Rightarrow> ptr \<Rightarrow> int \<Rightarrow> kst \<Rightarrow> int run" where
  "setekey_apply C M sb integ_val keyStr keyLen s =
     (if strcmp_eq (bufs s keyStr) [48] then do {
        s \<leftarrow> wrapfs_set_enc_key sb None s;
        Some (0, s)
      }
      else
        (let (err, s) = wrapfs_compute_md5 C integ_val keyStr keyLen s
         in setekey_store M sb integ_val err s))"

text \<open>
  The case \<open>WRAPFS_SETEKEY\<close>.  The result of the second \<open>kmalloc\<close> is not checked, so without
  memory the copy goes to \<open>NULL\<close>; neither is that of \<open>getname\<close>, so an error pointer is
  handed to \<open>strcmp\<close>.
\<close>

definition ioctl_setekey ::
  "('h, 'c) crypto_api \<Rightarrow> mm_api \<Rightarrow> user_api \<Rightarrow> ptr \<Rightarrow> ptr \<Rightarrow> u32 \<Rightarrow> kst \<Rightarrow> int run" where
  "ioctl_setekey C M U sb integ_val arg s =
     (if \<not> access_ok U arg sizeof_wrapfs_ioctl_key s then Some (- EACCES, s)
      else do {
        key_struc \<leftarrow> kmalloc M sizeof_wrapfs_ioctl_key s;
        let s = emit (Kmalloc key_struc) s;
        case copy_key_struct U arg s of
          None \<Rightarrow> Some (- EFAULT, emit (Kfree (Some key_struc)) s)
        | Some ks \<Rightarrow>
            (let keyLen = ik_len ks in
             case kmalloc M (unat (to_u32 (keyLen + 1))) s of
               None \<Rightarrow> Some (- ENOMEM, emit (Kfree None) s)
             | Some keyBuf \<Rightarrow>
                 (let s = emit (Kmalloc keyBuf) s;
                      s = upd_buf keyBuf (\<lambda>d. zero_range d 0 (unat (to_u32 (keyLen + 1)))) s
                  in case getname U (ik_key ks) s of
                       ErrPtr _ \<Rightarrow> None
                     | Ptr (keyStr, name) \<Rightarrow>
                         setekey_apply C M sb integ_val keyStr keyLen
                           (emit (Kmalloc keyStr) (upd_buf keyStr (\<lambda>_. name) s))))
      })"

definition wrapfs_unlocked_ioctl ::
  "('h, 'c) crypto_api \<Rightarrow> mm_api \<Rightarrow> user_api \<Rightarrow> ptr \<Rightarrow> u32 \<Rightarrow> u32 \<Rightarrow> kst \<Rightarrow> int run" where
  "wrapfs_unlocked_ioctl C M U fl cmd arg s =
     (let sb = d_sb (dentries s (f_dentry (files s fl))) in
      case kmalloc M (MD5_SIGNATURE_SIZE + 1) s of
        None \<Rightarrow> Some (- ENOMEM, s)
      | Some integ_val \<Rightarrow>
          (let s = emit (Kmalloc integ_val) s;
               s = upd_buf integ_val (\<lambda>d. zero_range d 0 (MD5_SIGNATURE_SIZE + 1)) s
           in if cmd = WRAPFS_SETEKEY then ioctl_setekey C M U sb integ_val arg s
              else do {
                lf_opt \<leftarrow> wrapfs_lower_file s fl;
                case lf_opt of
                  None \<Rightarrow> Some (- ENOTTY, s)
                | Some lf \<Rightarrow>
                    if f_op (l_files (low s) lf) = None then Some (- ENOTTY, s)
                    else if lower_has_fop (low s) lf F_unlocked_ioctl
                    then (let (err, l) = lower_ioctl U lf cmd arg (low s)
                          in Some (err, emit (Lower_ioctl lf cmd) (low_update (\<lambda>_. l) s)))
                    else Some (- ENOTTY, s)
              }))"

section \<open>What the handler relies on\<close>

text \<open>
  A process passes a readable structure with length \<open>len\<close> whose key is the string \<open>name\<close>; memory
  is available.
\<close>

definition key_request :: "user_api \<Rightarrow> u32 \<Rightarrow> int \<Rightarrow> buffer \<Rightarrow> bool" where
  "key_request U arg len name \<longleftrightarrow> (\<forall>s. access_ok U arg sizeof_wrapfs_ioctl_key s) \<and>
     (\<exists>ks. (\<forall>s. copy_key_struct U arg s = Some ks) \<and> ik_len ks = len \<and>
           (\<forall>s. \<exists>p. getname U (ik_key ks) s = Ptr (p, name)))"

definition memory_available :: "mm_api \<Rightarrow> bool" where
  "memory_available M \<longleftrightarrow> (\<forall>n s. kmalloc M n s \<noteq> None)"

text \<open>The super block an ioctl on a file is about, and its key.\<close>

abbreviation file_sb :: "kst \<Rightarrow> ptr \<Rightarrow> ptr" where
  "file_sb s fl \<equiv> d_sb (dentries s (f_dentry (files s fl)))"

abbreviation key_of :: "kst \<Rightarrow> ptr \<Rightarrow> ptr option option" where
  "key_of s fl \<equiv> wrapfs_get_enc_key s (file_sb s fl)"

text \<open>
  The objects of the mounted file system that the handler does not touch: all but the private data of
  the super blocks, which holds the key, and memory.
\<close>

definition ioctl_frame :: "kst \<Rightarrow> kst \<Rightarrow> bool" where
  "ioctl_frame s s' \<longleftrightarrow> pages s' = pages s \<and> sbs s' = sbs s \<and> files s' = files s \<and> finfos s' = finfos s \<and>
     dentries s' = dentries s \<and> dinfos s' = dinfos s \<and> inodes s' = inodes s \<and>
     inode_cachep s' = inode_cachep s \<and> dentry_cachep s' = dentry_cachep s"

lemma ioctl_frame_trans: "ioctl_frame s s' \<Longrightarrow> ioctl_frame s' s'' \<Longrightarrow> ioctl_frame s s''"
  by (simp add: ioctl_frame_def)

text \<open>The buffer that \<open>getname\<close> returns was not in use.\<close>

definition names_fresh :: "user_api \<Rightarrow> bool" where
  "names_fresh U \<longleftrightarrow> (\<forall>a s p name. getname U a s = Ptr (p, name) \<longrightarrow> held (R_mem p) (log s) = 0)"

text \<open>Memory that was in use has kept its contents and is still in use.\<close>

definition memory_kept :: "kst \<Rightarrow> kst \<Rightarrow> bool" where
  "memory_kept s s' \<longleftrightarrow> (\<forall>q. 0 < held (R_mem q) (log s) \<longrightarrow> bufs s' q = bufs s q \<and> 0 < held (R_mem q) (log s'))"

named_theorems memory_intros

lemma memory_kept_refl [memory_intros]: "memory_kept s s"
  by (simp add: memory_kept_def)

lemma memory_kept_steps [memory_intros]:
  "memory_kept s t \<Longrightarrow> memory_kept s (emit (Kmalloc p) t)"
  "memory_kept s t \<Longrightarrow> memory_kept s (emit (Kfree None) t)"
  "memory_kept s t \<Longrightarrow> memory_kept s (emit (Lower_ioctl a b) t)"
  "memory_kept s t \<Longrightarrow> memory_kept s (low_update g t)"
  "memory_kept s t \<Longrightarrow> memory_kept s (sb_infos_update h t)"
  "memory_kept s t \<Longrightarrow> held (R_mem p) (log s) \<le> 0 \<Longrightarrow> memory_kept s (upd_buf p f t)"
  "memory_kept s t \<Longrightarrow> held (R_mem p) (log s) \<le> 0 \<Longrightarrow> memory_kept s (emit (Kfree (Some p)) t)"
  by (fastforce simp: memory_kept_def held_simps)+

text \<open>What is free later was free before.\<close>

lemma memory_kept_fresh: "memory_kept s t \<Longrightarrow> held (R_mem p) (log t) = 0 \<Longrightarrow> held (R_mem p) (log s) \<le> 0"
  unfolding memory_kept_def by (metis less_irrefl not_le)

lemma kmalloc_fresh:
  "alloc_fresh M \<Longrightarrow> memory_kept s t \<Longrightarrow> kmalloc M n t = Some p \<Longrightarrow> held (R_mem p) (log s) \<le> 0"
  unfolding alloc_fresh_def by (blast intro: memory_kept_fresh)

lemma compute_md5_kept:
  assumes "wrapfs_compute_md5 C p key n t = (r, t')" and "memory_kept s t" and "held (R_mem p) (log s) \<le> 0"
  shows "memory_kept s t'"
  unfolding memory_kept_def
proof (intro allI impI)
  fix q assume q: "0 < held (R_mem q) (log s)"
  with assms(3) have "q \<noteq> p" by auto
  with compute_md5_frame(9,14) [OF assms(1)] assms(2) q
  show "bufs t' q = bufs s q \<and> 0 < held (R_mem q) (log t')" by (simp add: memory_kept_def)
qed

section \<open>Lemmas\<close>

lemma set_enc_key_Some:
  "wrapfs_set_enc_key sb key s = Some s' \<longleftrightarrow>
     (\<exists>p. s_fs_info (sbs s sb) = Some p \<and> s' = upd_sb_info p (keyVal_update (\<lambda>_. key)) s)"
  by (auto simp: link_simps)

lemma setekey_store_cases:
  assumes "setekey_store M sb integ_val err s = Some (r, s')"
  shows "ioctl_frame s s' \<and> low s' = low s \<and>
    (sb_infos s' = sb_infos s \<and> (r = 0 \<longrightarrow> err \<le> -1) \<or>
     r = 0 \<and> err > -1 \<and> (\<exists>p. s_fs_info (sbs s sb) = Some p \<and>
       sb_infos s' = (sb_infos s)(p := keyVal_update (\<lambda>_. Some integ_val) (sb_infos s p))))"
  using assms
  by (auto simp: setekey_store_def set_enc_key_Some bind_Some_iff run_simps ioctl_frame_def
      split: if_splits option.splits)

lemma setekey_store_limit: "setekey_store M sb integ_val err s = Some (r, s') \<Longrightarrow> addr_limit s' = addr_limit s"
  by (auto simp: setekey_store_def set_enc_key_Some bind_Some_iff run_simps split: if_splits option.splits)

lemma setekey_store_result: "setekey_store M sb integ_val err s = Some (r, s') \<Longrightarrow> r \<noteq> 0 \<Longrightarrow> err > -1"
  by (auto simp: setekey_store_def split: if_splits)

lemma setekey_store_kept:
  assumes "alloc_fresh M" and "memory_kept s t" and "setekey_store M sb integ_val err t = Some (r, t')"
  shows "memory_kept s t'"
  using assms kmalloc_fresh [OF assms(1,2)]
  by (auto simp: setekey_store_def set_enc_key_Some bind_Some_iff run_simps intro!: memory_intros
      split: if_splits option.splits)

text \<open>Whatever happens, the key is the old one, none, or the freshly allocated buffer.\<close>

definition key_outcome :: "ptr \<Rightarrow> ptr \<Rightarrow> int \<Rightarrow> kst \<Rightarrow> kst \<Rightarrow> bool" where
  "key_outcome sb integ_val r s s' \<longleftrightarrow> ioctl_frame s s' \<and> low s' = low s \<and> (r \<noteq> 0 \<longrightarrow> addr_limit s' = addr_limit s) \<and>
    (sb_infos s' = sb_infos s \<or>
     r = 0 \<and> (\<exists>p v. s_fs_info (sbs s sb) = Some p \<and> v \<in> {None, Some integ_val} \<and>
       sb_infos s' = (sb_infos s)(p := keyVal_update (\<lambda>_. v) (sb_infos s p))))"

lemma setekey_apply_outcome:
  assumes "setekey_apply C M sb integ_val keyStr keyLen s = Some (r, s')"
  shows "key_outcome sb integ_val r s s'"
proof (cases "strcmp_eq (bufs s keyStr) [48]")
  case True
  with assms show ?thesis
    by (auto simp: setekey_apply_def set_enc_key_Some bind_Some_iff key_outcome_def ioctl_frame_def)
next
  case False
  obtain e s1 where s1: "wrapfs_compute_md5 C integ_val keyStr keyLen s = (e, s1)" by fastforce
  with False assms have "setekey_store M sb integ_val e s1 = Some (r, s')" by (simp add: setekey_apply_def)
  from setekey_store_cases [OF this] compute_md5_frame(1-8,10-13) [OF s1] setekey_store_limit [OF this]
    setekey_store_result [OF this] show ?thesis
    by (auto simp: key_outcome_def ioctl_frame_def)
qed

lemma setekey_apply_kept:
  assumes "alloc_fresh M" and "memory_kept s t" and "held (R_mem integ_val) (log s) \<le> 0"
    and "setekey_apply C M sb integ_val keyStr keyLen t = Some (r, t')"
  shows "memory_kept s t'"
  using assms by (auto simp: setekey_apply_def set_enc_key_Some bind_Some_iff intro!: memory_intros
      dest: compute_md5_kept setekey_store_kept split: if_splits prod.splits)

lemma ioctl_setekey_outcome:
  assumes "ioctl_setekey C M U sb integ_val arg s = Some (r, s')"
  shows "key_outcome sb integ_val r s s'"
proof (cases "access_ok U arg sizeof_wrapfs_ioctl_key s")
  case False
  with assms show ?thesis by (simp add: ioctl_setekey_def key_outcome_def ioctl_frame_def)
next
  case True
  with assms obtain key_struc where k: "kmalloc M sizeof_wrapfs_ioctl_key s = Some key_struc"
    by (auto simp: ioctl_setekey_def bind_Some_iff)
  let ?s1 = "emit (Kmalloc key_struc) s"
  show ?thesis
  proof (cases "copy_key_struct U arg ?s1")
    case None
    with True k assms show ?thesis
      by (auto simp: ioctl_setekey_def key_outcome_def ioctl_frame_def)
  next
    case (Some ks)
    with True k assms show ?thesis
      by (auto simp: ioctl_setekey_def key_outcome_def ioctl_frame_def Let_def
          split: option.split_asm eptr.split_asm prod.split_asm dest!: setekey_apply_outcome)
  qed
qed

lemma ioctl_setekey_kept:
  assumes M: "alloc_fresh M" and U: "names_fresh U" and t: "memory_kept s t" and iv: "held (R_mem integ_val) (log s) \<le> 0"
    and run: "ioctl_setekey C M U sb integ_val arg t = Some (r, t')"
  shows "memory_kept s t'"
proof (cases "access_ok U arg sizeof_wrapfs_ioctl_key t")
  case False
  with run t show ?thesis by (simp add: ioctl_setekey_def)
next
  case True
  with run obtain key_struc where k: "kmalloc M sizeof_wrapfs_ioctl_key t = Some key_struc"
    by (auto simp: ioctl_setekey_def bind_Some_iff)
  define t1 where "t1 = emit (Kmalloc key_struc) t"
  have t1: "memory_kept s t1" unfolding t1_def by (rule memory_intros t)+
  show ?thesis
  proof (cases "copy_key_struct U arg t1")
    case None
    with True k run have "t' = emit (Kfree (Some key_struc)) t1" by (simp add: ioctl_setekey_def t1_def)
    then show ?thesis using memory_intros(8) [OF t1 kmalloc_fresh [OF M t k]] by simp
  next
    case (Some ks)
    show ?thesis
    proof (cases "kmalloc M (unat (to_u32 (ik_len ks + 1))) t1")
      case None
      with True k Some run have "t' = emit (Kfree None) t1" by (simp add: ioctl_setekey_def t1_def Let_def)
      then show ?thesis using memory_intros(3) [OF t1] by simp
    next
      case buf: (Some keyBuf)
      define t2 where "t2 = upd_buf keyBuf (\<lambda>d. zero_range d 0 (unat (to_u32 (ik_len ks + 1)))) (emit (Kmalloc keyBuf) t1)"
      have t2: "memory_kept s t2" unfolding t2_def by (intro memory_intros t1 kmalloc_fresh [OF M t1 buf])
      from True k Some buf run obtain keyStr name where g: "getname U (ik_key ks) t2 = Ptr (keyStr, name)"
        and a: "setekey_apply C M sb integ_val keyStr (ik_len ks)
          (emit (Kmalloc keyStr) (upd_buf keyStr (\<lambda>_. name) t2)) = Some (r, t')"
        by (auto simp: ioctl_setekey_def Let_def t1_def [symmetric] t2_def [symmetric] split: eptr.split_asm prod.split_asm)
      have "held (R_mem keyStr) (log s) \<le> 0"
        using U g memory_kept_fresh [OF t2] unfolding names_fresh_def by blast
      then show ?thesis by (intro setekey_apply_kept [OF M _ iv a] memory_intros t2)
    qed
  qed
qed

lemma ioctl_setekey_start:
  assumes "kmalloc M (MD5_SIGNATURE_SIZE + 1) s = Some integ_val"
  shows "wrapfs_unlocked_ioctl C M U fl WRAPFS_SETEKEY arg s =
    ioctl_setekey C M U (file_sb s fl) integ_val arg
      (upd_buf integ_val (\<lambda>d. zero_range d 0 (MD5_SIGNATURE_SIZE + 1)) (emit (Kmalloc integ_val) s))"
  using assms by (simp add: wrapfs_unlocked_ioctl_def Let_def)

lemma ioctl_kept:
  assumes "alloc_fresh M" and "names_fresh U" and run: "wrapfs_unlocked_ioctl C M U fl cmd arg s = Some (r, s')"
  shows "memory_kept s s'"
proof (cases "kmalloc M (MD5_SIGNATURE_SIZE + 1) s")
  case None
  with run show ?thesis by (simp add: wrapfs_unlocked_ioctl_def memory_intros)
next
  case (Some integ_val)
  define t where "t = upd_buf integ_val (\<lambda>d. zero_range d 0 (MD5_SIGNATURE_SIZE + 1)) (emit (Kmalloc integ_val) s)"
  have iv: "held (R_mem integ_val) (log s) \<le> 0" using kmalloc_fresh [OF assms(1) memory_kept_refl Some] .
  have t: "memory_kept s t" unfolding t_def by (intro memory_intros iv)
  show ?thesis
  proof (cases "cmd = WRAPFS_SETEKEY")
    case True
    with run have "ioctl_setekey C M U (file_sb s fl) integ_val arg t = Some (r, s')"
      unfolding t_def by (simp only: ioctl_setekey_start [OF Some])
    then show ?thesis by (rule ioctl_setekey_kept [OF assms(1,2) t iv])
  next
    case False
    with run Some have "bufs s' = bufs t \<and> (\<forall>q. held (R_mem q) (log s') = held (R_mem q) (log t))"
      by (auto simp: wrapfs_unlocked_ioctl_def Let_def t_def held_simps
          split: Option.bind_split_asm option.split_asm if_split_asm prod.split_asm)
    with t show ?thesis by (simp add: memory_kept_def)
  qed
qed

text \<open>The hexadecimal form of the digest.\<close>

lemma write_hex_outside: "\<forall>i \<in> set is. k < 2 * i \<or> 2 * i + 2 < k \<Longrightarrow> write_hex v is d k = d k"
  by (induction "is" arbitrary: d) (auto simp: sprintf_02x_def)

lemma write_hex_upt:
  assumes "i < n"
  shows "write_hex v [0..<n] d (2 * i) = hex_digit (unat (v i AND 0xff) div 16)"
    "write_hex v [0..<n] d (2 * i + 1) = hex_digit (unat (v i AND 0xff) mod 16)"
    "write_hex v [0..<n] d (2 * n) = 0"
proof -
  have app: "write_hex v (is @ js) d = write_hex v js (write_hex v is d)" for "is" js d
    by (induction "is" arbitrary: d) auto
  show "write_hex v [0..<n] d (2 * i) = hex_digit (unat (v i AND 0xff) div 16)"
    "write_hex v [0..<n] d (2 * i + 1) = hex_digit (unat (v i AND 0xff) mod 16)"
    using assms by (induction n) (auto simp: app sprintf_02x_def less_Suc_eq)
  from assms show "write_hex v [0..<n] d (2 * n) = 0"
    by (cases n) (simp_all add: app sprintf_02x_def)
qed

lemma and_ff [simp]: "(v :: byte) AND 0xff = v"
proof -
  have "(0xff :: byte) = - 1" by simp
  then show ?thesis by (simp only: and.right_neutral)
qed

text \<open>The stages of the handler up to the comparison with "0" succeed on a well-formed request.\<close>

lemma setekey_prefix:
  assumes mem: "memory_available M" and req: "key_request U arg len name"
  obtains key key_struc keyBuf keyStr s4 where "kmalloc M (MD5_SIGNATURE_SIZE + 1) s = Some key"
    and "wrapfs_unlocked_ioctl C M U fl WRAPFS_SETEKEY arg s
           = setekey_apply C M (file_sb s fl) key keyStr len s4"
    and "bufs s4 keyStr = name" "ioctl_frame s s4" "low s4 = low s" "sb_infos s4 = sb_infos s" "addr_limit s4 = addr_limit s"
      "log s4 = log s @ [Kmalloc key, Kmalloc key_struc, Kmalloc keyBuf, Kmalloc keyStr]"
proof -
  from mem have km: "\<exists>k. kmalloc M n s = Some k" for n s
    unfolding memory_available_def by blast
  from req obtain ks where acc: "\<And>s. access_ok U arg sizeof_wrapfs_ioctl_key s"
    and copy: "\<And>s. copy_key_struct U arg s = Some ks" and len: "ik_len ks = len"
    and get: "\<And>s. \<exists>k. getname U (ik_key ks) s = Ptr (k, name)"
    unfolding key_request_def by blast
  from km obtain key where k: "kmalloc M (MD5_SIGNATURE_SIZE + 1) s = Some key" by blast
  let ?s1 = "upd_buf key (\<lambda>d. zero_range d 0 (MD5_SIGNATURE_SIZE + 1)) (emit (Kmalloc key) s)"
  from km obtain k2 where k2: "kmalloc M sizeof_wrapfs_ioctl_key ?s1 = Some k2" by blast
  let ?n = "unat (to_u32 (len + 1))"
  from km obtain k3 where k3: "kmalloc M ?n (emit (Kmalloc k2) ?s1) = Some k3" by blast
  let ?s3 = "upd_buf k3 (\<lambda>d. zero_range d 0 ?n) (emit (Kmalloc k3) (emit (Kmalloc k2) ?s1))"
  from get obtain k4 where k4: "getname U (ik_key ks) ?s3 = Ptr (k4, name)" by blast
  let ?s4 = "emit (Kmalloc k4) (upd_buf k4 (\<lambda>_. name) ?s3)"
  have "wrapfs_unlocked_ioctl C M U fl WRAPFS_SETEKEY arg s = setekey_apply C M (file_sb s fl) key k4 len ?s4"
    using acc copy len k k2 k3 k4 by (simp add: wrapfs_unlocked_ioctl_def ioctl_setekey_def Let_def)
  from that [OF k this] show ?thesis by (simp add: ioctl_frame_def)
qed

text \<open>A digest that was computed becomes the key, and its hexadecimal form is left in memory.\<close>

lemma setekey_apply_ok:
  assumes md5: "md5_service C md5" and mem: "memory_available M" "alloc_fresh M"
    and name: "bufs s keyStr = name" "\<not> strcmp_eq name [48]"
    and sb: "s_fs_info (sbs s sb) = Some p" and own: "0 < held (R_mem key) (log s)"
  shows "\<exists>s' tfm dig. setekey_apply C M sb key keyStr len s = Some (0, s') \<and> addr_limit s' = addr_limit s \<and>
     log s' = log s @ [Alloc_tfm tfm, Kmalloc dig] \<and>
     sb_infos s' = (sb_infos s)(p := keyVal_update (\<lambda>_. Some key) (sb_infos s p)) \<and>
     bytes_of (bufs s' key) MD5_SIGNATURE_SIZE
       = bytes_of (md5 (bytes_of name (unat (to_u32 len)))) MD5_SIGNATURE_SIZE \<and>
     (\<forall>i < MD5_SIGNATURE_SIZE. bufs s' dig (2 * i) = hex_digit (unat (bufs s' key i) div 16) \<and>
        bufs s' dig (2 * i + 1) = hex_digit (unat (bufs s' key i) mod 16)) \<and>
     bufs s' dig (2 * MD5_SIGNATURE_SIZE) = 0"
proof -
  from compute_md5_eq [OF md5, of key keyStr len s] name(1)
  obtain tfm s4 where md: "wrapfs_compute_md5 C key keyStr len s = (0, s4)"
    and s4_def: "s4 = upd_buf key (\<lambda>d. buf_write d 0 MD5_SIGNATURE_SIZE (md5 (bytes_of name (unat (to_u32 len)))))
           (emit (Alloc_tfm tfm) s)" by auto
  from mem(1) obtain dig where dig: "kmalloc M (2 * MD5_SIGNATURE_SIZE + 1) s4 = Some dig"
    unfolding memory_available_def by blast
  from mem(2) dig have "held (R_mem dig) (log s4) = 0" unfolding alloc_fresh_def by blast
  with own have ne: "dig \<noteq> key" by (auto simp: held_simps s4_def)
  define s' where "s' = upd_sb_info p (keyVal_update (\<lambda>_. Some key)) (upd_buf dig
      (\<lambda>d. write_hex (bufs s4 key) [0..<MD5_SIGNATURE_SIZE] (zero_range d 0 (2 * MD5_SIGNATURE_SIZE + 1)))
      (emit (Kmalloc dig) s4))"
  have i: "bufs s' key = bufs s4 key" using ne by (simp add: s'_def)
  have d: "bufs s' dig = write_hex (bufs s' key) [0..<MD5_SIGNATURE_SIZE]
      (zero_range (bufs s4 dig) 0 (2 * MD5_SIGNATURE_SIZE + 1))"
    unfolding i by (simp add: s'_def)
  have "setekey_apply C M sb key keyStr len s = Some (0, s')"
    using name md dig sb ne
    by (simp add: setekey_apply_def setekey_store_def link_simps s'_def s4_def comp_def)
  moreover have "addr_limit s' = addr_limit s" "log s' = log s @ [Alloc_tfm tfm, Kmalloc dig]"
    "sb_infos s' = (sb_infos s)(p := keyVal_update (\<lambda>_. Some key) (sb_infos s p))"
    "bytes_of (bufs s' key) MD5_SIGNATURE_SIZE
      = bytes_of (md5 (bytes_of name (unat (to_u32 len)))) MD5_SIGNATURE_SIZE"
    unfolding i by (simp_all add: s'_def s4_def bytes_of_eq_iff)
  moreover have "\<forall>i < MD5_SIGNATURE_SIZE. bufs s' dig (2 * i) = hex_digit (unat (bufs s' key i) div 16) \<and>
        bufs s' dig (2 * i + 1) = hex_digit (unat (bufs s' key i) mod 16)"
    unfolding d using write_hex_upt(1,2) by simp
  moreover have "bufs s' dig (2 * MD5_SIGNATURE_SIZE) = 0"
    unfolding d by (rule write_hex_upt(3) [of 0]) (simp add: MD5_SIGNATURE_SIZE_def)
  ultimately show ?thesis by blast
qed

lemma ioctl_key_outcome:
  assumes "wrapfs_unlocked_ioctl C M U fl WRAPFS_SETEKEY arg s = Some (r, s')"
  shows "ioctl_frame s s' \<and> low s' = low s \<and> (r \<noteq> 0 \<longrightarrow> addr_limit s' = addr_limit s) \<and>
    (sb_infos s' = sb_infos s \<or>
     r = 0 \<and> (\<exists>p v. s_fs_info (sbs s (file_sb s fl)) = Some p \<and>
       sb_infos s' = (sb_infos s)(p := keyVal_update (\<lambda>_. v) (sb_infos s p))))"
proof (cases "kmalloc M (MD5_SIGNATURE_SIZE + 1) s")
  case None
  with assms show ?thesis by (simp add: wrapfs_unlocked_ioctl_def ioctl_frame_def)
next
  case (Some integ_val)
  from assms [unfolded ioctl_setekey_start [OF Some]] have "key_outcome (file_sb s fl) integ_val r
      (upd_buf integ_val (\<lambda>d. zero_range d 0 (MD5_SIGNATURE_SIZE + 1)) (emit (Kmalloc integ_val) s)) s'"
    by (rule ioctl_setekey_outcome)
  then show ?thesis by (auto simp: key_outcome_def ioctl_frame_def)
qed

section \<open>A concrete process\<close>

abbreviation c_string :: "byte list \<Rightarrow> buffer" where
  "c_string key \<equiv> (\<lambda>i. if i < length key then key ! i else 0)"

definition demo_user :: "byte list \<Rightarrow> user_api" where
  "demo_user key =
     \<lparr>access_ok = (\<lambda>_ _ _. True),
      copy_key_struct = (\<lambda>_ _. Some \<lparr>ik_len = int (length key), ik_key = 64\<rparr>),
      getname = (\<lambda>_ s. Ptr (mem_bound (log s), c_string key)),
      lower_ioctl = (\<lambda>_ _ _ l. (7, l))\<rparr>"

lemma demo_user_request:
  "key_request (demo_user key) arg (int (length key)) (c_string key)"
  by (auto simp: key_request_def demo_user_def)

lemma demo_user_fresh: "names_fresh (demo_user key)" "names_fresh (demo_user key\<lparr>copy_key_struct := c\<rparr>)"
  by (auto simp: names_fresh_def demo_user_def mem_bound_unused)

lemma ram_mm_available: "memory_available ram_mm"
  by (simp add: memory_available_def ram_mm_def)

lemma mounted_sb [simp]: "s_fs_info (sbs keyless_kst (file_sb keyless_kst 2)) = Some 5"
  "s_fs_info (sbs mounted_kst (file_sb mounted_kst 2)) = Some 5"
  by (simp_all add: keyless_kst_def state_defs)

section \<open>Properties\<close>

lemma setekey_installs:
  assumes "md5_service C md5" and "memory_available M" "alloc_fresh M"
    and "key_request U arg len name" and "\<not> strcmp_eq name [48]"
    and "s_fs_info (sbs s (file_sb s fl)) = Some p"
  shows "\<exists>s' key. wrapfs_unlocked_ioctl C M U fl WRAPFS_SETEKEY arg s = Some (0, s') \<and>
     key_of s' fl = Some (Some key) \<and> held (R_mem key) (log s) = 0 \<and> 0 < held (R_mem key) (log s') \<and>
     bytes_of (bufs s' key) MD5_SIGNATURE_SIZE
       = bytes_of (md5 (bytes_of name (unat (to_u32 len)))) MD5_SIGNATURE_SIZE \<and>
     sb_infos s' = (sb_infos s)(p := keyVal_update (\<lambda>_. Some key) (sb_infos s p)) \<and>
     ioctl_frame s s' \<and> addr_limit s' = addr_limit s \<and> low s' = low s"
proof -
  obtain key a b keyStr s4 where k: "kmalloc M (MD5_SIGNATURE_SIZE + 1) s = Some key"
    and io: "wrapfs_unlocked_ioctl C M U fl WRAPFS_SETEKEY arg s = setekey_apply C M (file_sb s fl) key keyStr len s4"
    and s4: "bufs s4 keyStr = name" "ioctl_frame s s4" "low s4 = low s" "sb_infos s4 = sb_infos s" "addr_limit s4 = addr_limit s"
      "log s4 = log s @ [Kmalloc key, Kmalloc a, Kmalloc b, Kmalloc keyStr]"
    by (rule setekey_prefix [where C = C and s = s and fl = fl, OF assms(2,4)])
  from assms(3) k have h: "held (R_mem key) (log s) = 0" unfolding alloc_fresh_def by blast
  with s4(6) have own: "0 < held (R_mem key) (log s4)" by (simp add: held_simps)
  from s4(2) assms(6) have sb: "s_fs_info (sbs s4 (file_sb s fl)) = Some p" by (simp add: ioctl_frame_def)
  obtain s' tfm dig where r: "setekey_apply C M (file_sb s fl) key keyStr len s4 = Some (0, s')"
    and al: "addr_limit s' = addr_limit s4" and l: "log s' = log s4 @ [Alloc_tfm tfm, Kmalloc dig]"
    and i: "sb_infos s' = (sb_infos s)(p := keyVal_update (\<lambda>_. Some key) (sb_infos s p))"
    and b: "bytes_of (bufs s' key) MD5_SIGNATURE_SIZE
       = bytes_of (md5 (bytes_of name (unat (to_u32 len)))) MD5_SIGNATURE_SIZE"
    using setekey_apply_ok [OF assms(1-3) s4(1) assms(5) sb own, of len] s4(4) by auto
  have fr: "ioctl_frame s s'" "low s' = low s"
    using setekey_apply_outcome [OF r] s4(2,3) by (auto simp: key_outcome_def intro: ioctl_frame_trans)
  from fr(1) i assms(6) have "key_of s' fl = Some (Some key)" by (simp add: ioctl_frame_def link_simps)
  moreover from own l have "0 < held (R_mem key) (log s')" by (auto simp: held_simps)
  ultimately show ?thesis using io r h b fr i al s4(5) by auto
qed

text \<open>C10: setting a key works: when the request is readable, memory and the digest are available and
  the string is not "0", the ioctl returns 0 and the key of the mount is a buffer of its own whose 16
  bytes are the digest of the first \<open>len\<close> bytes of the string, where \<open>len\<close> is the length the request gives.
  Nothing else changes: the private data of the super block apart from the key, that of every other
  super block, all other objects of the mounted file system, memory that was in use, the address limit
  and the lower file system are as before.\<close>

theorem setekey_sets_key:
  assumes "md5_service C md5" and "memory_available M" "alloc_fresh M" "names_fresh U"
    and "key_request U arg len name" and "\<not> strcmp_eq name [48]"
    and "s_fs_info (sbs s (file_sb s fl)) = Some p"
  shows "\<exists>s' key. wrapfs_unlocked_ioctl C M U fl WRAPFS_SETEKEY arg s = Some (0, s') \<and>
     key_of s' fl = Some (Some key) \<and> held (R_mem key) (log s) = 0 \<and> 0 < held (R_mem key) (log s') \<and>
     bytes_of (bufs s' key) MD5_SIGNATURE_SIZE
       = bytes_of (md5 (bytes_of name (unat (to_u32 len)))) MD5_SIGNATURE_SIZE \<and>
     sb_infos s' = (sb_infos s)(p := keyVal_update (\<lambda>_. Some key) (sb_infos s p)) \<and>
     ioctl_frame s s' \<and> memory_kept s s' \<and> addr_limit s' = addr_limit s \<and> low s' = low s"
  using setekey_installs [OF assms(1-3,5-7)] ioctl_kept [OF assms(3,4)] by blast

theorem setekey_sets_key_witness:
  "\<exists>s' key. wrapfs_unlocked_ioctl xor_crypto ram_mm (demo_user [3, 4]) 2 WRAPFS_SETEKEY 0 keyless_kst = Some (0, s') \<and>
     key_of s' 2 = Some (Some key) \<and> bufs s' key 1 = 8 \<and> addr_limit s' = USER_DS"
proof -
  have "\<not> strcmp_eq (c_string [3, 4]) [48]"
    by (simp add: strcmp_eq_def)
  moreover have "addr_limit keyless_kst = USER_DS" by (simp add: keyless_kst_def state_defs)
  ultimately show ?thesis
    using setekey_sets_key [OF xor_crypto_md5 ram_mm_available ram_mm_fresh demo_user_fresh(1) demo_user_request _ mounted_sb(1), of "[3, 4]" 0]
    by (auto simp: bytes_of_eq_iff bytes_of_def sum_digest_def MD5_SIGNATURE_SIZE_def to_u32_def upt_rec)
qed

lemma setekey_clears:
  assumes "memory_available M" and "key_request U arg len name" and "strcmp_eq name [48]"
    and "s_fs_info (sbs s (file_sb s fl)) = Some p"
  shows "\<exists>s'. wrapfs_unlocked_ioctl C M U fl WRAPFS_SETEKEY arg s = Some (0, s') \<and>
     key_of s' fl = Some None \<and> ioctl_frame s s' \<and> low s' = low s \<and>
     sb_infos s' = (sb_infos s)(p := keyVal_update (\<lambda>_. None) (sb_infos s p))"
proof -
  obtain key keyStr s4 where
    io: "wrapfs_unlocked_ioctl C M U fl WRAPFS_SETEKEY arg s = setekey_apply C M (file_sb s fl) key keyStr len s4"
    and s4: "bufs s4 keyStr = name" "ioctl_frame s s4" "low s4 = low s" "sb_infos s4 = sb_infos s"
    using setekey_prefix [where C = C and s = s and fl = fl, OF assms(1,2)] by blast
  with assms(3,4) show ?thesis
    by (auto simp: setekey_apply_def link_simps ioctl_frame_def)
qed

text \<open>C22: the string "0" clears the key: the ioctl returns 0, the mount has no key, and nothing else of
  it has changed.\<close>

theorem setekey_zero_clears:
  assumes "memory_available M" and "key_request U arg len name" and "strcmp_eq name [48]"
    and "s_fs_info (sbs s (file_sb s fl)) = Some p"
  shows "\<exists>s'. wrapfs_unlocked_ioctl C M U fl WRAPFS_SETEKEY arg s = Some (0, s') \<and>
     key_of s' fl = Some None \<and> ioctl_frame s s' \<and> low s' = low s \<and>
     sb_infos s' = (sb_infos s)(p := keyVal_update (\<lambda>_. None) (sb_infos s p))"
  using assms by (rule setekey_clears)

theorem setekey_zero_clears_witness:
  "\<exists>s'. wrapfs_unlocked_ioctl xor_crypto ram_mm (demo_user [48]) 2 WRAPFS_SETEKEY 0 mounted_kst = Some (0, s') \<and>
     key_of s' 2 = Some None"
proof -
  have "strcmp_eq (c_string [48]) [48]" by (simp add: strcmp_eq_def)
  from setekey_zero_clears [OF ram_mm_available demo_user_request this mounted_sb(2), of xor_crypto 0]
  show ?thesis by blast
qed

text \<open>C23: an ioctl that returns an error, or any other command than \<open>WRAPFS_SETEKEY\<close>, leaves the key of
  every mount as it was: the private data of every super block is unchanged, and so are the bytes of all
  memory in use, those of the keys among them, and the address limit.  No ioctl, whatever it returns,
  touches another object of the mounted file system, and \<open>WRAPFS_SETEKEY\<close> does not touch the lower one.\<close>

theorem ioctl_error_keeps_key:
  assumes "alloc_fresh M" "names_fresh U" and "wrapfs_unlocked_ioctl C M U fl cmd arg s = Some (r, s')"
  shows "ioctl_frame s s' \<and> memory_kept s s' \<and>
         (r \<noteq> 0 \<or> cmd \<noteq> WRAPFS_SETEKEY \<longrightarrow> sb_infos s' = sb_infos s \<and> addr_limit s' = addr_limit s) \<and>
         (cmd = WRAPFS_SETEKEY \<longrightarrow> low s' = low s)"
proof (cases "cmd = WRAPFS_SETEKEY")
  case True
  with ioctl_key_outcome ioctl_kept [OF assms] assms(3) show ?thesis by blast
next
  case False
  with assms(3) have "ioctl_frame s s' \<and> sb_infos s' = sb_infos s \<and> addr_limit s' = addr_limit s"
    by (auto simp: wrapfs_unlocked_ioctl_def ioctl_frame_def Let_def
        split: Option.bind_split_asm option.split_asm if_split_asm prod.split_asm)
  with False ioctl_kept [OF assms] show ?thesis by blast
qed

theorem ioctl_error_keeps_key_witness:
  "\<exists>s'. wrapfs_unlocked_ioctl xor_crypto ram_mm (demo_user [3]\<lparr>copy_key_struct := \<lambda>_ _. None\<rparr>) 2 WRAPFS_SETEKEY 0
     (emit (Kmalloc 9) mounted_kst) = Some (- EFAULT, s') \<and> sb_infos s' = sb_infos mounted_kst \<and>
     keyVal (sb_infos s' 5) = Some 9 \<and> bufs s' 9 = bufs mounted_kst 9"
proof -
  let ?U = "demo_user [3]\<lparr>copy_key_struct := \<lambda>_ _. None\<rparr>" and ?s = "emit (Kmalloc 9) mounted_kst"
  obtain s' where s': "wrapfs_unlocked_ioctl xor_crypto ram_mm ?U 2 WRAPFS_SETEKEY 0 ?s = Some (- EFAULT, s')"
    by (simp add: wrapfs_unlocked_ioctl_def ioctl_setekey_def demo_user_def ram_mm_def Let_def)
  have "0 < held (R_mem 9) (log ?s)" "keyVal (sb_infos mounted_kst 5) = Some 9"
    by (simp_all add: held_simps state_defs)
  with ioctl_error_keeps_key [OF ram_mm_fresh demo_user_fresh(2) s'] s' show ?thesis by (simp add: memory_kept_def)
qed

text \<open>C38: a failure of the digest is not reported: whichever call of the hash API fails on the key, be it
  the allocation, the initialisation, the update or the final one, the ioctl returns 0 as for success,
  but the private data of every mount and the bytes of the key set before are unchanged.\<close>

theorem setekey_hides_md5_failure:
  assumes "md5_failing C (bytes_of name (unat (to_u32 len)))" and "memory_available M" "alloc_fresh M" "names_fresh U"
    and "key_request U arg len name" and "\<not> strcmp_eq name [48]"
  shows "\<exists>s'. wrapfs_unlocked_ioctl C M U fl WRAPFS_SETEKEY arg s = Some (0, s') \<and>
     sb_infos s' = sb_infos s \<and> memory_kept s s'"
proof -
  obtain key keyStr s4 where
    io: "wrapfs_unlocked_ioctl C M U fl WRAPFS_SETEKEY arg s = setekey_apply C M (file_sb s fl) key keyStr len s4"
    and s4: "bufs s4 keyStr = name" "sb_infos s4 = sb_infos s"
    using setekey_prefix [where C = C and s = s and fl = fl, OF assms(2,5)] by blast
  obtain r s5 where s5: "wrapfs_compute_md5 C key keyStr len s4 = (r, s5)" by fastforce
  with compute_md5_failing [OF _ s5] assms(1) s4(1) have "r = - EPERM" by simp
  with io s4 s5 assms(6) have "wrapfs_unlocked_ioctl C M U fl WRAPFS_SETEKEY arg s = Some (0, s5)"
    by (simp add: setekey_apply_def setekey_store_def)
  with ioctl_kept [OF assms(3,4) this] compute_md5_frame(3) [OF s5] s4(2) show ?thesis by simp
qed

theorem setekey_hides_md5_failure_witness:
  "\<exists>s'. wrapfs_unlocked_ioctl (xor_crypto\<lparr>crypto_hash_update := \<lambda>h _. (- EINVAL, h)\<rparr>) ram_mm (demo_user [3, 4]) 2
     WRAPFS_SETEKEY 0 (emit (Kmalloc 9) mounted_kst) = Some (0, s') \<and> keyVal (sb_infos s' 5) = Some 9 \<and>
     bufs s' 9 = bufs mounted_kst 9"
proof -
  let ?C = "xor_crypto\<lparr>crypto_hash_update := \<lambda>h _. (- EINVAL, h)\<rparr>" and ?s = "emit (Kmalloc 9) mounted_kst"
  have "\<not> strcmp_eq (c_string [3, 4]) [48]" and "md5_failing ?C msg" for msg
    by (simp_all add: strcmp_eq_def md5_failing_def xor_crypto_def)
  moreover have "0 < held (R_mem 9) (log ?s)" "keyVal (sb_infos ?s 5) = Some 9"
    by (simp_all add: held_simps state_defs)
  ultimately show ?thesis
    using setekey_hides_md5_failure [OF _ ram_mm_available ram_mm_fresh demo_user_fresh(1) demo_user_request,
      of ?C "[3, 4]" 2 0 ?s] by (auto simp: memory_kept_def)
qed

text \<open>The digest string that a successful request leaves in memory is the hexadecimal form of the
  key: byte \<open>i\<close> of the key is spelt by the characters \<open>2 i\<close> and \<open>2 i + 1\<close>, and the string ends after 32
  characters.  Five of the buffers the request allocated stay allocated: the key, the argument
  structure, the unused key buffer, the name and the digest string.\<close>

theorem setekey_digest_string:
  assumes "md5_service C md5" and "memory_available M" "alloc_fresh M"
    and "key_request U arg len name" and "\<not> strcmp_eq name [48]"
    and "s_fs_info (sbs s (file_sb s fl)) = Some p"
    and "wrapfs_unlocked_ioctl C M U fl WRAPFS_SETEKEY arg s = Some (r, s')"
  shows "\<exists>key key_struc keyBuf keyStr tfm dig. key_of s' fl = Some (Some key) \<and>
     (\<forall>i < MD5_SIGNATURE_SIZE. bufs s' dig (2 * i) = hex_digit (unat (bufs s' key i) div 16) \<and>
        bufs s' dig (2 * i + 1) = hex_digit (unat (bufs s' key i) mod 16)) \<and>
     bufs s' dig (2 * MD5_SIGNATURE_SIZE) = 0 \<and>
     log s' = log s @ [Kmalloc key, Kmalloc key_struc, Kmalloc keyBuf, Kmalloc keyStr, Alloc_tfm tfm, Kmalloc dig]"
proof -
  obtain key a b keyStr s4 where k: "kmalloc M (MD5_SIGNATURE_SIZE + 1) s = Some key"
    and io: "wrapfs_unlocked_ioctl C M U fl WRAPFS_SETEKEY arg s = setekey_apply C M (file_sb s fl) key keyStr len s4"
    and s4: "bufs s4 keyStr = name" "ioctl_frame s s4" "low s4 = low s" "sb_infos s4 = sb_infos s" "addr_limit s4 = addr_limit s"
      "log s4 = log s @ [Kmalloc key, Kmalloc a, Kmalloc b, Kmalloc keyStr]"
    by (rule setekey_prefix [where C = C and s = s and fl = fl, OF assms(2,4)])
  from assms(3) k have "held (R_mem key) (log s) = 0" unfolding alloc_fresh_def by blast
  with s4(6) have own: "0 < held (R_mem key) (log s4)" by (simp add: held_simps)
  from s4(2) assms(6) have sb: "s_fs_info (sbs s4 (file_sb s fl)) = Some p" by (simp add: ioctl_frame_def)
  obtain tfm dig where l: "log s' = log s4 @ [Alloc_tfm tfm, Kmalloc dig]"
    and i: "sb_infos s' = (sb_infos s)(p := keyVal_update (\<lambda>_. Some key) (sb_infos s p))"
    and d: "\<forall>i < MD5_SIGNATURE_SIZE. bufs s' dig (2 * i) = hex_digit (unat (bufs s' key i) div 16) \<and>
        bufs s' dig (2 * i + 1) = hex_digit (unat (bufs s' key i) mod 16)"
      "bufs s' dig (2 * MD5_SIGNATURE_SIZE) = 0"
    using setekey_apply_ok [OF assms(1-3) s4(1) assms(5) sb own, of len] s4(4) io assms(7) by auto
  have "ioctl_frame s s'" using ioctl_key_outcome assms(7) by blast
  with i assms(6) have "key_of s' fl = Some (Some key)" by (simp add: ioctl_frame_def link_simps)
  moreover have "log s' = log s @ [Kmalloc key, Kmalloc a, Kmalloc b, Kmalloc keyStr, Alloc_tfm tfm, Kmalloc dig]"
    using l s4(6) by simp
  ultimately show ?thesis using d by blast
qed

theorem setekey_digest_string_witness:
  "\<exists>s' key dig. wrapfs_unlocked_ioctl xor_crypto ram_mm (demo_user [3, 4]) 2 WRAPFS_SETEKEY 0 keyless_kst = Some (0, s') \<and>
     key_of s' 2 = Some (Some key) \<and> bufs s' dig 0 = hex_digit (unat (bufs s' key 0) div 16)"
proof -
  have n: "\<not> strcmp_eq (c_string [3, 4]) [48]"
    by (simp add: strcmp_eq_def)
  obtain key a b keyStr s4 where "kmalloc ram_mm (MD5_SIGNATURE_SIZE + 1) keyless_kst = Some key"
    and io: "wrapfs_unlocked_ioctl xor_crypto ram_mm (demo_user [3, 4]) 2 WRAPFS_SETEKEY 0 keyless_kst
      = setekey_apply xor_crypto ram_mm (file_sb keyless_kst 2) key keyStr (int (length [3, 4 :: byte])) s4"
    and s4: "bufs s4 keyStr = (c_string [3, 4])" "ioctl_frame keyless_kst s4"
      "low s4 = low keyless_kst" "sb_infos s4 = sb_infos keyless_kst"
      "addr_limit s4 = addr_limit keyless_kst" "log s4 = log keyless_kst @ [Kmalloc key, Kmalloc a, Kmalloc b, Kmalloc keyStr]"
    by (rule setekey_prefix [where C = xor_crypto and s = keyless_kst and fl = 2, OF ram_mm_available demo_user_request [of "[3, 4]" 0]])
  have "s_fs_info (sbs s4 (file_sb keyless_kst 2)) = Some 5"
    using s4(2) mounted_sb(1) by (simp add: ioctl_frame_def)
  then obtain s' where s': "wrapfs_unlocked_ioctl xor_crypto ram_mm (demo_user [3, 4]) 2 WRAPFS_SETEKEY 0 keyless_kst
      = Some (0, s')"
    unfolding io using compute_md5_eq [OF xor_crypto_md5, of key keyStr "int (length [3, 4 :: byte])" s4] n s4(1)
    by (auto simp: setekey_apply_def setekey_store_def ram_mm_def link_simps Let_def)
  obtain key dig where k: "key_of s' 2 = Some (Some key)"
    and d: "\<forall>i < MD5_SIGNATURE_SIZE. bufs s' dig (2 * i) = hex_digit (unat (bufs s' key i) div 16) \<and>
        bufs s' dig (2 * i + 1) = hex_digit (unat (bufs s' key i) mod 16)"
    using setekey_digest_string [OF xor_crypto_md5 ram_mm_available ram_mm_fresh demo_user_request n mounted_sb(1) s']
    by blast
  from d [rule_format, of 0] have "bufs s' dig 0 = hex_digit (unat (bufs s' key 0) div 16)"
    by (simp add: MD5_SIGNATURE_SIZE_def)
  with s' k show ?thesis by blast
qed

text \<open>A request whose key pointer cannot be read crashes the kernel: when the argument structure is
  readable and \<open>getname\<close> returns an error pointer, the pointer is compared with "0" all the same.\<close>

theorem setekey_bad_pointer_oops:
  assumes "access_ok U arg sizeof_wrapfs_ioctl_key = (\<lambda>_. True)"
    and "\<forall>s. copy_key_struct U arg s = Some ks" and "\<forall>s. IS_ERR (getname U (ik_key ks) s)"
    and "memory_available M"
  shows "wrapfs_unlocked_ioctl C M U fl WRAPFS_SETEKEY arg s = None"
proof -
  have km: "\<exists>k. kmalloc M n s = Some k" for n s
    using assms(4) unfolding memory_available_def by blast
  from km obtain key where k: "kmalloc M (MD5_SIGNATURE_SIZE + 1) s = Some key" by blast
  let ?s1 = "upd_buf key (\<lambda>d. zero_range d 0 (MD5_SIGNATURE_SIZE + 1)) (emit (Kmalloc key) s)"
  from km obtain k2 where k2: "kmalloc M sizeof_wrapfs_ioctl_key ?s1 = Some k2" by blast
  let ?n = "unat (to_u32 (ik_len ks + 1))"
  from km obtain k3 where k3: "kmalloc M ?n (emit (Kmalloc k2) ?s1) = Some k3" by blast
  let ?s3 = "upd_buf k3 (\<lambda>d. zero_range d 0 ?n) (emit (Kmalloc k3) (emit (Kmalloc k2) ?s1))"
  have "IS_ERR (getname U (ik_key ks) ?s3)" using assms(3) ..
  then obtain e where "getname U (ik_key ks) ?s3 = ErrPtr e"
    by (cases "getname U (ik_key ks) ?s3") auto
  with assms(1,2) k k2 k3 show ?thesis
    by (simp add: wrapfs_unlocked_ioctl_def ioctl_setekey_def Let_def)
qed

theorem setekey_bad_pointer_oops_witness:
  "wrapfs_unlocked_ioctl xor_crypto ram_mm (demo_user [3]\<lparr>getname := \<lambda>_ _. ErrPtr (- EFAULT)\<rparr>) 2 WRAPFS_SETEKEY 0
     mounted_kst = None"
  using setekey_bad_pointer_oops [of "demo_user [3]\<lparr>getname := \<lambda>_ _. ErrPtr (- EFAULT)\<rparr>" 0
      "\<lparr>ik_len = 1, ik_key = 64\<rparr>" ram_mm xor_crypto 2 mounted_kst] ram_mm_available
  by (simp add: demo_user_def)

text \<open>Every other command goes to the lower file: with an \<open>unlocked_ioctl\<close> there, its result is
  returned and its effect is that of the lower file system; without one, or without a lower file, the
  result is \<open>-ENOTTY\<close>.  In each case the buffer allocated for a key is leaked.\<close>

theorem ioctl_forwards:
  assumes "cmd \<noteq> WRAPFS_SETEKEY" and "kmalloc M (MD5_SIGNATURE_SIZE + 1) s = Some p"
    and "wrapfs_lower_file s fl = Some lf"
    and "wrapfs_unlocked_ioctl C M U fl cmd arg s = Some (r, s')"
  shows "(r, low s') = (case lf of
       Some f \<Rightarrow> if lower_has_fop (low s) f F_unlocked_ioctl then lower_ioctl U f cmd arg (low s) else (- ENOTTY, low s)
     | None \<Rightarrow> (- ENOTTY, low s)) \<and>
     held (R_mem p) (log s') = held (R_mem p) (log s) + 1"
  using assms
  by (auto simp: wrapfs_unlocked_ioctl_def link_simps lower_has_fop_def held_simps Let_def
      split: option.splits if_splits prod.splits)

theorem ioctl_forwards_witness:
  "\<exists>s'. wrapfs_unlocked_ioctl xor_crypto ram_mm (demo_user [])  2 0x5401 0
     (upd_lfile 11 (f_op_update (\<lambda>_. Some (foreign_fops [F_unlocked_ioctl]))) mounted_kst) = Some (7, s') \<and>
     held (R_mem 200) (log s') = 1"
proof -
  let ?s = "upd_lfile 11 (f_op_update (\<lambda>_. Some (foreign_fops [F_unlocked_ioctl]))) mounted_kst"
  have f: "private_data (files mounted_kst 2) = Some 6" "lower_file (finfos mounted_kst 6) = Some 11"
    by (simp_all add: state_defs)
  then have lf: "wrapfs_lower_file ?s 2 = Some (Some 11)" by (simp add: link_simps)
  have k: "kmalloc ram_mm (MD5_SIGNATURE_SIZE + 1) ?s = Some 200" by (simp add: ram_mm_def state_defs)
  have c: "(0x5401 :: u32) \<noteq> WRAPFS_SETEKEY" by (simp add: WRAPFS_SETEKEY_eq)
  obtain r s' where r: "wrapfs_unlocked_ioctl xor_crypto ram_mm (demo_user []) 2 0x5401 0 ?s = Some (r, s')"
    using k f c by (simp add: wrapfs_unlocked_ioctl_def link_simps lower_has_fop_def demo_user_def Let_def)
  from ioctl_forwards [OF c k lf r] r show ?thesis
    by (simp add: demo_user_def lower_has_fop_def state_defs)
qed

end
