(* ===== verification/File_Ops.thy ===== *)
theory File_Ops
  imports Ioctl
begin

text \<open>
  The file operations of \<^verbatim>\<open>file.c\<close> besides the ioctl: reading and writing a file that is mounted
  without the option \<open>mmap\<close> (the data passes to the lower file as it is), directories, memory
  mappings, opening and releasing, and the synchronisation calls.
\<close>

section \<open>Parameters\<close>

text \<open>
  \<open>dentry_open\<close> takes over the references of the path it is given, on success and on failure.
  A method of the lower file is called with the lower state only; the two functions that write
  back the pages of an upper file may change any part of the state.
\<close>

record file_api =
  kzalloc_file_info :: "kst \<Rightarrow> ptr option"
  dentry_open :: "path \<Rightarrow> u32 \<Rightarrow> lower_st \<Rightarrow> ptr eptr \<times> lower_st"
  vfs_readdir :: "ptr \<Rightarrow> lower_st \<Rightarrow> int \<times> lower_st"
  lower_mmap :: "ptr \<Rightarrow> vma \<Rightarrow> lower_st \<Rightarrow> int \<times> vma \<times> lower_st"
  do_munmap :: "nat \<Rightarrow> nat \<Rightarrow> kst \<Rightarrow> int"
  file_accessed :: "inode \<Rightarrow> inode"
  filemap_write_and_wait :: "ptr \<Rightarrow> kst \<Rightarrow> int \<times> kst"
  lower_flush :: "ptr \<Rightarrow> lower_st \<Rightarrow> int \<times> lower_st"
  generic_file_fsync :: "ptr \<Rightarrow> int \<Rightarrow> int \<Rightarrow> bool \<Rightarrow> kst \<Rightarrow> int \<times> kst"
  vfs_fsync_range :: "ptr \<Rightarrow> int \<Rightarrow> int \<Rightarrow> bool \<Rightarrow> lower_st \<Rightarrow> int \<times> lower_st"
  lower_fasync :: "int \<Rightarrow> ptr \<Rightarrow> bool \<Rightarrow> lower_st \<Rightarrow> int \<times> lower_st"

definition VM_WRITE :: u32 where "VM_WRITE = 2"
definition VM_SHARED :: u32 where "VM_SHARED = 8"
definition VM_CAN_NONLINEAR :: u32 where "VM_CAN_NONLINEAR = 0x08000000"

section \<open>Reading and writing\<close>

definition wrapfs_read :: "vfs_api \<Rightarrow> ptr \<Rightarrow> nat \<Rightarrow> int \<Rightarrow> kst \<Rightarrow> (int \<times> int \<times> buffer) run" where
  "wrapfs_read V fl count ppos s = do {
     let dentry = f_dentry (files s fl);
     lf_opt \<leftarrow> wrapfs_lower_file s fl;
     lf \<leftarrow> lf_opt;
     let (err, ppos', buf, l) = vfs_read V lf count ppos (low s);
     let s = emit (Vfs_read lf count ppos) (low_update (\<lambda>_. l) s);
     if err \<ge> 0 then do {
       i \<leftarrow> d_inode (dentries s dentry);
       li \<leftarrow> lower_file_inode (low s) lf;
       Some ((err, ppos', buf), upd_inode i (\<lambda>x. fsstack_copy_attr_atime V x (l_inodes (low s) li)) s)
     }
     else Some ((err, ppos', buf), s)
   }"

definition wrapfs_write :: "vfs_api \<Rightarrow> ptr \<Rightarrow> buffer \<Rightarrow> nat \<Rightarrow> int \<Rightarrow> kst \<Rightarrow> (int \<times> int) run" where
  "wrapfs_write V fl buf count ppos s = do {
     let dentry = f_dentry (files s fl);
     lf_opt \<leftarrow> wrapfs_lower_file s fl;
     lf \<leftarrow> lf_opt;
     let (err, ppos', l) = vfs_write V lf buf count ppos (low s);
     let s = emit (Vfs_write lf count ppos) (low_update (\<lambda>_. l) s);
     if err \<ge> 0 then do {
       i \<leftarrow> d_inode (dentries s dentry);
       li \<leftarrow> lower_file_inode (low s) lf;
       let s = upd_inode i (\<lambda>x. fsstack_copy_inode_size V x (l_inodes (low s) li)) s;
       let s = upd_inode i (\<lambda>x. fsstack_copy_attr_times V x (l_inodes (low s) li)) s;
       Some ((err, ppos'), s)
     }
     else Some ((err, ppos'), s)
   }"

definition wrapfs_readdir :: "vfs_api \<Rightarrow> file_api \<Rightarrow> ptr \<Rightarrow> kst \<Rightarrow> int run" where
  "wrapfs_readdir V F fl s = do {
     let dentry = f_dentry (files s fl);
     lf_opt \<leftarrow> wrapfs_lower_file s fl;
     lf \<leftarrow> lf_opt;
     let (err, l) = vfs_readdir F lf (low s);
     let s = emit (Lower_call ''readdir'') (low_update (\<lambda>_. l) s);
     let s = upd_file fl (f_pos_update (\<lambda>_. f_pos (l_files (low s) lf))) s;
     if err \<ge> 0 then do {
       i \<leftarrow> d_inode (dentries s dentry);
       li \<leftarrow> lower_file_inode (low s) lf;
       Some (err, upd_inode i (\<lambda>x. fsstack_copy_attr_atime V x (l_inodes (low s) li)) s)
     }
     else Some (err, s)
   }"

section \<open>Mapping\<close>

text \<open>From \<open>file_accessed\<close> to the label \<open>out\<close>.\<close>

definition mmap_install ::
  "file_api \<Rightarrow> ptr \<Rightarrow> vma \<Rightarrow> vm_ops option \<Rightarrow> int \<Rightarrow> kst \<Rightarrow> (int \<times> vma) run" where
  "mmap_install F fl vma saved_vm_ops err s = do {
     i \<leftarrow> d_inode (dentries s (f_dentry (files s fl)));
     let s = upd_inode i (file_accessed F) s;
     sbi \<leftarrow> WRAPFS_SB s (d_sb (dentries s (f_dentry (files s fl))));
     let vma =
       (if aops_enabled (sb_infos s sbi) \<noteq> 0 then vma\<lparr>vma_vm_ops := None\<rparr>
        else vma\<lparr>vma_vm_ops := Some wrapfs_vm_ops\<rparr>);
     let vma = vma\<lparr>vm_flags := vm_flags vma OR VM_CAN_NONLINEAR\<rparr>;
     let s =
       (if aops_enabled (sb_infos s sbi) \<noteq> 0
        then upd_inode (f_mapping (files s fl)) (a_ops_update (\<lambda>_. wrapfs_aops)) s
        else upd_inode (f_mapping (files s fl)) (a_ops_update (\<lambda>_. wrapfs_aops_null)) s);
     fi \<leftarrow> WRAPFS_F s fl;
     let s =
       (if lower_vm_ops (finfos s fi) = None
        then upd_finfo fi (lower_vm_ops_update (\<lambda>_. saved_vm_ops)) s else s);
     Some ((err, vma), s)
   }"

definition wrapfs_mmap :: "file_api \<Rightarrow> ptr \<Rightarrow> vma \<Rightarrow> kst \<Rightarrow> (int \<times> vma) run" where
  "wrapfs_mmap F fl vma s = do {
     let willwrite = (vm_flags vma OR VM_SHARED OR VM_WRITE = vm_flags vma);
     lf_opt \<leftarrow> wrapfs_lower_file s fl;
     refuse \<leftarrow>
       (if willwrite
        then map_option (\<lambda>lf. \<not> has_aop (a_ops (l_inodes (low s) (f_mapping (l_files (low s) lf)))) A_writepage)
               lf_opt
        else Some False);
     if refuse then Some ((- EINVAL, vma), s)
     else do {
       fi \<leftarrow> WRAPFS_F s fl;
       if lower_vm_ops (finfos s fi) = None then do {
         lf \<leftarrow> lf_opt;
         if \<not> lower_has_fop (low s) lf F_mmap then None
         else do {
           let (err, vma, l) = lower_mmap F lf vma (low s);
           let s = emit (Lower_call ''mmap'') (low_update (\<lambda>_. l) s);
           if err \<noteq> 0 then Some ((err, vma), s)
           else do {
             let saved_vm_ops = vma_vm_ops vma;
             let err = do_munmap F (vm_start vma) (vm_end vma - vm_start vma) s;
             if err \<noteq> 0 then Some ((err, vma), s)
             else mmap_install F fl vma saved_vm_ops err s
           }
         }
       }
       else mmap_install F fl vma None 0 s
     }
   }"

section \<open>Opening and releasing\<close>

definition wrapfs_open :: "vfs_api \<Rightarrow> file_api \<Rightarrow> ptr \<Rightarrow> ptr \<Rightarrow> kst \<Rightarrow> int run" where
  "wrapfs_open V F inode fl s =
     (if d_unhashed (dentries s (f_dentry (files s fl))) then Some (- ENOENT, s)
      else
        case kzalloc_file_info F s of
          None \<Rightarrow> Some (- ENOMEM, upd_file fl (private_data_update (\<lambda>_. None)) s)
        | Some fi \<Rightarrow> do {
            let s = emit (Info_alloc fi) s;
            let s = upd_finfo fi (\<lambda>_. \<lparr>lower_file = None, lower_vm_ops = None\<rparr>) s;
            let s = upd_file fl (private_data_update (\<lambda>_. Some fi)) s;
            (lower_path, s) \<leftarrow> wrapfs_get_lower_path (f_dentry (files s fl)) s;
            let (opened, l) = dentry_open F lower_path (f_flags (files s fl)) (low s);
            let s = emit (Path_put lower_path) (low_update (\<lambda>_. l) s);
            (err, s) \<leftarrow>
              (case opened of
                 ErrPtr e \<Rightarrow> do {
                   lf_opt \<leftarrow> wrapfs_lower_file s fl;
                   case lf_opt of
                     None \<Rightarrow> Some (e, s)
                   | Some lf \<Rightarrow> do {
                       s \<leftarrow> wrapfs_set_lower_file fl None s;
                       Some (e, emit (Fput lf) s)
                     }
                 }
               | Ptr lf \<Rightarrow> do {
                   s \<leftarrow> wrapfs_set_lower_file fl (Some lf) (emit (File_open lf) s);
                   Some (0, s)
                 });
            if err \<noteq> 0 then do {
              fi \<leftarrow> WRAPFS_F s fl;
              Some (err, emit (Info_free fi) s)
            }
            else do {
              li \<leftarrow> wrapfs_lower_inode s inode;
              Some (err, upd_inode inode (\<lambda>x. fsstack_copy_attr_all V x (l_inodes (low s) li)) s)
            }
          })"

definition wrapfs_flush :: "file_api \<Rightarrow> ptr \<Rightarrow> kst \<Rightarrow> int run" where
  "wrapfs_flush F fl s = do {
     let (err, s) =
       (if f_mode (files s fl) AND FMODE_WRITE \<noteq> 0
        then filemap_write_and_wait F (f_mapping (files s fl)) s else (0, s));
     if err < 0 then Some (err, s)
     else do {
       lf_opt \<leftarrow> wrapfs_lower_file s fl;
       case lf_opt of
         None \<Rightarrow> Some (err, s)
       | Some lf \<Rightarrow>
           if lower_has_fop (low s) lf F_flush
           then (let (err, l) = lower_flush F lf (low s)
                 in Some (err, emit (Lower_call ''flush'') (low_update (\<lambda>_. l) s)))
           else Some (err, s)
     }
   }"

definition wrapfs_file_release :: "ptr \<Rightarrow> kst \<Rightarrow> int run" where
  "wrapfs_file_release fl s = do {
     lf_opt \<leftarrow> wrapfs_lower_file s fl;
     s \<leftarrow>
       (case lf_opt of
          None \<Rightarrow> Some s
        | Some lf \<Rightarrow> do {
            s \<leftarrow> wrapfs_set_lower_file fl None s;
            Some (emit (Fput lf) s)
          });
     fi \<leftarrow> WRAPFS_F s fl;
     Some (0, emit (Info_free fi) s)
   }"

definition wrapfs_fsync :: "file_api \<Rightarrow> ptr \<Rightarrow> int \<Rightarrow> int \<Rightarrow> bool \<Rightarrow> kst \<Rightarrow> int run" where
  "wrapfs_fsync F fl start end' datasync s = do {
     let dentry = f_dentry (files s fl);
     let (err, s) = generic_file_fsync F fl start end' datasync s;
     if err \<noteq> 0 then Some (err, s)
     else do {
       lf_opt \<leftarrow> wrapfs_lower_file s fl;
       (lower_path, s) \<leftarrow> wrapfs_get_lower_path dentry s;
       lf \<leftarrow> lf_opt;
       let (err, l) = vfs_fsync_range F lf start end' datasync (low s);
       let s = emit (Lower_call ''fsync'') (low_update (\<lambda>_. l) s);
       Some (err, wrapfs_put_lower_path dentry lower_path s)
     }
   }"

definition wrapfs_fasync :: "file_api \<Rightarrow> int \<Rightarrow> ptr \<Rightarrow> bool \<Rightarrow> kst \<Rightarrow> int run" where
  "wrapfs_fasync F fd fl flag s = do {
     lf_opt \<leftarrow> wrapfs_lower_file s fl;
     lf \<leftarrow> lf_opt;
     if lower_has_fop (low s) lf F_fasync
     then (let (err, l) = lower_fasync F fd lf flag (low s)
           in Some (err, emit (Lower_call ''fasync'') (low_update (\<lambda>_. l) s)))
     else Some (0, s)
   }"

section \<open>Lemmas\<close>

text \<open>An error pointer carries a negative number.\<close>

definition open_errors :: "file_api \<Rightarrow> bool" where
  "open_errors F \<longleftrightarrow> (\<forall>p fl l e l'. dentry_open F p fl l = (ErrPtr e, l') \<longrightarrow> e < 0)"

lemmas open_defs = wrapfs_open_def wrapfs_get_lower_path_def link_simps

lemma open_success:
  assumes "\<not> d_unhashed (dentries s (f_dentry (files s fl)))" and "kzalloc_file_info F s = Some fi"
    and "d_fsdata (dentries s (f_dentry (files s fl))) = Some d"
    and "dentry_open F (lower_path (dinfos s d)) (f_flags (files s fl)) (low s) = (Ptr lf, l)"
    and "lower_inode (inodes s inode) = Some li"
  shows "wrapfs_open V F inode fl s = Some (0,
     upd_inode inode (\<lambda>x. fsstack_copy_attr_all V x (l_inodes l li))
       (upd_finfo fi (lower_file_update (\<lambda>_. Some lf)) (low_update (\<lambda>_. l)
          (upd_file fl (private_data_update (\<lambda>_. Some fi))
            (upd_finfo fi (\<lambda>_. \<lparr>lower_file = None, lower_vm_ops = None\<rparr>)
              (log_update (\<lambda>lg. lg @ [Info_alloc fi, Spin_lock d, Path_get (lower_path (dinfos s d)), Spin_unlock d,
                 Path_put (lower_path (dinfos s d)), File_open lf]) s))))))"
  using assms by (simp add: open_defs run_simps)

lemma open_cases:
  assumes "wrapfs_open V F inode fl s = Some (r, s')"
  obtains (unhashed) "r = - ENOENT" "s' = s"
    | (no_memory) "r = - ENOMEM" "s' = upd_file fl (private_data_update (\<lambda>_. None)) s"
    | (failed) fi d e l where "e \<noteq> 0" "r = e" "log s' = log s @ [Info_alloc fi, Spin_lock d,
        Path_get (lower_path (dinfos s d)), Spin_unlock d, Path_put (lower_path (dinfos s d)), Info_free fi]"
    | (opened) fi d lf l where "r = 0" "dentry_open F (lower_path (dinfos s d)) (f_flags (files s fl)) (low s) = (Ptr lf, l)"
        "private_data (files s' fl) = Some fi" "lower_file (finfos s' fi) = Some lf"
        "log s' = log s @ [Info_alloc fi, Spin_lock d,
        Path_get (lower_path (dinfos s d)), Spin_unlock d, Path_put (lower_path (dinfos s d)), File_open lf]"
    | (null_error) l p fl' l' where "dentry_open F p fl' l = (ErrPtr 0, l')"
proof (cases "d_unhashed (dentries s (f_dentry (files s fl)))")
  case True
  with assms unhashed show ?thesis by (simp add: wrapfs_open_def)
next
  case False
  show ?thesis
  proof (cases "kzalloc_file_info F s")
    case None
    with False assms no_memory show ?thesis by (simp add: wrapfs_open_def)
  next
    case (Some fi)
    with False assms obtain d where d: "d_fsdata (dentries s (f_dentry (files s fl))) = Some d"
      by (auto simp: open_defs run_simps bind_Some_iff)
    obtain o' l where o': "dentry_open F (lower_path (dinfos s d)) (f_flags (files s fl)) (low s) = (o', l)"
      by fastforce
    show ?thesis
    proof (cases o')
      case (Ptr lf)
      with False Some assms d o' show ?thesis
        by (intro opened [of d lf l fi]) (auto simp: open_defs run_simps bind_Some_iff)
    next
      case (ErrPtr e)
      show ?thesis
      proof (cases "e = 0")
        case True
        with ErrPtr o' null_error show ?thesis by blast
      next
        case ne: False
        with False Some assms d o' ErrPtr show ?thesis
          by (intro failed [of e fi d]) (auto simp: open_defs run_simps)
      qed
    qed
  qed
qed

text \<open>Reading and writing on a healthy lower file system.\<close>

definition open_file :: "kst \<Rightarrow> ptr \<Rightarrow> ptr \<Rightarrow> ptr \<Rightarrow> ptr \<Rightarrow> bool" where
  "open_file s fl lf i li \<longleftrightarrow> wrapfs_lower_file s fl = Some (Some lf) \<and>
     d_inode (dentries s (f_dentry (files s fl))) = Some i \<and> lower_file_inode (low s) lf = Some li \<and>
     f_mode (l_files (low s) lf) AND FMODE_WRITE \<noteq> 0 \<and> f_mode (l_files (low s) lf) AND FMODE_READ \<noteq> 0 \<and>
     f_flags (l_files (low s) lf) AND O_APPEND = 0"

lemma write_healthy:
  assumes V: "lower_writes V" "fsstack_laws V" and f: "open_file s fl lf i li" and pos: "0 \<le> pos"
  shows "\<exists>s'. wrapfs_write V fl buf n pos s = Some ((int n, pos + int n), s') \<and>
     l_bytes (low s') = (l_bytes (low s))(li := buf_write (l_bytes (low s) li) (nat pos) n buf) \<and>
     i_size (l_inodes (low s') li) =
       (if n = 0 then i_size (l_inodes (low s) li) else max (i_size (l_inodes (low s) li)) (pos + int n)) \<and>
     i_size_read i s' = i_size (l_inodes (low s') li) \<and>
     i_mtime (vfs_inode (inodes s' i)) = i_mtime (l_inodes (low s') li) \<and>
     sb_infos s' = sb_infos s \<and> pages s' = pages s \<and> open_file s' fl lf i li"
proof -
  note f' = f [unfolded open_file_def]
  obtain l' where w: "vfs_write V lf buf n pos (low s) = (int n, pos + int n, l')"
    "l_bytes l' = (l_bytes (low s))(li := buf_write (l_bytes (low s) li) (nat pos) n buf)"
    "i_size (l_inodes l' li) =
       (if n = 0 then i_size (l_inodes (low s) li) else max (i_size (l_inodes (low s) li)) (pos + int n))"
    "lower_frame (low s) l'"
    using lower_writesD [OF V(1), of "low s" lf li pos] f' pos by blast
  have li: "lower_file_inode l' lf = Some li"
    using f' w(4) by (simp add: lower_file_inode_def lower_frame_def)
  show ?thesis
    using f' w li V(2)
    by (auto simp: wrapfs_write_def run_simps link_simps fsstack_laws_def open_file_def lower_frame_def)
qed

lemma read_healthy:
  assumes V: "lower_reads V" and f: "open_file s fl lf i li" and pos: "0 \<le> pos"
    and m: "m = min n (nat (i_size (l_inodes (low s) li)) - nat pos)"
  shows "\<exists>s' d. wrapfs_read V fl n pos s = Some ((int m, pos + int m, d), s') \<and>
     (\<forall>k<m. d k = l_bytes (low s) li (nat pos + k)) \<and> l_bytes (low s') = l_bytes (low s)"
proof -
  note f' = f [unfolded open_file_def]
  obtain d l' where r: "vfs_read V lf n pos (low s) = (int m, pos + int m, d, l')"
    "\<forall>k<m. d k = l_bytes (low s) li (nat pos + k)" "l_bytes l' = l_bytes (low s)" "lower_frame (low s) l'"
    using lower_readsD [OF V, of "low s" lf li pos m n] f' pos m by blast
  have li: "lower_file_inode l' lf = Some li"
    using f' r(4) by (simp add: lower_file_inode_def lower_frame_def)
  show ?thesis
    using f' r li by (auto simp: wrapfs_read_def run_simps link_simps)
qed

section \<open>Concrete parameters\<close>

definition ram_file :: file_api where
  "ram_file =
     \<lparr>kzalloc_file_info = (\<lambda>_. Some 40), dentry_open = (\<lambda>_ _ l. (Ptr 11, l)),
      vfs_readdir = (\<lambda>_ l. (0, l)),
      lower_mmap = (\<lambda>_ v l. (0, v\<lparr>vma_vm_ops := Some (foreign_vm_ops 1)\<rparr>, l)), do_munmap = (\<lambda>_ _ _. 0),
      file_accessed = (\<lambda>i. i), filemap_write_and_wait = (\<lambda>_ s. (0, s)), lower_flush = (\<lambda>_ l. (0, l)),
      generic_file_fsync = (\<lambda>_ _ _ _ s. (0, s)), vfs_fsync_range = (\<lambda>_ _ _ _ l. (0, l)),
      lower_fasync = (\<lambda>_ _ _ l. (0, l))\<rparr>"

lemma ram_file_errors: "open_errors ram_file"
  by (simp add: open_errors_def ram_file_def)

lemma mounted_open_file: "open_file mounted_kst 2 11 1 13"
  by (simp add: open_file_def link_simps state_defs lower_file_inode_def FMODE_WRITE_def FMODE_READ_def O_APPEND_def)

section \<open>Properties\<close>

text \<open>C20: opening and releasing are balanced: an open that fails leaves every resource count as it was,
  and after a successful open the file is linked to the lower file that was opened on the dentry's
  lower path, and releasing it brings every count back to what it was before the open.\<close>

theorem open_release_balanced:
  assumes "open_errors F" and "wrapfs_open V F inode fl s = Some (r, s1)"
  shows "(r \<noteq> 0 \<longrightarrow> (\<forall>x. held x (log s1) = held x (log s))) \<and>
    (r = 0 \<longrightarrow> (\<exists>lf s2. wrapfs_lower_file s1 fl = Some (Some lf) \<and> wrapfs_file_release fl s1 = Some (0, s2) \<and>
       wrapfs_lower_file s2 fl = Some None \<and> (\<forall>x. held x (log s2) = held x (log s))))"
  using assms(2)
proof (cases rule: open_cases)
  case (opened fi d lf l)
  then show ?thesis by (auto simp: link_simps wrapfs_file_release_def held_simps)
next
  case (null_error l p fl' l')
  with assms(1) show ?thesis unfolding open_errors_def by fastforce
qed (auto simp: held_simps)

theorem open_release_balanced_witness:
  "\<exists>s1 s2. wrapfs_open ram_vfs ram_file 1 2 mounted_kst = Some (0, s1) \<and> wrapfs_file_release 2 s1 = Some (0, s2) \<and>
     held (R_info 40) (log s2) = 0 \<and> held (R_file 11) (log s2) = 0"
proof -
  obtain s1 where s1: "wrapfs_open ram_vfs ram_file 1 2 mounted_kst = Some (0, s1)"
    using open_success [of mounted_kst 2 ram_file 40 7 11 "low mounted_kst" 1 13 ram_vfs]
    by (simp add: ram_file_def state_defs)
  from open_release_balanced [OF ram_file_errors s1] s1 show ?thesis
    by (auto simp: state_defs)
qed

text \<open>A file of a mount without the option \<open>mmap\<close> is not encrypted: \<open>wrapfs_write\<close> stores the user's
  bytes in the lower file as they are, whatever the key, returns their number, and copies size and
  times of the lower inode to the upper one; neither a page nor the key is looked at.\<close>

theorem plain_write_passes_through:
  assumes "lower_writes V" "fsstack_laws V" "open_file s fl lf i li" "0 \<le> pos"
    and "wrapfs_write V fl buf n pos s = Some ((rc, pos'), s')"
  shows "rc = int n \<and> pos' = pos + int n \<and>
    l_bytes (low s') li = buf_write (l_bytes (low s) li) (nat pos) n buf \<and>
    i_size_read i s' = i_size (l_inodes (low s') li) \<and>
    i_mtime (vfs_inode (inodes s' i)) = i_mtime (l_inodes (low s') li) \<and>
    sb_infos s' = sb_infos s \<and> pages s' = pages s"
  using write_healthy [OF assms(1-4), of buf n] assms(5) by auto

theorem plain_write_passes_through_witness:
  "\<exists>s'. wrapfs_write ram_vfs 2 (\<lambda>_. 9) 3 5 mounted_kst = Some ((3, 8), s') \<and>
     l_bytes (low s') 13 6 = 9 \<and> i_size_read 1 s' = 8"
proof -
  obtain s' where s': "wrapfs_write ram_vfs 2 (\<lambda>_. 9) 3 5 mounted_kst = Some ((int 3, 5 + int 3), s')"
    "i_size (l_inodes (low s') 13) = max (i_size (l_inodes (low mounted_kst) 13)) (5 + int 3)"
    using write_healthy [OF ram_vfs_writes ram_vfs_fsstack mounted_open_file, of 5 "\<lambda>_. 9" 3] by auto
  from plain_write_passes_through [OF ram_vfs_writes ram_vfs_fsstack mounted_open_file _ s'(1)] s'
  show ?thesis by (simp add: state_defs)
qed

text \<open>C21: what was written to a file of such a mount is read back: \<open>wrapfs_read\<close> at the same position
  delivers the same bytes.\<close>

theorem plain_write_read_roundtrip:
  assumes "lower_writes V" "lower_reads V" "fsstack_laws V" "open_file s fl lf i li" "0 \<le> pos"
    and w: "wrapfs_write V fl buf n pos s = Some (r, s1)"
  shows "\<exists>s2 d pos'. wrapfs_read V fl n pos s1 = Some ((int n, pos', d), s2) \<and> (\<forall>k<n. d k = buf k)"
proof -
  have f1: "open_file s1 fl lf i li"
    and b: "l_bytes (low s1) li = buf_write (l_bytes (low s) li) (nat pos) n buf"
    and z: "i_size (l_inodes (low s1) li) =
       (if n = 0 then i_size (l_inodes (low s) li) else max (i_size (l_inodes (low s) li)) (pos + int n))"
    using write_healthy [OF assms(1,3,4,5), of buf n] w by auto
  have "n = min n (nat (i_size (l_inodes (low s1) li)) - nat pos)"
    using assms(5) z by (cases "n = 0") auto
  from read_healthy [OF assms(2) f1 assms(5) this] show ?thesis
    by (auto simp: b buf_write_shift)
qed

theorem plain_write_read_roundtrip_witness:
  "\<exists>s1 r s2 d pos'. wrapfs_write ram_vfs 2 (\<lambda>k. 30 + of_nat k) 3 5 mounted_kst = Some (r, s1) \<and>
     wrapfs_read ram_vfs 2 3 5 s1 = Some ((3, pos', d), s2) \<and> d 2 = 32"
proof -
  obtain r s1 where s1: "wrapfs_write ram_vfs 2 (\<lambda>k. 30 + of_nat k) 3 5 mounted_kst = Some (r, s1)"
    using write_healthy [OF ram_vfs_writes ram_vfs_fsstack mounted_open_file, of 5 "\<lambda>k. 30 + of_nat k" 3] by auto
  obtain s2 d pos' where r: "wrapfs_read ram_vfs 2 3 5 s1 = Some ((int 3, pos', d), s2)"
    and d: "\<forall>k<3. d k = 30 + of_nat k"
    using plain_write_read_roundtrip [OF ram_vfs_writes ram_vfs_reads ram_vfs_fsstack mounted_open_file _ s1] by auto
  from d [rule_format, of 2] have "d 2 = 32" by simp
  with s1 r show ?thesis by auto
qed

text \<open>A mapping of a file is set up according to the mount option: when \<open>wrapfs_mmap\<close> returns 0, a
  mount with the option \<open>mmap\<close> has left the mapping without fault handler and the file with the address
  space operations of \<^verbatim>\<open>mmap.c\<close>, any other mount has installed \<open>wrapfs_fault\<close> and empty address space
  operations.\<close>

theorem mmap_follows_option:
  assumes "wrapfs_mmap F fl vma s = Some ((0, vma'), s')"
    and "s_fs_info (sbs s (file_sb s fl)) = Some p"
  shows "vma_vm_ops vma' = (if aops_enabled (sb_infos s p) \<noteq> 0 then None else Some wrapfs_vm_ops) \<and>
    a_ops (vfs_inode (inodes s' (f_mapping (files s fl))))
      = (if aops_enabled (sb_infos s p) \<noteq> 0 then wrapfs_aops else wrapfs_aops_null) \<and>
    vm_flags vma' AND VM_CAN_NONLINEAR \<noteq> 0"
proof -
  have f: "VM_CAN_NONLINEAR \<noteq> 0" by (simp add: VM_CAN_NONLINEAR_def)
  from assms show ?thesis
    by (auto simp: wrapfs_mmap_def mmap_install_def link_simps run_simps f
        split: Option.bind_split_asm if_split_asm)
qed

abbreviation demo_vma :: vma where
  "demo_vma \<equiv> \<lparr>vm_file = Some 2, vm_flags = 1, vma_vm_ops = None, vm_start = 0, vm_end = 4096\<rparr>"

abbreviation mappable_kst :: kst where
  \<comment> \<open>a mount without the option, on a lower file that can be mapped\<close>
  "mappable_kst \<equiv> upd_sb_info 5 (aops_enabled_update (\<lambda>_. 0))
     (upd_lfile 11 (f_op_update (\<lambda>_. Some (foreign_fops [F_mmap]))) mounted_kst)"

lemma mappable_run:
  "\<exists>vma' s'. wrapfs_mmap ram_file 2 demo_vma mappable_kst = Some ((0, vma'), s') \<and>
     lower_vm_ops (finfos s' 6) = Some (foreign_vm_ops 1)"
  by (simp add: wrapfs_mmap_def mmap_install_def link_simps run_simps state_defs VM_SHARED_def VM_WRITE_def
      lower_has_fop_def ram_file_def)

theorem mmap_follows_option_witness:
  "\<exists>vma' s'. wrapfs_mmap ram_file 2 demo_vma mappable_kst = Some ((0, vma'), s') \<and>
     vma_vm_ops vma' = Some wrapfs_vm_ops"
proof -
  obtain vma' s' where r: "wrapfs_mmap ram_file 2 demo_vma mappable_kst = Some ((0, vma'), s')"
    using mappable_run by blast
  have "s_fs_info (sbs mappable_kst (file_sb mappable_kst 2)) = Some 5" by (simp add: state_defs)
  from mmap_follows_option [OF r this] r show ?thesis by auto
qed

text \<open>C28: the fault handler finds what \<open>wrapfs_mmap\<close> prepared: after a mapping that returned 0 on a file
  whose lower handlers were not known before, a fault is answered by the handlers that the lower file
  system put into the mapping, called with the lower file in place of the upper one.\<close>

theorem mmap_then_fault:
  assumes "wrapfs_mmap F fl vma s = Some ((0, vma'), s')"
    and "private_data (files s fl) = Some fi" "lower_vm_ops (finfos s fi) = None"
    and "lower_file (finfos s fi) = Some lf"
    and "lower_mmap F lf vma (low s) = (0, v, l)" and "vma_vm_ops v = Some ops"
    and "vm_file w = Some fl"
  shows "\<exists>s''. wrapfs_fault fault w vmf s' = Some (fst (fault ops (w\<lparr>vm_file := Some lf\<rparr>) vmf (low s')), s'')"
  using assms
  by (auto simp: wrapfs_mmap_def mmap_install_def wrapfs_fault_def link_simps run_simps
      split: Option.bind_split_asm if_split_asm)

theorem mmap_then_fault_witness:
  "\<exists>vma' s' s''. wrapfs_mmap ram_file 2 demo_vma mappable_kst = Some ((0, vma'), s') \<and>
     wrapfs_fault (\<lambda>ops v n l. (if vm_file v = Some 11 then 512 else 0, l)) demo_vma 0 s' = Some (512, s'')"
proof -
  let ?f = "\<lambda>ops v n l. (if vm_file v = Some 11 then 512 else 0 :: int, l :: lower_st)"
  obtain vma' s' where r: "wrapfs_mmap ram_file 2 demo_vma mappable_kst = Some ((0, vma'), s')"
    using mappable_run by blast
  have f: "private_data (files mappable_kst 2) = Some 6" "lower_vm_ops (finfos mappable_kst 6) = None"
    "lower_file (finfos mappable_kst 6) = Some 11"
    "lower_mmap ram_file 11 demo_vma (low mappable_kst)
       = (0, demo_vma\<lparr>vma_vm_ops := Some (foreign_vm_ops 1)\<rparr>, low mappable_kst)"
    by (simp_all add: state_defs ram_file_def)
  from mmap_then_fault [OF r f, of "foreign_vm_ops 1" demo_vma ?f 0] r show ?thesis by auto
qed

text \<open>A shared writable mapping is refused with \<open>-EINVAL\<close>, and nothing changes, when the lower file
  system cannot write back pages.\<close>

theorem mmap_refuses_shared_write:
  assumes "vm_flags vma AND (VM_SHARED OR VM_WRITE) = VM_SHARED OR VM_WRITE"
    and "wrapfs_lower_file s fl = Some (Some lf)"
    and "\<not> has_aop (a_ops (l_inodes (low s) (f_mapping (l_files (low s) lf)))) A_writepage"
  shows "wrapfs_mmap F fl vma s = Some ((- EINVAL, vma), s)"
proof -
  have "vm_flags vma OR (VM_SHARED OR VM_WRITE) = vm_flags vma"
    using assms(1) by (auto simp: bit_eq_iff bit_simps)
  then show ?thesis using assms(2,3) by (simp add: wrapfs_mmap_def or.assoc)
qed

theorem mmap_refuses_shared_write_witness:
  "wrapfs_mmap ram_file 2 (demo_vma\<lparr>vm_flags := 10\<rparr>) mounted_kst
     = Some ((- EINVAL, demo_vma\<lparr>vm_flags := 10\<rparr>), mounted_kst)"
  using mmap_refuses_shared_write [of "demo_vma\<lparr>vm_flags := 10\<rparr>" mounted_kst 2 11 ram_file]
  by (simp add: VM_SHARED_def VM_WRITE_def) (simp add: state_defs)

end
