(* ===== verification/Super.thy ===== *)
theory Super
  imports Wrapfs_H
begin

text \<open>
  \<^verbatim>\<open>super.c\<close>: the operations of the mounted super block, and the cache from which inodes are
  allocated together with their private data.
\<close>

section \<open>Parameters\<close>

record kstatfs =
  f_type :: u32
  f_blocks :: nat
  f_bfree :: nat

text \<open>
  \<open>kmem_cache_create\<close> and the two allocation functions give the address of the new object;
  \<open>inode_init_once\<close> is the constructor of the kernel; \<open>super_magic\<close> is the constant
  \<open>WRAPFS_SUPER_MAGIC\<close> of the patched kernel headers.
\<close>

record super_api =
  kmem_cache_create :: "string \<Rightarrow> kst \<Rightarrow> ptr option"
  kmem_cache_alloc :: "ptr \<Rightarrow> kst \<Rightarrow> ptr option"
  inode_init_once :: "inode \<Rightarrow> inode"
  vfs_statfs :: "path \<Rightarrow> lower_st \<Rightarrow> int \<times> kstatfs"
  lower_umount_begin :: "ptr \<Rightarrow> lower_st \<Rightarrow> lower_st"
  super_magic :: u32

definition MS_RDONLY :: u32 where "MS_RDONLY = 1"
definition MS_MANDLOCK :: u32 where "MS_MANDLOCK = 64"
definition MS_SILENT :: u32 where "MS_SILENT = 32768"

section \<open>Operations\<close>

definition wrapfs_put_super :: "ptr \<Rightarrow> kst \<Rightarrow> kst option" where
  "wrapfs_put_super sb s =
     (case WRAPFS_SB s sb of
        None \<Rightarrow> Some s
      | Some spd \<Rightarrow> do {
          lsb_opt \<leftarrow> wrapfs_lower_super s sb;
          s \<leftarrow> wrapfs_set_lower_super sb None s;
          lsb \<leftarrow> lsb_opt; \<comment> \<open>\<open>&s->s_active\<close>\<close>
          let s = upd_lsb lsb (s_active_update (\<lambda>n. n - 1)) s;
          let s = emit (Sbinfo_free spd) s;
          Some (upd_sb sb (s_fs_info_update (\<lambda>_. None)) s)
        })"

definition wrapfs_statfs :: "super_api \<Rightarrow> ptr \<Rightarrow> kst \<Rightarrow> (int \<times> kstatfs) run" where
  "wrapfs_statfs A dentry s = do {
     (lower_path, s) \<leftarrow> wrapfs_get_lower_path dentry s;
     let (err, buf) = vfs_statfs A lower_path (low s);
     let s = wrapfs_put_lower_path dentry lower_path s;
     Some ((err, buf\<lparr>f_type := super_magic A\<rparr>), s)
   }"

definition wrapfs_remount_fs :: "u32 \<Rightarrow> int" where
  "wrapfs_remount_fs flags =
     (if flags AND NOT (MS_RDONLY OR MS_MANDLOCK OR MS_SILENT) \<noteq> 0 then - EINVAL else 0)"

definition wrapfs_evict_inode :: "ptr \<Rightarrow> kst \<Rightarrow> kst" where
  "wrapfs_evict_inode inode s =
     (let s = emit (Truncate_inode_pages inode) s;
          s = emit (End_writeback inode) s;
          li = wrapfs_lower_inode s inode;
          s = wrapfs_set_lower_inode inode None s
      in emit (Iput li) s)"

definition wrapfs_alloc_inode :: "super_api \<Rightarrow> kst \<Rightarrow> ptr option run" where
  "wrapfs_alloc_inode A s = do {
     cache \<leftarrow> inode_cachep s;
     case kmem_cache_alloc A cache s of
       None \<Rightarrow> Some (None, s)
     | Some i \<Rightarrow> do {
         let s = emit (Inode_alloc i) s;
         let s = upd_iinfo i (\<lambda>x. x\<lparr>ii_lower_file := None, lower_inode := None\<rparr>) s;
         let s = upd_inode i (i_version_update (\<lambda>_. 1)) s;
         Some (Some i, s)
       }
   }"

definition wrapfs_destroy_inode :: "ptr \<Rightarrow> kst \<Rightarrow> kst option" where
  "wrapfs_destroy_inode inode s = do {
     cache \<leftarrow> inode_cachep s;
     Some (emit (Inode_free inode) s)
   }"

definition init_once :: "super_api \<Rightarrow> ptr \<Rightarrow> kst \<Rightarrow> kst" where
  "init_once A obj s = upd_inode obj (inode_init_once A) s"

definition wrapfs_init_inode_cache :: "super_api \<Rightarrow> kst \<Rightarrow> int \<times> kst" where
  "wrapfs_init_inode_cache A s =
     (let c = kmem_cache_create A ''wrapfs_inode_cache'' s;
          s = inode_cachep_update (\<lambda>_. c) s
      in case c of
           None \<Rightarrow> (- ENOMEM, s)
         | Some p \<Rightarrow> (0, emit (Cache_create p) s))"

definition wrapfs_destroy_inode_cache :: "kst \<Rightarrow> kst" where
  "wrapfs_destroy_inode_cache s =
     (case inode_cachep s of None \<Rightarrow> s | Some c \<Rightarrow> emit (Cache_destroy c) s)"

fun has_umount_begin :: "sops \<Rightarrow> bool" where
  "has_umount_begin wrapfs_sops = True"
| "has_umount_begin (foreign_sops b) = b"

definition wrapfs_umount_begin :: "super_api \<Rightarrow> ptr \<Rightarrow> kst \<Rightarrow> kst option" where
  "wrapfs_umount_begin A sb s = do {
     lsb_opt \<leftarrow> wrapfs_lower_super s sb;
     case lsb_opt of
       None \<Rightarrow> Some s
     | Some lsb \<Rightarrow>
         (case s_op (l_sbs (low s) lsb) of
            None \<Rightarrow> Some s
          | Some ops \<Rightarrow>
              if has_umount_begin ops
              then Some (emit (Lower_call ''umount_begin'') (low_update (lower_umount_begin A lsb) s))
              else Some s)
   }"

end
