(* ===== verification/Lookup.thy ===== *)
theory Lookup
  imports Lower_Api Super
begin

text \<open>
  \<^verbatim>\<open>lookup.c\<close>: the private data of dentries, the interposition of an upper inode on a lower one,
  and the lookup of a name in a directory.
\<close>

section \<open>Parameters\<close>

text \<open>
  \<open>iget5_locked\<close> finds the inode of a super block that passes the test or allocates a new one,
  and gives its address and contents.  \<open>vfs_path_lookup\<close> gives a referenced path, \<open>d_lookup\<close> and
  \<open>d_alloc\<close> a referenced dentry of the lower file system.
\<close>

record lookup_api =
  kmem_cache_zalloc :: "ptr \<Rightarrow> kst \<Rightarrow> ptr option"
  iget5_locked :: "ptr \<Rightarrow> nat \<Rightarrow> (wrapfs_inode_info \<Rightarrow> bool) \<Rightarrow> kst \<Rightarrow> (ptr \<times> wrapfs_inode_info) option"
  igrab :: "ptr \<Rightarrow> lower_st \<Rightarrow> bool"
  init_special_inode :: "inode \<Rightarrow> u16 \<Rightarrow> nat \<Rightarrow> inode"
  vfs_path_lookup :: "path \<Rightarrow> string \<Rightarrow> lower_st \<Rightarrow> int \<times> path \<times> lower_st"
  d_lookup :: "ptr \<Rightarrow> string \<Rightarrow> lower_st \<Rightarrow> ptr option"
  d_alloc :: "ptr \<Rightarrow> string \<Rightarrow> lower_st \<Rightarrow> (ptr \<times> lower_st) option"

section \<open>Types of files\<close>

definition S_IFMT :: u16 where "S_IFMT = 0xF000"

definition S_ISDIR :: "u16 \<Rightarrow> bool" where "S_ISDIR m \<longleftrightarrow> m AND S_IFMT = 0x4000"
definition S_ISLNK :: "u16 \<Rightarrow> bool" where "S_ISLNK m \<longleftrightarrow> m AND S_IFMT = 0xA000"
definition S_ISBLK :: "u16 \<Rightarrow> bool" where "S_ISBLK m \<longleftrightarrow> m AND S_IFMT = 0x6000"
definition S_ISCHR :: "u16 \<Rightarrow> bool" where "S_ISCHR m \<longleftrightarrow> m AND S_IFMT = 0x2000"
definition S_ISFIFO :: "u16 \<Rightarrow> bool" where "S_ISFIFO m \<longleftrightarrow> m AND S_IFMT = 0x1000"
definition S_ISSOCK :: "u16 \<Rightarrow> bool" where "S_ISSOCK m \<longleftrightarrow> m AND S_IFMT = 0xC000"

definition LOOKUP_RCU :: u32 where "LOOKUP_RCU = 0x40"
definition LOOKUP_CREATE :: u32 where "LOOKUP_CREATE = 0x200"
definition LOOKUP_RENAME_TARGET :: u32 where "LOOKUP_RENAME_TARGET = 0x800"

section \<open>The dentry cache and private data\<close>

definition wrapfs_init_dentry_cache :: "super_api \<Rightarrow> kst \<Rightarrow> int \<times> kst" where
  "wrapfs_init_dentry_cache A s =
     (let c = kmem_cache_create A ''wrapfs_dentry'' s;
          s = dentry_cachep_update (\<lambda>_. c) s
      in case c of
           None \<Rightarrow> (- ENOMEM, s)
         | Some p \<Rightarrow> (0, emit (Cache_create p) s))"

definition wrapfs_destroy_dentry_cache :: "kst \<Rightarrow> kst" where
  "wrapfs_destroy_dentry_cache s =
     (case dentry_cachep s of None \<Rightarrow> s | Some c \<Rightarrow> emit (Cache_destroy c) s)"

definition free_dentry_private_data :: "ptr option \<Rightarrow> kst \<Rightarrow> kst" where
  "free_dentry_private_data dentry s =
     (case dentry of
        None \<Rightarrow> s
      | Some d \<Rightarrow>
          (case d_fsdata (dentries s d) of
             None \<Rightarrow> s
           | Some info \<Rightarrow>
               (let s = emit (Dinfo_free info) s
                in upd_dentry d (d_fsdata_update (\<lambda>_. None)) s)))"

definition new_dentry_private_data :: "lookup_api \<Rightarrow> ptr \<Rightarrow> kst \<Rightarrow> int run" where
  "new_dentry_private_data L dentry s = do {
     cache \<leftarrow> dentry_cachep s;
     case kmem_cache_zalloc L cache s of
       None \<Rightarrow> Some (- ENOMEM, s)
     | Some info \<Rightarrow> do {
         let s = emit (Dinfo_alloc info) s;
         let s = upd_dinfo info (\<lambda>_. \<lparr>lower_path = null_path\<rparr>) s;
         Some (0, upd_dentry dentry (d_fsdata_update (\<lambda>_. Some info)) s)
       }
   }"

section \<open>Interposition\<close>

definition wrapfs_inode_test :: "ptr \<Rightarrow> wrapfs_inode_info \<Rightarrow> bool" where
  "wrapfs_inode_test candidate_lower_inode info \<longleftrightarrow> lower_inode info = Some candidate_lower_inode"

text \<open>The choice of the operation vectors by the type of the lower inode.\<close>

definition iget_select_ops :: "ptr \<Rightarrow> ptr \<Rightarrow> u16 \<Rightarrow> kst \<Rightarrow> kst option" where
  "iget_select_ops sb inode mode s = do {
     let s = upd_inode inode
       (if S_ISDIR mode then i_op_update (\<lambda>_. Some wrapfs_dir_iops)
        else if S_ISLNK mode then i_op_update (\<lambda>_. Some wrapfs_symlink_iops)
        else i_op_update (\<lambda>_. Some wrapfs_main_iops)) s;
     if S_ISDIR mode then Some (upd_inode inode (i_fop_update (\<lambda>_. Some wrapfs_dir_fops)) s)
     else do {
       sbi \<leftarrow> WRAPFS_SB s sb;
       let s =
         (if aops_enabled (sb_infos s sbi) \<noteq> 0
          then upd_inode inode (i_fop_update (\<lambda>_. Some wrapfs_mmap_fops)) s
          else upd_inode inode (i_fop_update (\<lambda>_. Some wrapfs_main_fops)) s);
       Some (if aops_enabled (sb_infos s sbi) \<noteq> 0
             then upd_inode inode (a_ops_update (\<lambda>_. wrapfs_aops)) s
             else upd_inode inode (a_ops_update (\<lambda>_. wrapfs_aops_null)) s)
     }
   }"

text \<open>From \<open>wrapfs_set_lower_inode\<close> to \<open>unlock_new_inode\<close>.\<close>

definition iget_init :: "vfs_api \<Rightarrow> lookup_api \<Rightarrow> ptr \<Rightarrow> ptr \<Rightarrow> ptr \<Rightarrow> kst \<Rightarrow> kst option" where
  "iget_init V L sb inode li s = do {
     let lo = l_inodes (low s) li;
     let s = wrapfs_set_lower_inode inode (Some li) s;
     let s = upd_inode inode (i_version_update Suc) s;
     s \<leftarrow> iget_select_ops sb inode (i_mode lo) s;
     let s = upd_inode inode (\<lambda>x. x\<lparr>i_atime := (0, 0), i_mtime := (0, 0), i_ctime := (0, 0)\<rparr>) s;
     let s = upd_inode inode
       (\<lambda>x. if S_ISBLK (i_mode lo) \<or> S_ISCHR (i_mode lo) \<or> S_ISFIFO (i_mode lo) \<or> S_ISSOCK (i_mode lo)
            then init_special_inode L x (i_mode lo) (i_rdev lo) else x) s;
     let s = upd_inode inode (\<lambda>x. fsstack_copy_attr_all V x lo) s;
     let s = upd_inode inode (\<lambda>x. fsstack_copy_inode_size V x lo) s;
     Some (upd_inode inode (i_new_update (\<lambda>_. False)) s) \<comment> \<open>\<open>unlock_new_inode\<close>\<close>
   }"

definition wrapfs_iget :: "vfs_api \<Rightarrow> lookup_api \<Rightarrow> ptr \<Rightarrow> ptr \<Rightarrow> kst \<Rightarrow> ptr eptr run" where
  "wrapfs_iget V L sb li s =
     (case iget5_locked L sb (i_ino (l_inodes (low s) li)) (wrapfs_inode_test li) s of
        None \<Rightarrow> Some (ErrPtr (- EACCES), emit (Iput (Some li)) s)
      | Some (inode, info) \<Rightarrow>
          (let s = emit (Iget_up inode) (upd_iinfo inode (\<lambda>_. info) s) in
           if \<not> i_new (vfs_inode (inodes s inode)) then Some (Ptr inode, s)
           else do {
             let s = upd_inode inode (i_ino_update (\<lambda>_. i_ino (l_inodes (low s) li))) s;
             if \<not> igrab L li (low s) then Some (ErrPtr (- ESTALE), s)
             else do {
               s \<leftarrow> iget_init V L sb inode li (emit (Igrab li) s);
               Some (Ptr inode, s)
             }
           }))"

definition wrapfs_interpose :: "vfs_api \<Rightarrow> lookup_api \<Rightarrow> ptr \<Rightarrow> ptr \<Rightarrow> path \<Rightarrow> kst \<Rightarrow> int run" where
  "wrapfs_interpose V L dentry sb lp s = do {
     ld \<leftarrow> p_dentry lp;
     let li_opt = d_inode (l_dentries (low s) ld);
     lower_sb \<leftarrow> wrapfs_lower_super s sb;
     li \<leftarrow> li_opt;
     if Some (i_sb (l_inodes (low s) li)) \<noteq> lower_sb then Some (- EXDEV, s)
     else do {
       (r, s) \<leftarrow> wrapfs_iget V L sb li s;
       case r of
         ErrPtr e \<Rightarrow> Some (e, s)
       | Ptr inode \<Rightarrow>
           Some (0, upd_dentry dentry (\<lambda>d. d\<lparr>d_inode := Some inode, d_unhashed := False\<rparr>) s) \<comment> \<open>\<open>d_add\<close>\<close>
     }
   }"

section \<open>Lookup\<close>

text \<open>
  From \<open>setup_lower\<close> to the end.  The reference to the lower dentry and the one that \<open>mntget\<close> takes
  are together a reference to the path.
\<close>

definition lookup_setup_lower :: "ptr \<Rightarrow> u32 \<Rightarrow> ptr \<Rightarrow> ptr option \<Rightarrow> int \<Rightarrow> kst \<Rightarrow> int run" where
  "lookup_setup_lower dentry flags ld mnt err s = do {
     let lower_path = \<lparr>p_dentry = Some ld, p_mnt = mnt\<rparr>;
     let s = emit (Path_get lower_path) s;
     s \<leftarrow> wrapfs_set_lower_path dentry lower_path s;
     Some (if flags AND (LOOKUP_CREATE OR LOOKUP_RENAME_TARGET) \<noteq> 0 then 0 else err, s)
   }"

text \<open>The result is the argument of \<open>ERR_PTR\<close>: 0 stands for \<open>NULL\<close>.\<close>

definition wrapfs_lookup_lower ::
  "vfs_api \<Rightarrow> lookup_api \<Rightarrow> ptr \<Rightarrow> u32 \<Rightarrow> path \<Rightarrow> kst \<Rightarrow> int run" where
  "wrapfs_lookup_lower V L dentry flags lower_parent_path s = do {
     let s = upd_dentry dentry (d_op_update (\<lambda>_. Some wrapfs_dops)) s;
     if d_parent (dentries s dentry) = dentry then Some (0, s) \<comment> \<open>\<open>IS_ROOT\<close>\<close>
     else do {
       let name = d_name (dentries s dentry);
       let (err, lower_path, l) = vfs_path_lookup L lower_parent_path name (low s);
       let s = low_update (\<lambda>_. l) s;
       if err = 0 then do {
         let s = emit (Path_get lower_path) s;
         s \<leftarrow> wrapfs_set_lower_path dentry lower_path s;
         (err, s) \<leftarrow> wrapfs_interpose V L dentry (d_sb (dentries s dentry)) lower_path s;
         if err \<noteq> 0 then do {
           s \<leftarrow> wrapfs_put_reset_lower_path dentry s;
           Some (err, s)
         }
         else Some (0, s)
       }
       else if err \<noteq> - ENOENT then Some (err, s)
       else do {
         lower_dir_dentry \<leftarrow> p_dentry lower_parent_path;
         case d_lookup L lower_dir_dentry name (low s) of
           Some ld \<Rightarrow> lookup_setup_lower dentry flags ld (p_mnt lower_parent_path) err s
         | None \<Rightarrow>
             (case d_alloc L lower_dir_dentry name (low s) of
                None \<Rightarrow> Some (- ENOMEM, s)
              | Some (ld, l) \<Rightarrow> do {
                  let s = low_update (\<lambda>_. l) s;
                  let s = low_update (l_dentries_update
                    (\<lambda>h. h(ld := (h ld)\<lparr>d_inode := None, d_unhashed := False\<rparr>))) s; \<comment> \<open>\<open>d_add\<close>\<close>
                  lookup_setup_lower dentry flags ld (p_mnt lower_parent_path) err s
                })
       }
     }
   }"

text \<open>The attribute updates of \<open>wrapfs_lookup\<close> after a lookup without error.\<close>

definition lookup_attrs :: "vfs_api \<Rightarrow> ptr \<Rightarrow> ptr \<Rightarrow> kst \<Rightarrow> kst option" where
  "lookup_attrs V dentry parent s = do {
     s \<leftarrow>
       (case d_inode (dentries s dentry) of
          None \<Rightarrow> Some s
        | Some i \<Rightarrow> do {
            li \<leftarrow> wrapfs_lower_inode s i;
            Some (upd_inode i (\<lambda>x. fsstack_copy_attr_times V x (l_inodes (low s) li)) s)
          });
     pi \<leftarrow> d_inode (dentries s parent);
     pli \<leftarrow> wrapfs_lower_inode s pi;
     Some (upd_inode pi (\<lambda>x. fsstack_copy_attr_atime V x (l_inodes (low s) pli)) s)
   }"

definition wrapfs_lookup :: "vfs_api \<Rightarrow> lookup_api \<Rightarrow> ptr \<Rightarrow> u32 option \<Rightarrow> kst \<Rightarrow> int run" where
  "wrapfs_lookup V L dentry nd_flags s = do {
     flags \<leftarrow> nd_flags; \<comment> \<open>\<open>BUG_ON(!nd)\<close>\<close>
     let parent = d_parent (dentries s dentry);
     let s = emit (Dget_up parent) s;
     (lower_parent_path, s) \<leftarrow> wrapfs_get_lower_path parent s;
     (err, s) \<leftarrow> new_dentry_private_data L dentry s;
     (ret, s) \<leftarrow> (if err \<noteq> 0 then Some (err, s)
                  else wrapfs_lookup_lower V L dentry flags lower_parent_path s);
     s \<leftarrow> (if ret \<noteq> 0 then Some s else lookup_attrs V dentry parent s);
     let s = wrapfs_put_lower_path parent lower_parent_path s;
     Some (ret, emit (Dput_up parent) s)
   }"

section \<open>Lemmas\<close>

text \<open>
  What \<open>iget5_locked\<close> documents: the inode is new and locked, or one that is in the cache and passes
  the test.
\<close>

definition iget_law :: "lookup_api \<Rightarrow> bool" where
  "iget_law L \<longleftrightarrow> (\<forall>sb h t s p info. iget5_locked L sb h t s = Some (p, info) \<longrightarrow>
     i_new (vfs_inode info) \<or> \<not> i_new (vfs_inode info) \<and> info = inodes s p \<and> t info)"

text \<open>Objects that interposition does not touch, and resources it does not count.\<close>

definition iget_frame :: "kst \<Rightarrow> kst \<Rightarrow> bool" where
  "iget_frame s s' \<longleftrightarrow> dentries s' = dentries s \<and> dinfos s' = dinfos s \<and> low s' = low s \<and> sbs s' = sbs s \<and>
     sb_infos s' = sb_infos s \<and> files s' = files s \<and> finfos s' = finfos s \<and> pages s' = pages s \<and>
     bufs s' = bufs s \<and>
     (\<forall>x. (\<forall>p. x \<noteq> R_inode p \<and> x \<noteq> R_up_inode p) \<longrightarrow> held x (log s') = held x (log s))"

lemma select_ops_Some:
  assumes "iget_select_ops sb inode mode s = Some s'"
  shows "\<exists>f. s' = upd_inode inode f s \<and> (\<forall>x. i_op (f x) = Some
     (if S_ISDIR mode then wrapfs_dir_iops else if S_ISLNK mode then wrapfs_symlink_iops else wrapfs_main_iops) \<and>
     i_ino (f x) = i_ino x \<and>
     (S_ISDIR mode \<longrightarrow> i_fop (f x) = Some wrapfs_dir_fops) \<and>
     (\<not> S_ISDIR mode \<longrightarrow> (\<exists>p. s_fs_info (sbs s sb) = Some p \<and>
        i_fop (f x) = Some (if aops_enabled (sb_infos s p) \<noteq> 0 then wrapfs_mmap_fops else wrapfs_main_fops) \<and>
        a_ops (f x) = (if aops_enabled (sb_infos s p) \<noteq> 0 then wrapfs_aops else wrapfs_aops_null))))"
proof -
  let ?f = "\<lambda>x p. (if S_ISDIR mode then x\<lparr>i_op := Some wrapfs_dir_iops, i_fop := Some wrapfs_dir_fops\<rparr>
    else x\<lparr>i_op := Some (if S_ISLNK mode then wrapfs_symlink_iops else wrapfs_main_iops),
           i_fop := Some (if aops_enabled (sb_infos s p) \<noteq> 0 then wrapfs_mmap_fops else wrapfs_main_fops),
           a_ops := (if aops_enabled (sb_infos s p) \<noteq> 0 then wrapfs_aops else wrapfs_aops_null)\<rparr>)"
  obtain p where "s' = upd_inode inode (\<lambda>x. ?f x p) s" "\<not> S_ISDIR mode \<longrightarrow> s_fs_info (sbs s sb) = Some p"
    using assms
    by (cases "S_ISDIR mode") (auto simp: iget_select_ops_def run_simps bind_Some_iff link_simps)
  then show ?thesis by (intro exI [of _ "\<lambda>x. ?f x p"]) auto
qed

text \<open>\<open>init_special_inode\<close> sets the type, the device and the file operations of an inode, nothing else.\<close>

definition special_law :: "lookup_api \<Rightarrow> bool" where
  "special_law L \<longleftrightarrow> (\<forall>x m d. i_op (init_special_inode L x m d) = i_op x \<and>
     i_ino (init_special_inode L x m d) = i_ino x \<and> a_ops (init_special_inode L x m d) = a_ops x)"

abbreviation special_mode :: "u16 \<Rightarrow> bool" where
  "special_mode m \<equiv> S_ISBLK m \<or> S_ISCHR m \<or> S_ISFIFO m \<or> S_ISSOCK m"

text \<open>The inode \<open>x\<close> of the super block private data \<open>p\<close> stands for the lower inode \<open>lo\<close>.\<close>

definition mirrors :: "wrapfs_sb_info option \<Rightarrow> inode \<Rightarrow> inode \<Rightarrow> bool" where
  "mirrors p x lo \<longleftrightarrow> i_mode x = i_mode lo \<and> i_size x = i_size lo \<and> i_nlink x = i_nlink lo \<and> i_rdev x = i_rdev lo \<and>
     i_atime x = i_atime lo \<and> i_mtime x = i_mtime lo \<and> i_ctime x = i_ctime lo \<and> i_ino x = i_ino lo \<and>
     i_op x = Some (if S_ISDIR (i_mode lo) then wrapfs_dir_iops
       else if S_ISLNK (i_mode lo) then wrapfs_symlink_iops else wrapfs_main_iops) \<and>
     (\<not> special_mode (i_mode lo) \<longrightarrow>
       i_fop x = Some (if S_ISDIR (i_mode lo) then wrapfs_dir_fops
         else case p of None \<Rightarrow> wrapfs_main_fops
              | Some q \<Rightarrow> if aops_enabled q \<noteq> 0 then wrapfs_mmap_fops else wrapfs_main_fops)) \<and>
     (\<not> S_ISDIR (i_mode lo) \<longrightarrow>
       a_ops x = (case p of None \<Rightarrow> wrapfs_aops_null
         | Some q \<Rightarrow> if aops_enabled q \<noteq> 0 then wrapfs_aops else wrapfs_aops_null))"

lemma iget_init_Some:
  assumes init: "iget_init V L sb inode li s = Some s'"
  shows "\<exists>g. s' = upd_iinfo inode g s" "lower_inode (inodes s' inode) = Some li"
    "\<not> i_new (vfs_inode (inodes s' inode))"
    "fsstack_laws V \<Longrightarrow> special_law L \<Longrightarrow> i_ino (vfs_inode (inodes s inode)) = i_ino (l_inodes (low s) li) \<Longrightarrow>
       mirrors (map_option (sb_infos s) (s_fs_info (sbs s sb))) (vfs_inode (inodes s' inode)) (l_inodes (low s) li)"
proof -
  let ?lo = "l_inodes (low s) li"
  let ?s1 = "upd_inode inode (i_version_update Suc) (wrapfs_set_lower_inode inode (Some li) s)"
  from init obtain s2 where s2: "iget_select_ops sb inode (i_mode ?lo) ?s1 = Some s2"
    by (auto simp: iget_init_def run_simps bind_Some_iff link_simps)
  have e: "sbs ?s1 = sbs s" "sb_infos ?s1 = sb_infos s" by (simp_all add: link_simps)
  note sel = select_ops_Some [OF s2, unfolded e]
  then obtain f where f: "s2 = upd_inode inode f ?s1"
    and ops: "\<And>x. i_op (f x) = Some (if S_ISDIR (i_mode ?lo) then wrapfs_dir_iops
        else if S_ISLNK (i_mode ?lo) then wrapfs_symlink_iops else wrapfs_main_iops)"
      "\<And>x. i_ino (f x) = i_ino x"
      "\<And>x. S_ISDIR (i_mode ?lo) \<Longrightarrow> i_fop (f x) = Some wrapfs_dir_fops"
      "\<And>x. \<not> S_ISDIR (i_mode ?lo) \<Longrightarrow> \<exists>p. s_fs_info (sbs s sb) = Some p \<and>
        i_fop (f x) = Some (if aops_enabled (sb_infos s p) \<noteq> 0 then wrapfs_mmap_fops else wrapfs_main_fops) \<and>
        a_ops (f x) = (if aops_enabled (sb_infos s p) \<noteq> 0 then wrapfs_aops else wrapfs_aops_null)"
    by blast
  let ?h = "\<lambda>x. let x = (f x)\<lparr>i_atime := (0, 0), i_mtime := (0, 0), i_ctime := (0, 0)\<rparr>;
       x = (if special_mode (i_mode ?lo) then init_special_inode L x (i_mode ?lo) (i_rdev ?lo) else x)
     in (fsstack_copy_inode_size V (fsstack_copy_attr_all V x ?lo) ?lo)\<lparr>i_new := False\<rparr>"
  have s': "s' = upd_iinfo inode
      (\<lambda>x. vfs_inode_update (\<lambda>y. ?h (i_version_update Suc y)) (x\<lparr>lower_inode := Some li\<rparr>)) s"
    using init s2 f by (auto simp: iget_init_def run_simps link_simps)
  show "\<exists>g. s' = upd_iinfo inode g s" unfolding s' by (rule exI) (rule refl)
  from s' show "lower_inode (inodes s' inode) = Some li" "\<not> i_new (vfs_inode (inodes s' inode))"
    by (simp_all add: Let_def)
  assume laws: "fsstack_laws V" "special_law L" and ino: "i_ino (vfs_inode (inodes s inode)) = i_ino ?lo"
  have dir: "S_ISDIR m \<Longrightarrow> \<not> special_mode m" for m
    by (auto simp: S_ISDIR_def S_ISBLK_def S_ISCHR_def S_ISFIFO_def S_ISSOCK_def)
  show "mirrors (map_option (sb_infos s) (s_fs_info (sbs s sb))) (vfs_inode (inodes s' inode)) ?lo"
    using laws ino ops(1-3) ops(4) [of "i_version_update Suc (vfs_inode (inodes s inode))"] dir [of "i_mode ?lo"]
    unfolding s' mirrors_def fsstack_laws_def special_law_def Let_def by auto
qed

text \<open>The four ways through \<open>wrapfs_iget\<close>: no inode, a cached one, a dying lower inode, a new one.\<close>

lemma iget_cases:
  assumes "wrapfs_iget V L sb li s = Some (r, s')"
  obtains (none) "iget5_locked L sb (i_ino (l_inodes (low s) li)) (wrapfs_inode_test li) s = None"
      "r = ErrPtr (- EACCES)" "s' = emit (Iput (Some li)) s"
    | (cached) inode info where
      "iget5_locked L sb (i_ino (l_inodes (low s) li)) (wrapfs_inode_test li) s = Some (inode, info)"
      "\<not> i_new (vfs_inode info)" "r = Ptr inode" "s' = emit (Iget_up inode) (upd_iinfo inode (\<lambda>_. info) s)"
    | (stale) inode info where
      "iget5_locked L sb (i_ino (l_inodes (low s) li)) (wrapfs_inode_test li) s = Some (inode, info)"
      "i_new (vfs_inode info)" "\<not> igrab L li (low s)" "r = ErrPtr (- ESTALE)"
      "s' = upd_inode inode (i_ino_update (\<lambda>_. i_ino (l_inodes (low s) li)))
         (emit (Iget_up inode) (upd_iinfo inode (\<lambda>_. info) s))"
    | (fresh) inode info where
      "iget5_locked L sb (i_ino (l_inodes (low s) li)) (wrapfs_inode_test li) s = Some (inode, info)"
      "i_new (vfs_inode info)" "igrab L li (low s)" "r = Ptr inode"
      "iget_init V L sb inode li (emit (Igrab li) (upd_inode inode (i_ino_update (\<lambda>_. i_ino (l_inodes (low s) li)))
         (emit (Iget_up inode) (upd_iinfo inode (\<lambda>_. info) s)))) = Some s'"
proof (cases "iget5_locked L sb (i_ino (l_inodes (low s) li)) (wrapfs_inode_test li) s")
  case None
  with assms none show ?thesis by (simp add: wrapfs_iget_def)
next
  case (Some a)
  obtain inode info where a: "a = (inode, info)" by fastforce
  consider "\<not> i_new (vfs_inode info)" | "i_new (vfs_inode info)" "\<not> igrab L li (low s)"
    | "i_new (vfs_inode info)" "igrab L li (low s)" by blast
  then show ?thesis
  proof cases
    case 1
    with Some a assms cached show ?thesis by (simp add: wrapfs_iget_def)
  next
    case 2
    with Some a assms show ?thesis
      by (intro stale [of inode info]) (auto simp: wrapfs_iget_def Let_def)
  next
    case 3
    with Some a assms show ?thesis
      by (intro fresh [of inode info]) (auto simp: wrapfs_iget_def Let_def bind_Some_iff)
  qed
qed

lemma iget_keeps:
  assumes "wrapfs_iget V L sb li s = Some (r, s')"
  shows "iget_frame s s'"
  using assms
proof (cases rule: iget_cases)
  case (fresh inode info)
  from iget_init_Some(1) [OF fresh(5)] obtain g where "s' = upd_iinfo inode g (emit (Igrab li)
      (upd_inode inode (i_ino_update (\<lambda>_. i_ino (l_inodes (low s) li)))
         (emit (Iget_up inode) (upd_iinfo inode (\<lambda>_. info) s))))" ..
  then show ?thesis by (simp add: iget_frame_def held_simps)
qed (auto simp: iget_frame_def held_simps)

lemma iget_linked:
  assumes "iget_law L" and "wrapfs_iget V L sb li s = Some (Ptr inode, s')"
  shows "lower_inode (inodes s' inode) = Some li \<and> \<not> i_new (vfs_inode (inodes s' inode))"
  using assms(2)
proof (cases rule: iget_cases)
  case (cached i info)
  with assms(1) show ?thesis by (force simp: iget_law_def wrapfs_inode_test_def)
next
  case (fresh i info)
  with iget_init_Some(2,3) [OF fresh(5)] show ?thesis by simp
qed simp_all

text \<open>Interposition succeeds on a mounted super block when an inode and the lower reference can be had.\<close>

lemma iget_total:
  assumes "iget5_locked L sb (i_ino (l_inodes (low s) li)) (wrapfs_inode_test li) s = Some (inode, info)"
    and "s_fs_info (sbs s sb) = Some p" and "igrab L li (low s)"
  shows "\<exists>s'. wrapfs_iget V L sb li s = Some (Ptr inode, s')"
proof -
  have "\<exists>s'. iget_init V L sb inode li t = Some s'" if "sbs t = sbs s" for t
    using that assms(2) by (simp add: iget_init_def iget_select_ops_def link_simps Let_def)
  then show ?thesis using assms by (auto simp: wrapfs_iget_def Let_def bind_Some_iff)
qed

lemma interpose_cases:
  assumes "wrapfs_interpose V L dentry sb lp s = Some (err, s')"
  obtains (crossed) ld li lsb where "p_dentry lp = Some ld" "d_inode (l_dentries (low s) ld) = Some li"
      "wrapfs_lower_super s sb = Some lsb"
      "Some (i_sb (l_inodes (low s) li)) \<noteq> lsb" "err = - EXDEV" "s' = s"
    | (failed) ld li where "p_dentry lp = Some ld" "d_inode (l_dentries (low s) ld) = Some li"
      "wrapfs_iget V L sb li s = Some (ErrPtr err, s')"
    | (linked) ld li inode s1 where "p_dentry lp = Some ld" "d_inode (l_dentries (low s) ld) = Some li"
      "wrapfs_lower_super s sb = Some (Some (i_sb (l_inodes (low s) li)))"
      "wrapfs_iget V L sb li s = Some (Ptr inode, s1)" "err = 0"
      "s' = upd_dentry dentry (\<lambda>d. d\<lparr>d_inode := Some inode, d_unhashed := False\<rparr>) s1"
proof -
  from assms obtain ld li lsb where l: "p_dentry lp = Some ld" "d_inode (l_dentries (low s) ld) = Some li"
    "wrapfs_lower_super s sb = Some lsb"
    unfolding wrapfs_interpose_def Let_def by (auto simp: bind_Some_iff)
  show ?thesis
  proof (cases "Some (i_sb (l_inodes (low s) li)) = lsb")
    case False
    with l assms show ?thesis by (intro crossed [of ld li lsb]) (simp_all add: wrapfs_interpose_def)
  next
    case True
    with l assms obtain r s1 where i: "wrapfs_iget V L sb li s = Some (r, s1)"
      by (auto simp: wrapfs_interpose_def bind_Some_iff)
    show ?thesis
    proof (cases r)
      case (ErrPtr e)
      with True l assms i show ?thesis by (intro failed [of ld li]) (simp_all add: wrapfs_interpose_def)
    next
      case (Ptr inode)
      with True l assms i show ?thesis
        by (intro linked [of ld li inode s1]) (simp_all add: wrapfs_interpose_def)
    qed
  qed
qed

text \<open>Interposition leaves paths and private data alone.\<close>

lemma interpose_keeps:
  assumes "wrapfs_interpose V L dentry sb lp s = Some (err, s')"
  shows "dinfos s' = dinfos s" "d_fsdata (dentries s' d) = d_fsdata (dentries s d)" "low s' = low s"
    "\<forall>p. x \<noteq> R_inode p \<and> x \<noteq> R_up_inode p \<Longrightarrow> held x (log s') = held x (log s)"
proof -
  have "dinfos s' = dinfos s \<and> d_fsdata (dentries s' d) = d_fsdata (dentries s d) \<and> low s' = low s \<and>
    ((\<forall>p. x \<noteq> R_inode p \<and> x \<noteq> R_up_inode p) \<longrightarrow> held x (log s') = held x (log s))"
    using assms
  proof (cases rule: interpose_cases)
    case (failed ld li)
    from iget_keeps [OF failed(3)] show ?thesis by (simp add: iget_frame_def)
  next
    case (linked ld li inode s1)
    with iget_keeps [OF linked(4)] show ?thesis by (simp add: iget_frame_def)
  qed simp
  then show "dinfos s' = dinfos s" "d_fsdata (dentries s' d) = d_fsdata (dentries s d)" "low s' = low s"
    "\<forall>p. x \<noteq> R_inode p \<and> x \<noteq> R_up_inode p \<Longrightarrow> held x (log s') = held x (log s)"
    by blast+
qed

text \<open>
  The books of a lookup: the private data of the dentry holds one reference to the lower path that
  is stored in it, and apart from inodes nothing else is held.
\<close>

definition path_account :: "ptr \<Rightarrow> ptr \<Rightarrow> kst \<Rightarrow> kst \<Rightarrow> bool" where
  "path_account dentry info s s' \<longleftrightarrow> d_fsdata (dentries s' dentry) = Some info \<and>
     (\<forall>p. p \<noteq> null_path \<longrightarrow> held (R_path p) (log s') =
        held (R_path p) (log s) + (if lower_path (dinfos s' info) = p then 1 else 0)) \<and>
     (\<forall>x. (\<forall>p q. x \<noteq> R_path p \<and> x \<noteq> R_inode q \<and> x \<noteq> R_up_inode q) \<longrightarrow>
        held x (log s') = held x (log s))"

lemma setup_lower_account:
  assumes "lookup_setup_lower dentry flags ld mnt err s = Some (r, s')"
    and "d_fsdata (dentries s dentry) = Some info"
  shows "path_account dentry info s s'"
  using assms
  by (auto simp: lookup_setup_lower_def Let_def set_lower_path_Some bind_Some_iff link_simps path_account_def
      held_simps)

lemma path_account_start: "path_account dentry info t s' \<Longrightarrow> log t = log s \<Longrightarrow> path_account dentry info s s'"
  by (simp add: path_account_def)

lemma lookup_found_account:
  assumes "wrapfs_set_lower_path dentry lp (emit (Path_get lp) s) = Some s1"
    and "wrapfs_interpose V L dentry sb lp s1 = Some (err, s2)"
    and "(if err \<noteq> 0 then wrapfs_put_reset_lower_path dentry s2 else Some s2) = Some s'"
    and "d_fsdata (dentries s dentry) = Some info"
  shows "path_account dentry info s s'"
proof -
  note k = interpose_keeps [OF assms(2)]
  have s1: "d_fsdata (dentries s1 dentry) = Some info" "lower_path (dinfos s1 info) = lp"
    "\<forall>x. held x (log s1) = held x (log s) + (if x = R_path lp then 1 else 0)"
    using assms(1,4) by (auto simp: set_lower_path_Some link_simps held_simps)
  have s2: "d_fsdata (dentries s2 dentry) = Some info" "lower_path (dinfos s2 info) = lp"
    "held (R_path p) (log s2) = held (R_path p) (log s) + (if p = lp then 1 else 0)" for p
    using s1 k by simp_all
  have o': "held x (log s2) = held x (log s)" if "\<forall>p q. x \<noteq> R_path p \<and> x \<noteq> R_inode q \<and> x \<noteq> R_up_inode q" for x
    using that k(4) [of x] s1(3) by auto
  show ?thesis
    using assms(3) s2 o'
    by (auto simp: path_account_def put_reset_lower_path_Some link_simps held_simps split: if_splits)
qed

lemma lookup_lower_account:
  assumes run: "wrapfs_lookup_lower V L dentry flags pp s = Some (ret, s')"
    and info: "d_fsdata (dentries s dentry) = Some info" "lower_path (dinfos s info) = null_path"
  shows "path_account dentry info s s'"
proof (cases "d_parent (dentries s dentry) = dentry")
  case True
  with run info show ?thesis by (auto simp: wrapfs_lookup_lower_def path_account_def)
next
  case False
  obtain err lp l where v: "vfs_path_lookup L pp (d_name (dentries s dentry)) (low s) = (err, lp, l)"
    by (cases "vfs_path_lookup L pp (d_name (dentries s dentry)) (low s)") auto
  define s0 where "s0 = low_update (\<lambda>_. l) (upd_dentry dentry (d_op_update (\<lambda>_. Some wrapfs_dops)) s)"
  have s0: "d_fsdata (dentries s0 dentry) = Some info" "log s0 = log s" "dinfos s0 = dinfos s"
    "d_sb (dentries s0 dentry) = d_sb (dentries s dentry)"
    using info(1) by (simp_all add: s0_def)
  consider "err = 0" | "err \<noteq> 0" "err \<noteq> - ENOENT" | "err = - ENOENT" by blast
  then show ?thesis
  proof cases
    case 1
    with run False v obtain s1 s2 e where f: "wrapfs_set_lower_path dentry lp (emit (Path_get lp) s0) = Some s1"
      "wrapfs_interpose V L dentry (d_sb (dentries s1 dentry)) lp s1 = Some (e, s2)"
      "(if e \<noteq> 0 then wrapfs_put_reset_lower_path dentry s2 else Some s2) = Some s'"
      by (auto simp: wrapfs_lookup_lower_def Let_def s0_def bind_Some_iff split: if_splits)
    from lookup_found_account [OF f s0(1)] show ?thesis by (rule path_account_start) (rule s0(2))
  next
    case 2
    with run False v info show ?thesis
      by (auto simp: wrapfs_lookup_lower_def Let_def path_account_def)
  next
    case 3
    with run False v obtain ldd where ldd: "p_dentry pp = Some ldd"
      by (auto simp: wrapfs_lookup_lower_def Let_def bind_Some_iff)
    let ?name = "d_name (dentries s dentry)"
    show ?thesis
    proof (cases "d_lookup L ldd ?name l")
      case (Some ld)
      with 3 run False v ldd have "lookup_setup_lower dentry flags ld (p_mnt pp) err s0 = Some (ret, s')"
        by (simp add: wrapfs_lookup_lower_def Let_def s0_def)
      from setup_lower_account [OF this s0(1)] show ?thesis by (rule path_account_start) (rule s0(2))
    next
      case None
      show ?thesis
      proof (cases "d_alloc L ldd ?name l")
        case al: None
        with 3 run False v ldd None info show ?thesis
          by (auto simp: wrapfs_lookup_lower_def Let_def path_account_def)
      next
        case (Some a)
        obtain ld l' where a: "a = (ld, l')" by fastforce
        define s3 where "s3 = low_update (l_dentries_update
          (\<lambda>h. h(ld := (h ld)\<lparr>d_inode := None, d_unhashed := False\<rparr>))) (low_update (\<lambda>_. l') s0)"
        have s3: "d_fsdata (dentries s3 dentry) = Some info" "log s3 = log s"
          using s0 by (simp_all add: s3_def)
        from Some a 3 run False v ldd None have "lookup_setup_lower dentry flags ld (p_mnt pp) err s3 = Some (ret, s')"
          by (simp add: wrapfs_lookup_lower_def Let_def s0_def s3_def)
        from setup_lower_account [OF this s3(1)] show ?thesis by (rule path_account_start) (rule s3(2))
      qed
    qed
  qed
qed

lemma lookup_attrs_keeps:
  assumes "lookup_attrs V dentry parent s = Some s'"
  shows "dentries s' = dentries s" "dinfos s' = dinfos s" "log s' = log s" "low s' = low s"
    "lower_inode (inodes s' i) = lower_inode (inodes s i)"
  using assms by (auto simp: lookup_attrs_def bind_Some_iff link_simps split: option.splits)

text \<open>
  After a lookup either the private data could not be allocated and nothing is held, or it was, and
  the books are as after a successful allocation.
\<close>

lemma lookup_account:
  assumes run: "wrapfs_lookup V L dentry nd s = Some (ret, s')" and fresh: "d_fsdata (dentries s dentry) = None"
  shows "ret = - ENOMEM \<and> d_fsdata (dentries s' dentry) = None \<and> (\<forall>x. held x (log s') = held x (log s)) \<or>
    (\<exists>info. d_fsdata (dentries s' dentry) = Some info \<and>
      (\<forall>p. p \<noteq> null_path \<longrightarrow> held (R_path p) (log s') =
        held (R_path p) (log s) + (if lower_path (dinfos s' info) = p then 1 else 0)) \<and>
      (\<forall>x. (\<forall>p q. x \<noteq> R_path p \<and> x \<noteq> R_inode q \<and> x \<noteq> R_up_inode q) \<longrightarrow>
        held x (log s') = held x (log s) + (if x = R_dinfo info then 1 else 0)))"
proof -
  let ?parent = "d_parent (dentries s dentry)"
  from run obtain flags pp s1 c where nd: "nd = Some flags"
    and pp: "wrapfs_get_lower_path ?parent (emit (Dget_up ?parent) s) = Some (pp, s1)"
    and c: "dentry_cachep s1 = Some c"
    by (auto simp: wrapfs_lookup_def new_dentry_private_data_def Let_def bind_Some_iff)
  from pp have s1: "dentries s1 = dentries s"
    "held x (log s1) = held x (log s) + (if x = R_path pp then 1 else 0) + (if x = R_up_dentry ?parent then 1 else 0)" for x
    by (auto simp: get_lower_path_Some held_simps)
  show ?thesis
  proof (cases "kmem_cache_zalloc L c s1")
    case None
    with run nd pp c have "ret = - ENOMEM" "s' = emit (Dput_up ?parent) (wrapfs_put_lower_path ?parent pp s1)"
      by (simp_all add: wrapfs_lookup_def new_dentry_private_data_def Let_def)
    then show ?thesis using s1 fresh by (auto simp: wrapfs_put_lower_path_def held_simps)
  next
    case (Some info)
    define s2 where "s2 = upd_dentry dentry (d_fsdata_update (\<lambda>_. Some info))
      (upd_dinfo info (\<lambda>_. \<lparr>lower_path = null_path\<rparr>) (emit (Dinfo_alloc info) s1))"
    have s2: "d_fsdata (dentries s2 dentry) = Some info" "lower_path (dinfos s2 info) = null_path"
      "held x (log s2) = held x (log s1) + (if x = R_dinfo info then 1 else 0)" for x
      by (simp_all add: s2_def held_simps)
    from run nd pp c Some obtain s3 s4 where s3: "wrapfs_lookup_lower V L dentry flags pp s2 = Some (ret, s3)"
      and s4: "(if ret \<noteq> 0 then Some s3 else lookup_attrs V dentry ?parent s3) = Some s4"
      and s': "s' = emit (Dput_up ?parent) (wrapfs_put_lower_path ?parent pp s4)"
      by (auto simp: wrapfs_lookup_def new_dentry_private_data_def Let_def s2_def bind_Some_iff)
    have s4': "dentries s4 = dentries s3" "dinfos s4 = dinfos s3" "log s4 = log s3"
      using s4 by (auto split: if_splits dest: lookup_attrs_keeps)
    note a = lookup_lower_account [OF s3 s2(1,2), unfolded path_account_def]
    have "d_fsdata (dentries s' dentry) = Some info" using a s' s4' by (simp add: wrapfs_put_lower_path_def)
    moreover have "held (R_path p) (log s') =
        held (R_path p) (log s) + (if lower_path (dinfos s' info) = p then 1 else 0)" if "p \<noteq> null_path" for p
      using that a s4' s2(3) [of "R_path p"] s1(2) [of "R_path p"]
      by (auto simp: s' wrapfs_put_lower_path_def held_simps)
    moreover have "held x (log s') = held x (log s) + (if x = R_dinfo info then 1 else 0)"
      if "\<forall>p q. x \<noteq> R_path p \<and> x \<noteq> R_inode q \<and> x \<noteq> R_up_inode q" for x
      using that a s4' s2(3) [of x] s1(2) [of x]
      by (auto simp: s' wrapfs_put_lower_path_def held_simps)
    ultimately show ?thesis by blast
  qed
qed

text \<open>
  The references to upper inodes: unless \<open>-ESTALE\<close> was returned, which leaks one, \<open>wrapfs_iget\<close> holds one
  reference to the inode it returns and none otherwise, and after a lookup the dentry holds one reference
  to the inode it has been given.
\<close>

lemma iget_up_refs:
  assumes "wrapfs_iget V L sb li s = Some (r, s')" and "r \<noteq> ErrPtr (- ESTALE)"
  shows "held (R_up_inode q) (log s') = held (R_up_inode q) (log s) + (if r = Ptr q then 1 else 0)"
  using assms(1)
proof (cases rule: iget_cases)
  case (fresh inode info)
  from iget_init_Some(1) [OF fresh(5)] obtain g where "s' = upd_iinfo inode g (emit (Igrab li)
      (upd_inode inode (i_ino_update (\<lambda>_. i_ino (l_inodes (low s) li)))
         (emit (Iget_up inode) (upd_iinfo inode (\<lambda>_. info) s))))" ..
  with fresh(4) show ?thesis by (simp add: held_simps)
qed (use assms(2) in \<open>auto simp: held_simps\<close>)

definition inode_account :: "ptr \<Rightarrow> int \<Rightarrow> kst \<Rightarrow> kst \<Rightarrow> bool" where
  "inode_account dentry r s s' \<longleftrightarrow> (r \<noteq> - ESTALE \<longrightarrow> (\<forall>q. held (R_up_inode q) (log s') =
     held (R_up_inode q) (log s) + (if d_inode (dentries s' dentry) = Some q then 1 else 0)))"

lemma interpose_inode_account:
  assumes "wrapfs_interpose V L dentry sb lp s = Some (r, s')" and "d_inode (dentries s dentry) = None"
  shows "inode_account dentry r s s'"
  using assms(1)
proof (cases rule: interpose_cases)
  case (failed ld li)
  from iget_keeps [OF failed(3)] iget_up_refs [OF failed(3)] assms(2) show ?thesis
    by (simp add: iget_frame_def inode_account_def)
next
  case (linked ld li inode s1)
  from iget_up_refs [OF linked(4)] linked(5,6) show ?thesis by (auto simp: inode_account_def)
qed (simp add: inode_account_def assms(2))

lemma setup_lower_inode_account:
  assumes "lookup_setup_lower dentry flags ld mnt err t = Some (r, s')"
    and "d_inode (dentries t dentry) = None" and "log t = log s"
  shows "inode_account dentry r s s'"
  using assms
  by (auto simp: lookup_setup_lower_def Let_def set_lower_path_Some bind_Some_iff link_simps inode_account_def held_simps)

lemma lookup_lower_inode_account:
  assumes run: "wrapfs_lookup_lower V L dentry flags pp s = Some (r, s')" and d: "d_inode (dentries s dentry) = None"
  shows "inode_account dentry r s s'"
proof -
  have found: "inode_account dentry e s u"
    if "wrapfs_set_lower_path dentry lp (emit (Path_get lp) t) = Some t1"
      "wrapfs_interpose V L dentry sb lp t1 = Some (e, t2)"
      "(if e \<noteq> 0 then wrapfs_put_reset_lower_path dentry t2 else Some t2) = Some u"
      "d_inode (dentries t dentry) = None" "log t = log s" for lp t t1 t2 e u sb
  proof -
    from that(1,4,5) have t1: "d_inode (dentries t1 dentry) = None"
      "\<And>q. held (R_up_inode q) (log t1) = held (R_up_inode q) (log s)"
      by (auto simp: set_lower_path_Some link_simps held_simps)
    from interpose_inode_account [OF that(2) t1(1)] t1(2) that(3) show ?thesis
      by (auto simp: inode_account_def put_reset_lower_path_Some link_simps held_simps split: if_splits)
  qed
  from run d show ?thesis
    by (auto simp: wrapfs_lookup_lower_def Let_def bind_Some_iff inode_account_def [of _ _ _ "upd_dentry _ _ _"]
        inode_account_def [of _ _ _ "low_update _ _"]
        split: if_split_asm option.split_asm prod.split_asm elim!: setup_lower_inode_account intro: found)
qed

lemma lookup_inode_account:
  assumes run: "wrapfs_lookup V L dentry nd s = Some (ret, s')" and d: "d_inode (dentries s dentry) = None"
  shows "inode_account dentry ret s s'"
proof -
  have a: "inode_account dentry r s (emit (Dput_up q) (wrapfs_put_lower_path q pp u))"
    if "wrapfs_lookup_lower V L dentry flags pp t = Some (r, t')" "d_inode (dentries t dentry) = None"
      "\<And>q. held (R_up_inode q) (log t) = held (R_up_inode q) (log s)"
      "dentries u = dentries t'" "log u = log t'" for flags pp t r t' q u
    using lookup_lower_inode_account [OF that(1,2)] that(3-5)
    by (simp add: inode_account_def wrapfs_put_lower_path_def held_simps)
  let ?parent = "d_parent (dentries s dentry)"
  from run obtain flags pp s1 e s2 s3 s4 where
    pp: "wrapfs_get_lower_path ?parent (emit (Dget_up ?parent) s) = Some (pp, s1)"
    and s2: "new_dentry_private_data L dentry s1 = Some (e, s2)"
    and s3: "(if e \<noteq> 0 then Some (e, s2) else wrapfs_lookup_lower V L dentry flags pp s2) = Some (ret, s3)"
    and s4: "(if ret \<noteq> 0 then Some s3 else lookup_attrs V dentry ?parent s3) = Some s4"
    and s': "s' = emit (Dput_up ?parent) (wrapfs_put_lower_path ?parent pp s4)"
    by (auto simp: wrapfs_lookup_def Let_def bind_Some_iff)
  have l: "dentries s4 = dentries s3" "log s4 = log s3"
    using s4 by (auto split: if_splits dest: lookup_attrs_keeps)
  have i: "d_inode (dentries s2 dentry) = None" "\<And>q. held (R_up_inode q) (log s2) = held (R_up_inode q) (log s)"
    using s2 pp d by (auto simp: new_dentry_private_data_def Let_def bind_Some_iff get_lower_path_Some held_simps
        split: option.split_asm)
  show ?thesis
  proof (cases "e = 0")
    case True
    with s3 have "wrapfs_lookup_lower V L dentry flags pp s2 = Some (ret, s3)" by simp
    from a [OF this i l] s' show ?thesis by simp
  next
    case False
    with s3 i l s' show ?thesis by (simp add: inode_account_def wrapfs_put_lower_path_def held_simps)
  qed
qed

section \<open>Concrete parameters\<close>

text \<open>Every name is found: it is the lower dentry 12 with the lower inode 13; inodes are never cached.\<close>

definition ram_lookup :: lookup_api where
  "ram_lookup =
     \<lparr>kmem_cache_zalloc = (\<lambda>_ _. Some 41),
      iget5_locked = (\<lambda>_ _ _ _. Some (42, \<lparr>ii_lower_file = None, lower_inode = None,
        vfs_inode = blank_inode\<lparr>i_new := True\<rparr>\<rparr>)),
      igrab = (\<lambda>_ _. True), init_special_inode = (\<lambda>x m d. x\<lparr>i_mode := m, i_rdev := d\<rparr>),
      vfs_path_lookup = (\<lambda>_ _ l. (0, \<lparr>p_dentry = Some 12, p_mnt = Some 15\<rparr>, l)),
      d_lookup = (\<lambda>_ _ _. None), d_alloc = (\<lambda>_ _ _. None)\<rparr>"

lemma ram_lookup_laws: "iget_law ram_lookup" "special_law ram_lookup"
  by (simp_all add: iget_law_def special_law_def ram_lookup_def)

text \<open>Dentry 8 is a name in the directory 3 that is being looked up.\<close>

definition dir_kst :: kst where
  "dir_kst = upd_sb_info 5 (lower_sb_update (\<lambda>_. Some 0))
     (mounted_kst\<lparr>dentry_cachep := Some 1,
        dentries := (dentries mounted_kst)(8 := blank_dentry\<lparr>d_parent := 3, d_sb := 4\<rparr>)\<rparr>)"

declare dir_kst_def [state_defs]

lemma dir_iget: "\<exists>s'. wrapfs_iget ram_vfs ram_lookup 4 13 dir_kst = Some (Ptr 42, s')"
  by (rule iget_total [of _ _ _ _ _ "\<lparr>ii_lower_file = None, lower_inode = None, vfs_inode = blank_inode\<lparr>i_new := True\<rparr>\<rparr>" 5])
    (simp_all add: ram_lookup_def state_defs)

lemma dir_lookup: "\<exists>s'. wrapfs_lookup ram_vfs ram_lookup 8 (Some 0) dir_kst = Some (0, s') \<and> d_inode (dentries s' 8) = Some 42"
  by (simp add: wrapfs_lookup_def wrapfs_get_lower_path_def new_dentry_private_data_def wrapfs_lookup_lower_def
      wrapfs_set_lower_path_def wrapfs_interpose_def lookup_attrs_def ram_lookup_def wrapfs_iget_def iget_init_def
      iget_select_ops_def state_defs link_simps S_ISDIR_def S_ISLNK_def S_ISBLK_def S_ISCHR_def S_ISFIFO_def
      S_ISSOCK_def wrapfs_put_lower_path_def Let_def)

section \<open>Properties\<close>

text \<open>C17: \<open>wrapfs_iget\<close> interposes: the inode it returns is linked to the given lower inode and is no
  longer marked new.  When the inode is new it mirrors the lower one (mode, size, links, times, number)
  and holds one new reference to it; its inode operations are those for its type, its file operations
  (unless it is a special file, which has those of \<open>init_special_inode\<close>) and, unless it is a directory, its
  address space operations are those the mount option calls for.  A cached inode is returned as it is.\<close>

theorem iget_interposes:
  assumes "iget_law L" "special_law L" "fsstack_laws V"
    and "wrapfs_iget V L sb li s = Some (Ptr inode, s')"
    and "iget5_locked L sb (i_ino (l_inodes (low s) li)) (wrapfs_inode_test li) s = Some (inode, info)"
  shows "lower_inode (inodes s' inode) = Some li \<and> \<not> i_new (vfs_inode (inodes s' inode)) \<and>
    held (R_up_inode inode) (log s') = held (R_up_inode inode) (log s) + 1 \<and>
    (if i_new (vfs_inode info)
     then mirrors (map_option (sb_infos s) (s_fs_info (sbs s sb))) (vfs_inode (inodes s' inode)) (l_inodes (low s) li) \<and>
          held (R_inode li) (log s') = held (R_inode li) (log s) + 1
     else inodes s' = inodes s \<and> held (R_inode li) (log s') = held (R_inode li) (log s))"
  using assms(4)
proof (cases rule: iget_cases)
  case (cached i inf)
  have "info = inodes s inode" using assms(1,5) cached unfolding iget_law_def by fastforce
  with assms(5) cached iget_linked [OF assms(1,4)] show ?thesis by (auto simp: held_simps)
next
  case (fresh i inf)
  let ?s1 = "emit (Igrab li) (upd_inode i (i_ino_update (\<lambda>_. i_ino (l_inodes (low s) li)))
         (emit (Iget_up i) (upd_iinfo i (\<lambda>_. inf) s)))"
  have e: "i = inode" "inf = info" using fresh(1,4) assms(5) by auto
  from iget_init_Some(1) [OF fresh(5)] obtain g where "s' = upd_iinfo i g ?s1" ..
  then have l: "held (R_inode li) (log s') = held (R_inode li) (log s) + 1"
    "held (R_up_inode i) (log s') = held (R_up_inode i) (log s) + 1"
    by (simp_all add: held_simps)
  have "mirrors (map_option (sb_infos s) (s_fs_info (sbs s sb))) (vfs_inode (inodes s' i)) (l_inodes (low s) li)"
    using iget_init_Some(4) [OF fresh(5) assms(3,2)] by simp
  with l e fresh(2) iget_linked [OF assms(1,4)] show ?thesis by simp
qed simp_all

theorem iget_interposes_witness:
  "\<exists>s'. wrapfs_iget ram_vfs ram_lookup 4 13 dir_kst = Some (Ptr 42, s') \<and>
     lower_inode (inodes s' 42) = Some 13 \<and> i_fop (vfs_inode (inodes s' 42)) = Some wrapfs_mmap_fops \<and>
     a_ops (vfs_inode (inodes s' 42)) = wrapfs_aops"
proof -
  obtain s' where s': "wrapfs_iget ram_vfs ram_lookup 4 13 dir_kst = Some (Ptr 42, s')" using dir_iget ..
  let ?info = "\<lparr>ii_lower_file = None, lower_inode = None, vfs_inode = blank_inode\<lparr>i_new := True\<rparr>\<rparr>"
  have "iget5_locked ram_lookup 4 (i_ino (l_inodes (low dir_kst) 13)) (wrapfs_inode_test 13) dir_kst = Some (42, ?info)"
    by (simp add: ram_lookup_def)
  from iget_interposes [OF ram_lookup_laws ram_vfs_fsstack s' this] s' show ?thesis
    by (auto simp: mirrors_def state_defs S_ISDIR_def S_ISBLK_def S_ISCHR_def S_ISFIFO_def S_ISSOCK_def)
qed

text \<open>The error paths of \<open>wrapfs_iget\<close> do not keep the books: without an inode a reference to the
  lower inode is dropped that was never taken, and for a dying lower inode the new upper inode stays
  referenced, and marked new, after \<open>-ESTALE\<close>.\<close>

theorem iget_error_references:
  assumes "wrapfs_iget V L sb li s = Some (ErrPtr e, s')"
  shows "e = - EACCES \<and> held (R_inode li) (log s') = held (R_inode li) (log s) - 1 \<or>
    e = - ESTALE \<and> (\<exists>inode. held (R_up_inode inode) (log s') = held (R_up_inode inode) (log s) + 1 \<and>
      i_new (vfs_inode (inodes s' inode)))"
  using assms
proof (cases rule: iget_cases)
  case none
  then show ?thesis by (simp add: held_simps)
next
  case (stale inode info)
  then show ?thesis by (intro disjI2) (auto simp: held_simps intro!: exI [of _ inode])
qed simp_all

theorem iget_error_references_witness:
  "\<exists>s'. wrapfs_iget ram_vfs (ram_lookup\<lparr>iget5_locked := \<lambda>_ _ _ _. None\<rparr>) 4 13 dir_kst = Some (ErrPtr (- EACCES), s') \<and>
     held (R_inode 13) (log s') = - 1"
proof -
  obtain s' where s': "wrapfs_iget ram_vfs (ram_lookup\<lparr>iget5_locked := \<lambda>_ _ _ _. None\<rparr>) 4 13 dir_kst
      = Some (ErrPtr (- EACCES), s')"
    by (simp add: wrapfs_iget_def)
  from iget_error_references [OF s'] s' show ?thesis by (auto simp: state_defs)
qed

text \<open>C16: a lookup that finds the name links the dentry: when \<open>wrapfs_lookup\<close> returns 0 and the lower
  file system has found the name, the private data of the dentry stores the lower path, and the inode
  of the dentry stands for the lower inode at the end of that path.\<close>

theorem lookup_links:
  assumes law: "iget_law L" and run: "wrapfs_lookup V L dentry (Some flags) s = Some (0, s')"
    and root: "d_parent (dentries s dentry) \<noteq> dentry"
    and parent: "d_fsdata (dentries s (d_parent (dentries s dentry))) = Some pinfo"
    and found: "vfs_path_lookup L (lower_path (dinfos s pinfo)) (d_name (dentries s dentry)) (low s) = (0, lp, l)"
  shows "\<exists>info i ld li. d_fsdata (dentries s' dentry) = Some info \<and> lower_path (dinfos s' info) = lp \<and>
    p_dentry lp = Some ld \<and> d_inode (l_dentries (low s') ld) = Some li \<and>
    d_inode (dentries s' dentry) = Some i \<and> lower_inode (inodes s' i) = Some li"
proof -
  let ?parent = "d_parent (dentries s dentry)" and ?pp = "lower_path (dinfos s pinfo)"
  define s1 where "s1 = emit (Spin_unlock pinfo) (emit (Path_get ?pp) (emit (Spin_lock pinfo) (emit (Dget_up ?parent) s)))"
  have pp: "wrapfs_get_lower_path ?parent (emit (Dget_up ?parent) s) = Some (?pp, s1)"
    using parent by (simp add: get_lower_path_Some link_simps s1_def)
  from run pp obtain c info where c: "dentry_cachep s1 = Some c" "kmem_cache_zalloc L c s1 = Some info"
    by (auto simp: wrapfs_lookup_def new_dentry_private_data_def Let_def bind_Some_iff split: option.splits)
  define s2 where "s2 = upd_dentry dentry (d_fsdata_update (\<lambda>_. Some info))
      (upd_dinfo info (\<lambda>_. \<lparr>lower_path = null_path\<rparr>) (emit (Dinfo_alloc info) s1))"
  from run pp c obtain s3 s4 where s3: "wrapfs_lookup_lower V L dentry flags ?pp s2 = Some (0, s3)"
    and s4: "lookup_attrs V dentry ?parent s3 = Some s4"
    and s': "s' = emit (Dput_up ?parent) (wrapfs_put_lower_path ?parent ?pp s4)"
    by (auto simp: wrapfs_lookup_def new_dentry_private_data_def Let_def s2_def bind_Some_iff)
  define s0 where "s0 = low_update (\<lambda>_. l) (upd_dentry dentry (d_op_update (\<lambda>_. Some wrapfs_dops)) s2)"
  have v: "vfs_path_lookup L ?pp (d_name (dentries s2 dentry)) (low s2) = (0, lp, l)"
    "d_parent (dentries s2 dentry) \<noteq> dentry" "d_fsdata (dentries s0 dentry) = Some info"
    using found root by (simp_all add: s2_def s1_def s0_def)
  from s3 v obtain s5 where s5: "wrapfs_set_lower_path dentry lp (emit (Path_get lp) s0) = Some s5"
    and i: "wrapfs_interpose V L dentry (d_sb (dentries s5 dentry)) lp s5 = Some (0, s3)"
    by (auto simp: wrapfs_lookup_lower_def Let_def s0_def bind_Some_iff split: if_splits)
  have s5': "d_fsdata (dentries s5 dentry) = Some info" "lower_path (dinfos s5 info) = lp"
    using s5 v(3) by (auto simp: set_lower_path_Some link_simps)
  from i obtain ld li inode s6 where k: "p_dentry lp = Some ld" "d_inode (l_dentries (low s5) ld) = Some li"
    "wrapfs_iget V L (d_sb (dentries s5 dentry)) li s5 = Some (Ptr inode, s6)"
    "s3 = upd_dentry dentry (\<lambda>d. d\<lparr>d_inode := Some inode, d_unhashed := False\<rparr>) s6"
    by (cases rule: interpose_cases) (auto dest: iget_cases)
  from iget_linked [OF law k(3)] iget_keeps [OF k(3)] k s5' lookup_attrs_keeps [OF s4] show ?thesis
    by (auto simp: s' wrapfs_put_lower_path_def iget_frame_def)
qed

theorem lookup_links_witness:
  "\<exists>s' info i. wrapfs_lookup ram_vfs ram_lookup 8 (Some 0) dir_kst = Some (0, s') \<and>
     d_fsdata (dentries s' 8) = Some info \<and> p_mnt (lower_path (dinfos s' info)) = Some 15 \<and>
     d_inode (dentries s' 8) = Some i"
proof -
  obtain s' where s': "wrapfs_lookup ram_vfs ram_lookup 8 (Some 0) dir_kst = Some (0, s')" using dir_lookup by blast
  have h: "d_parent (dentries dir_kst 8) \<noteq> 8" "d_fsdata (dentries dir_kst (d_parent (dentries dir_kst 8))) = Some 7"
    "vfs_path_lookup ram_lookup (lower_path (dinfos dir_kst 7)) (d_name (dentries dir_kst 8)) (low dir_kst)
       = (0, \<lparr>p_dentry = Some 12, p_mnt = Some 15\<rparr>, low dir_kst)"
    by (simp_all add: state_defs ram_lookup_def)
  from lookup_links [OF ram_lookup_laws(1) s' h] s' show ?thesis by auto
qed

end
