(* ===== verification/Dentry.thy ===== *)
theory Dentry
  imports Lookup
begin

text \<open>
  \<^verbatim>\<open>dentry.c\<close>: revalidation of a cached name and the release of a dentry, which gives back what the
  lookup took.
\<close>

section \<open>Operations\<close>

text \<open>The fields of \<open>struct nameidata\<close> that the sources use.\<close>

record nameidata =
  nd_flags :: u32
  nd_path :: path
  nd_link :: "ptr eptr option"

text \<open>\<open>revalidate\<close> is the method of the lower dentry; it may change the \<open>nameidata\<close>.\<close>

record dentry_api =
  lower_revalidate :: "ptr \<Rightarrow> nameidata \<Rightarrow> lower_st \<Rightarrow> int \<times> nameidata \<times> lower_st"

fun has_revalidate :: "dops \<Rightarrow> bool" where
  "has_revalidate wrapfs_dops = True"
| "has_revalidate (foreign_dops b) = b"

definition wrapfs_d_revalidate :: "dentry_api \<Rightarrow> ptr \<Rightarrow> nameidata option \<Rightarrow> kst \<Rightarrow> (int \<times> nameidata option) run" where
  "wrapfs_d_revalidate D dentry nd s =
     (if (case nd of None \<Rightarrow> False | Some n \<Rightarrow> nd_flags n AND LOOKUP_RCU \<noteq> 0) then Some ((- ECHILD, nd), s)
      else do {
        (lower_path, s) \<leftarrow> wrapfs_get_lower_path dentry s;
        ld \<leftarrow> p_dentry lower_path;
        (r, s) \<leftarrow>
          (case d_op (l_dentries (low s) ld) of
             None \<Rightarrow> Some ((1, nd), s)
           | Some ops \<Rightarrow>
               if \<not> has_revalidate ops then Some ((1, nd), s)
               else do {
                 n \<leftarrow> nd; \<comment> \<open>\<open>&nd->path\<close>\<close>
                 let saved_path = pathcpy null_path (nd_path n);
                 let n = nd_path_update (\<lambda>p. pathcpy p lower_path) n;
                 let (err, n, l) = lower_revalidate D ld n (low s);
                 let s = emit (Lower_call ''d_revalidate'') (low_update (\<lambda>_. l) s);
                 let n = nd_path_update (\<lambda>p. pathcpy p saved_path) n;
                 Some ((err, Some n), s)
               });
        Some (r, wrapfs_put_lower_path dentry lower_path s)
      })"

definition wrapfs_d_release :: "ptr \<Rightarrow> kst \<Rightarrow> kst option" where
  "wrapfs_d_release dentry s = do {
     s \<leftarrow> wrapfs_put_reset_lower_path dentry s;
     Some (free_dentry_private_data (Some dentry) s)
   }"

section \<open>Lemmas\<close>

lemma d_release_Some:
  "wrapfs_d_release dentry s = Some s' \<longleftrightarrow> (\<exists>info. d_fsdata (dentries s dentry) = Some info \<and>
     s' = upd_dentry dentry (d_fsdata_update (\<lambda>_. None)) (emit (Dinfo_free info)
       (emit (Path_put (lower_path (dinfos s info))) (emit (Spin_unlock info)
         (upd_dinfo info (lower_path_update (\<lambda>_. null_path)) (emit (Spin_lock info) s))))))"
  by (auto simp: wrapfs_d_release_def bind_Some_iff put_reset_lower_path_Some free_dentry_private_data_def link_simps)

section \<open>Properties\<close>

text \<open>C13: after a lookup that allocated the private data, whatever it returned, \<open>wrapfs_d_release\<close>
  succeeds, and every count of path references, dentry references, locks and private data is what it was
  before the lookup.  Of the references to upper inodes one is left when the lookup gave the dentry an
  inode, to that inode, which the VFS drops together with the dentry, and none otherwise; a lookup that
  returns \<open>-ESTALE\<close> is excepted, as it may leak one.  References to lower inodes belong to the upper inodes
  and are not counted here.\<close>

theorem lookup_release_balanced:
  assumes "wrapfs_lookup V L dentry nd s = Some (ret, s1)" and "d_fsdata (dentries s dentry) = None"
    and "d_inode (dentries s dentry) = None" and "d_fsdata (dentries s1 dentry) \<noteq> None"
  shows "\<exists>s2. wrapfs_d_release dentry s1 = Some s2 \<and>
    (\<forall>x. (\<forall>q. x \<noteq> R_inode q \<and> x \<noteq> R_up_inode q) \<and> x \<noteq> R_path null_path \<longrightarrow> held x (log s2) = held x (log s)) \<and>
    (ret \<noteq> - ESTALE \<longrightarrow> (\<forall>q. held (R_up_inode q) (log s2) =
       held (R_up_inode q) (log s) + (if d_inode (dentries s1 dentry) = Some q then 1 else 0)))"
proof -
  obtain info where info: "d_fsdata (dentries s1 dentry) = Some info"
    and p: "\<And>p. p \<noteq> null_path \<Longrightarrow> held (R_path p) (log s1) =
        held (R_path p) (log s) + (if lower_path (dinfos s1 info) = p then 1 else 0)"
    and o': "\<And>x. (\<forall>p q. x \<noteq> R_path p \<and> x \<noteq> R_inode q \<and> x \<noteq> R_up_inode q) \<Longrightarrow>
        held x (log s1) = held x (log s) + (if x = R_dinfo info then 1 else 0)"
    using lookup_account [OF assms(1,2)] assms(4) by fastforce
  obtain s2 where s2: "wrapfs_d_release dentry s1 = Some s2"
    using info by (auto simp: d_release_Some)
  have "held x (log s2) = held x (log s)"
    if x: "(\<forall>q. x \<noteq> R_inode q \<and> x \<noteq> R_up_inode q) \<and> x \<noteq> R_path null_path" for x
  proof (cases "\<exists>p. x = R_path p")
    case True
    with x s2 info p show ?thesis by (auto simp: d_release_Some held_simps)
  next
    case False
    with x s2 info o' [of x] show ?thesis by (auto simp: d_release_Some held_simps)
  qed
  moreover have "held (R_up_inode q) (log s2) = held (R_up_inode q) (log s1)" for q
    using s2 by (auto simp: d_release_Some held_simps)
  ultimately show ?thesis
    using s2 lookup_inode_account [OF assms(1,3)] by (auto simp: inode_account_def)
qed

theorem lookup_release_balanced_witness:
  "\<exists>s1 s2. wrapfs_lookup ram_vfs ram_lookup 8 (Some 0) dir_kst = Some (0, s1) \<and> wrapfs_d_release 8 s1 = Some s2 \<and>
     held (R_path \<lparr>p_dentry = Some 12, p_mnt = Some 15\<rparr>) (log s2) = 0 \<and>
     held (R_up_inode 42) (log s2) = 1"
proof -
  let ?x = "R_path \<lparr>p_dentry = Some 12, p_mnt = Some 15\<rparr>"
  obtain s1 where s1: "wrapfs_lookup ram_vfs ram_lookup 8 (Some 0) dir_kst = Some (0, s1)"
    and i: "d_inode (dentries s1 8) = Some 42" using dir_lookup by blast
  have f: "d_fsdata (dentries dir_kst 8) = None" "d_inode (dentries dir_kst 8) = None" "log dir_kst = []"
    by (simp_all add: state_defs)
  have "d_fsdata (dentries s1 8) \<noteq> None" using lookup_account [OF s1 f(1)] by auto
  from lookup_release_balanced [OF s1 f(1,2) this] obtain s2 where "wrapfs_d_release 8 s1 = Some s2"
    "held ?x (log s2) = held ?x (log dir_kst)"
    "held (R_up_inode 42) (log s2) = held (R_up_inode 42) (log dir_kst) + (if d_inode (dentries s1 8) = Some 42 then 1 else 0)"
    by (auto simp: null_path_def)
  with s1 f(3) i show ?thesis by auto
qed

text \<open>Revalidation restores its caller's path and drops the lower path it took: whatever the lower
  file system does to the \<open>nameidata\<close>, the path in it is the caller's one afterwards, and no reference
  or lock is kept; in RCU mode nothing is done at all.\<close>

theorem d_revalidate_restores:
  assumes "wrapfs_d_revalidate D dentry nd s = Some ((err, nd'), s')"
  shows "map_option nd_path nd' = map_option nd_path nd \<and> (\<forall>x. held x (log s') = held x (log s)) \<and>
    dentries s' = dentries s \<and> dinfos s' = dinfos s \<and>
    ((\<exists>n. nd = Some n \<and> nd_flags n AND LOOKUP_RCU \<noteq> 0) \<longrightarrow> err = - ECHILD \<and> s' = s)"
proof (cases "\<exists>n. nd = Some n \<and> nd_flags n AND LOOKUP_RCU \<noteq> 0")
  case True
  with assms show ?thesis by (auto simp: wrapfs_d_revalidate_def)
next
  case False
  then have "\<not> (case nd of None \<Rightarrow> False | Some n \<Rightarrow> nd_flags n AND LOOKUP_RCU \<noteq> 0)" by (cases nd) auto
  with assms False show ?thesis
    by (auto simp: wrapfs_d_revalidate_def get_lower_path_Some wrapfs_put_lower_path_def run_simps held_simps
        split: Option.bind_split_asm option.split_asm if_split_asm)
qed

theorem d_revalidate_restores_witness:
  "\<exists>s'. wrapfs_d_revalidate \<lparr>lower_revalidate = \<lambda>_ n l. (1, n\<lparr>nd_path := null_path\<rparr>, l)\<rparr> 3
       (Some \<lparr>nd_flags = 0x40, nd_path = \<lparr>p_dentry = Some 3, p_mnt = None\<rparr>, nd_link = None\<rparr>) mounted_kst
     = Some ((- ECHILD, Some \<lparr>nd_flags = 0x40, nd_path = \<lparr>p_dentry = Some 3, p_mnt = None\<rparr>, nd_link = None\<rparr>), s') \<and>
     s' = mounted_kst"
proof -
  let ?D = "\<lparr>lower_revalidate = \<lambda>_ n l. (1, n\<lparr>nd_path := null_path\<rparr>, l)\<rparr> :: dentry_api"
  let ?n = "\<lparr>nd_flags = 0x40, nd_path = \<lparr>p_dentry = Some 3, p_mnt = None\<rparr>, nd_link = None\<rparr> :: nameidata"
  obtain s' where s': "wrapfs_d_revalidate ?D 3 (Some ?n) mounted_kst = Some ((- ECHILD, Some ?n), s')"
    by (simp add: wrapfs_d_revalidate_def LOOKUP_RCU_def)
  have "nd_flags ?n AND LOOKUP_RCU \<noteq> 0" by (simp add: LOOKUP_RCU_def)
  with d_revalidate_restores [OF s'] s' show ?thesis by blast
qed

end
