(* ===== verification/Main_Fs.thy ===== *)
theory Main_Fs
  imports Dentry
begin

text \<open>
  \<^verbatim>\<open>main.c\<close>: filling in a super block when the file system is mounted, the mount options, and the
  initialisation and removal of the module.
\<close>

section \<open>Parameters\<close>

datatype token = Opt_debug | Opt_mmap

primrec token_val :: "token \<Rightarrow> int" where
  "token_val Opt_debug = 0"
| "token_val Opt_mmap = 1"

definition wrapfs_tokens :: "(token \<times> string) list" where
  "wrapfs_tokens = [(Opt_debug, ''debug=%u''), (Opt_mmap, ''mmap'')]"

text \<open>
  \<open>kern_path\<close> gives a referenced path; \<open>d_alloc_root\<close> the address and contents of a new root dentry.
  \<open>match_token\<close> searches a table of options and gives the token of the first pattern that matches, as an
  integer, with its argument.  \<^const>\<open>wrapfs_tokens\<close> has no terminating entry, so for a string that neither
  pattern matches the search runs on behind the table; what it then returns, if it returns, is whatever
  the memory there makes it return, and the parameter is free to give any integer.
  \<open>match_int\<close> is \<^const>\<open>None\<close> when the argument is not a number.  \<open>mount_nodev\<close> calls the given
  function on a new super block.
\<close>

record main_api =
  kern_path :: "string \<Rightarrow> lower_st \<Rightarrow> int \<times> path \<times> lower_st"
  kzalloc_sb_info :: "kst \<Rightarrow> ptr option"
  d_alloc_root :: "ptr \<Rightarrow> kst \<Rightarrow> (ptr \<times> dentry) option"
  match_token :: "string \<Rightarrow> (token \<times> string) list \<Rightarrow> int \<times> string"
  match_int :: "string \<Rightarrow> int option"
  mount_nodev :: "(ptr \<Rightarrow> kst \<Rightarrow> int run) \<Rightarrow> kst \<Rightarrow> ptr eptr run"
  register_filesystem :: "kst \<Rightarrow> int"

section \<open>The super block\<close>

text \<open>The labels \<open>out_free\<close>, \<open>out_sput\<close>, \<open>out_iput\<close> and \<open>out_freeroot\<close>, each falling through to the one before.\<close>

definition read_super_out_free :: "int \<Rightarrow> path \<Rightarrow> kst \<Rightarrow> int run" where
  "read_super_out_free err lp s = Some (err, emit (Path_put lp) s)"

definition read_super_out_sput :: "int \<Rightarrow> ptr \<Rightarrow> ptr \<Rightarrow> path \<Rightarrow> kst \<Rightarrow> int run" where
  "read_super_out_sput err sb lsb lp s = do {
     let s = upd_lsb lsb (s_active_update (\<lambda>n. n - 1)) s;
     p \<leftarrow> WRAPFS_SB s sb;
     let s = emit (Sbinfo_free p) s;
     let s = upd_sb sb (s_fs_info_update (\<lambda>_. None)) s;
     read_super_out_free err lp s
   }"

definition read_super_out_iput :: "int \<Rightarrow> ptr \<Rightarrow> ptr \<Rightarrow> ptr \<Rightarrow> path \<Rightarrow> kst \<Rightarrow> int run" where
  "read_super_out_iput err inode sb lsb lp s = read_super_out_sput err sb lsb lp (emit (Iput_up inode) s)"

text \<open>\<open>dput\<close> of the last reference to the root dentry calls its release method.\<close>

definition read_super_out_freeroot :: "int \<Rightarrow> ptr \<Rightarrow> ptr \<Rightarrow> ptr \<Rightarrow> ptr \<Rightarrow> path \<Rightarrow> kst \<Rightarrow> int run" where
  "read_super_out_freeroot err root inode sb lsb lp s = do {
     s \<leftarrow> wrapfs_d_release root s;
     read_super_out_iput err inode sb lsb lp s
   }"

text \<open>From \<open>wrapfs_iget\<close> to the end.\<close>

definition read_super_root ::
  "vfs_api \<Rightarrow> lookup_api \<Rightarrow> main_api \<Rightarrow> ptr \<Rightarrow> ptr \<Rightarrow> ptr \<Rightarrow> path \<Rightarrow> kst \<Rightarrow> int run" where
  "read_super_root V L P sb lsb ld lp s = do {
     li \<leftarrow> d_inode (l_dentries (low s) ld);
     (r, s) \<leftarrow> wrapfs_iget V L sb li s;
     case r of
       ErrPtr err \<Rightarrow> read_super_out_sput err sb lsb lp s
     | Ptr inode \<Rightarrow>
         (case d_alloc_root P inode s of
            None \<Rightarrow> read_super_out_iput (- ENOMEM) inode sb lsb lp (upd_sb sb (s_root_update (\<lambda>_. None)) s)
          | Some (root, dent) \<Rightarrow> do {
              let s = upd_sb sb (s_root_update (\<lambda>_. Some root)) (upd_dentry root (\<lambda>_. dent) s);
              let s = upd_dentry root (d_op_update (\<lambda>_. Some wrapfs_dops)) s;
              let s = upd_dentry root (d_fsdata_update (\<lambda>_. None)) s;
              (err, s) \<leftarrow> new_dentry_private_data L root s;
              if err \<noteq> 0 then read_super_out_freeroot err root inode sb lsb lp s
              else do {
                s \<leftarrow> wrapfs_set_lower_path root lp s;
                Some (0, upd_dentry root (d_unhashed_update (\<lambda>_. False)) s) \<comment> \<open>\<open>d_rehash\<close>\<close>
              }
            })
   }"

definition wrapfs_read_super ::
  "vfs_api \<Rightarrow> lookup_api \<Rightarrow> main_api \<Rightarrow> ptr \<Rightarrow> string option \<Rightarrow> kst \<Rightarrow> int run" where
  "wrapfs_read_super V L P sb raw_data s =
     (case raw_data of
        None \<Rightarrow> Some (- EINVAL, s)
      | Some dev_name \<Rightarrow>
          (let (err, lp, l) = kern_path P dev_name (low s);
               s = low_update (\<lambda>_. l) s
           in if err \<noteq> 0 then Some (err, s)
              else
                (let s = emit (Path_get lp) s in
                 case kzalloc_sb_info P s of
                   None \<Rightarrow> read_super_out_free (- ENOMEM) lp (upd_sb sb (s_fs_info_update (\<lambda>_. None)) s)
                 | Some p \<Rightarrow> do {
                     let s = emit (Sbinfo_alloc p) s;
                     let s = upd_sb_info p (\<lambda>_. \<lparr>lower_sb = None, keyVal = None, aops_enabled = 0\<rparr>) s;
                     let s = upd_sb sb (s_fs_info_update (\<lambda>_. Some p)) s;
                     ld \<leftarrow> p_dentry lp;
                     let lsb = d_sb (l_dentries (low s) ld);
                     let s = upd_lsb lsb (s_active_update (\<lambda>n. n + 1)) s;
                     s \<leftarrow> wrapfs_set_lower_super sb (Some lsb) s;
                     let s = upd_sb sb (s_maxbytes_update (\<lambda>_. s_maxbytes (l_sbs (low s) lsb))) s;
                     let s = upd_sb sb (s_time_gran_update (\<lambda>_. 1)) s;
                     let s = upd_sb sb (s_op_update (\<lambda>_. Some wrapfs_sops)) s;
                     read_super_root V L P sb lsb ld lp s
                   })))"

section \<open>Mount options\<close>

text \<open>All results of \<open>strsep (&options, ",")\<close> in order.\<close>

fun strsep_all :: "string \<Rightarrow> string list" where
  "strsep_all [] = [[]]"
| "strsep_all (c # cs) =
     (if c = CHR '','' then [] # strsep_all cs
      else case strsep_all cs of [] \<Rightarrow> [[c]] | t # ts \<Rightarrow> (c # t) # ts)"

fun parse_tokens :: "main_api \<Rightarrow> ptr \<Rightarrow> string list \<Rightarrow> kst \<Rightarrow> int run" where
  "parse_tokens P sbi [] s = Some (0, s)"
| "parse_tokens P sbi (p # ps) s =
     (if p = [] then parse_tokens P sbi ps s
      else
        let (token, arg) = match_token P p wrapfs_tokens
        in if token = token_val Opt_debug
           then (case match_int P arg of
                   None \<Rightarrow> Some (- EINVAL, s)
                 | Some _ \<Rightarrow> parse_tokens P sbi ps s)
           else if token = token_val Opt_mmap
           then parse_tokens P sbi ps (upd_sb_info sbi (aops_enabled_update (\<lambda>_. 1)) s)
           else Some (0, s))"

definition wrapfs_parse_mount_options :: "main_api \<Rightarrow> string option \<Rightarrow> ptr \<Rightarrow> kst \<Rightarrow> int run" where
  "wrapfs_parse_mount_options P options sb s =
     (case options of
        None \<Rightarrow> Some (- EINVAL, s)
      | Some str \<Rightarrow> do {
          sbi \<leftarrow> WRAPFS_SB s sb;
          let s = upd_sb_info sbi (aops_enabled_update (\<lambda>_. 0)) s;
          parse_tokens P sbi (strsep_all str) s
        })"

text \<open>An error pointer is not \<open>NULL\<close>, so the test \<open>if (d)\<close> lets it through to \<open>d->d_sb\<close>.\<close>

definition wrapfs_mount ::
  "vfs_api \<Rightarrow> lookup_api \<Rightarrow> main_api \<Rightarrow> string option \<Rightarrow> string option \<Rightarrow> kst \<Rightarrow> ptr eptr run" where
  "wrapfs_mount V L P dev_name raw_data s = do {
     (d, s) \<leftarrow> mount_nodev P (\<lambda>sb. wrapfs_read_super V L P sb dev_name) s;
     case d of
       ErrPtr _ \<Rightarrow> None
     | Ptr root \<Rightarrow> do {
         (_, s) \<leftarrow> wrapfs_parse_mount_options P raw_data (d_sb (dentries s root)) s;
         s \<leftarrow> wrapfs_set_enc_key (d_sb (dentries s root)) None s;
         Some (Ptr root, s)
       }
   }"

section \<open>The module\<close>

definition init_wrapfs_fs :: "super_api \<Rightarrow> main_api \<Rightarrow> kst \<Rightarrow> int \<times> kst" where
  "init_wrapfs_fs A P s =
     (let (err, s) = wrapfs_init_inode_cache A s;
          (err, s) = (if err \<noteq> 0 then (err, s)
                      else
                        (let (err, s) = wrapfs_init_dentry_cache A s
                         in if err \<noteq> 0 then (err, s) else (register_filesystem P s, s)))
      in if err \<noteq> 0 then (err, wrapfs_destroy_dentry_cache (wrapfs_destroy_inode_cache s)) else (err, s))"

definition exit_wrapfs_fs :: "kst \<Rightarrow> kst" where
  "exit_wrapfs_fs s =
     (let s = wrapfs_destroy_inode_cache s;
          s = wrapfs_destroy_dentry_cache s
      in emit (Lower_call ''unregister_filesystem'') s)"

section \<open>Lemmas on the super block\<close>

text \<open>The super block after the statements that precede \<open>wrapfs_iget\<close>.\<close>

definition super_prepared :: "ptr \<Rightarrow> ptr \<Rightarrow> ptr \<Rightarrow> path \<Rightarrow> lower_st \<Rightarrow> kst \<Rightarrow> kst \<Rightarrow> bool" where
  "super_prepared sb p lsb lp l s t \<longleftrightarrow>
     s_fs_info (sbs t sb) = Some p \<and> s_maxbytes (sbs t sb) = s_maxbytes (l_sbs l lsb) \<and>
     s_op (sbs t sb) = Some wrapfs_sops \<and>
     sb_infos t = (sb_infos s)(p := \<lparr>lower_sb = Some lsb, keyVal = None, aops_enabled = 0\<rparr>) \<and>
     low t = l_sbs_update (\<lambda>h. h(lsb := s_active_update (\<lambda>n. n + 1) (h lsb))) l \<and>
     dentries t = dentries s \<and> log t = log s @ [Path_get lp, Sbinfo_alloc p]"

lemma read_super_cases:
  assumes "wrapfs_read_super V L P sb raw s = Some (r, s')"
  obtains (no_name) "raw = None" "r = - EINVAL" "s' = s"
    | (no_path) dev lp l where "raw = Some dev" "kern_path P dev (low s) = (r, lp, l)" "r \<noteq> 0" "s' = s\<lparr>low := l\<rparr>"
    | (no_memory) dev lp l where "raw = Some dev" "kern_path P dev (low s) = (0, lp, l)" "r = - ENOMEM" "low s' = l"
      "log s' = log s @ [Path_get lp, Path_put lp]"
    | (prepared) dev lp l p ld t where "raw = Some dev" "kern_path P dev (low s) = (0, lp, l)" "p_dentry lp = Some ld"
      "super_prepared sb p (d_sb (l_dentries l ld)) lp l s t"
      "read_super_root V L P sb (d_sb (l_dentries l ld)) ld lp t = Some (r, s')"
proof (cases raw)
  case None
  with assms no_name show ?thesis by (simp add: wrapfs_read_super_def)
next
  case (Some dev)
  obtain e lp l where k: "kern_path P dev (low s) = (e, lp, l)"
    by (cases "kern_path P dev (low s)") auto
  show ?thesis
  proof (cases "e = 0")
    case False
    with Some k assms show ?thesis by (intro no_path [of dev lp l]) (auto simp: wrapfs_read_super_def)
  next
    case True
    show ?thesis
    proof (cases "kzalloc_sb_info P (emit (Path_get lp) (s\<lparr>low := l\<rparr>))")
      case None
      with Some k True assms show ?thesis
        by (intro no_memory [of dev lp l]) (auto simp: wrapfs_read_super_def read_super_out_free_def)
    next
      case p: (Some p)
      with Some k True assms obtain ld where ld: "p_dentry lp = Some ld"
        by (auto simp: wrapfs_read_super_def Let_def bind_Some_iff)
      let ?lsb = "d_sb (l_dentries l ld)"
      let ?t = "upd_sb sb (\<lambda>b. b\<lparr>s_fs_info := Some p, s_maxbytes := s_maxbytes (l_sbs l ?lsb), s_time_gran := 1,
            s_op := Some wrapfs_sops\<rparr>)
        (upd_sb_info p (\<lambda>_. \<lparr>lower_sb = Some ?lsb, keyVal = None, aops_enabled = 0\<rparr>)
          (low_update (\<lambda>_. l_sbs_update (\<lambda>h. h(?lsb := s_active_update (\<lambda>n. n + 1) (h ?lsb))) l)
            (log_update (\<lambda>lg. lg @ [Path_get lp, Sbinfo_alloc p]) s)))"
      have "read_super_root V L P sb ?lsb ld lp ?t = Some (r, s')"
        using Some k True assms p ld
        by (simp add: wrapfs_read_super_def link_simps Let_def comp_def)
      moreover have "super_prepared sb p ?lsb lp l s ?t" by (simp add: super_prepared_def)
      ultimately show ?thesis using Some k True ld by (intro prepared [of dev lp l ld p ?t]) simp_all
    qed
  qed
qed

text \<open>
  An exit through \<open>out_sput\<close> undoes what the preparation took; references to lower inodes are not counted,
  and those to upper ones only when \<open>wrapfs_iget\<close> has not leaked one.
\<close>

abbreviation undone_resource :: "int \<Rightarrow> resource \<Rightarrow> bool" where
  "undone_resource r x \<equiv> (\<forall>q. x \<noteq> R_inode q) \<and> (r = - ESTALE \<longrightarrow> (\<forall>q. x \<noteq> R_up_inode q))"

definition super_undone :: "ptr \<Rightarrow> ptr \<Rightarrow> ptr \<Rightarrow> path \<Rightarrow> int \<Rightarrow> kst \<Rightarrow> kst \<Rightarrow> bool" where
  "super_undone sb p lsb lp r t s' \<longleftrightarrow> s_fs_info (sbs s' sb) = None \<and>
     low s' = l_sbs_update (\<lambda>h. h(lsb := s_active_update (\<lambda>n. n - 1) (h lsb))) (low t) \<and>
     (\<forall>x. undone_resource r x \<longrightarrow> held x (log s') = held x (log t)
        - (if x = R_sbinfo p then 1 else 0) - (if x = R_path lp then 1 else 0))"

lemma out_sput_undone:
  assumes "read_super_out_sput err sb lsb lp u = Some (r, s')" and "s_fs_info (sbs u sb) = Some p"
    and "low u = low t" and "\<And>x. undone_resource err x \<Longrightarrow> held x (log u) = held x (log t)"
  shows "r = err \<and> super_undone sb p lsb lp r t s'"
  using assms
  by (auto simp: read_super_out_sput_def read_super_out_free_def super_undone_def link_simps Let_def held_simps)

lemma read_super_root_cases:
  assumes run: "read_super_root V L P sb lsb ld lp t = Some (r, s')" and p: "s_fs_info (sbs t sb) = Some p"
  obtains (failed) "r \<noteq> 0" "super_undone sb p lsb lp r t s'"
    | (mounted) li inode u root dent info where "r = 0" "d_inode (l_dentries (low t) ld) = Some li"
      "wrapfs_iget V L sb li t = Some (Ptr inode, u)" "d_alloc_root P inode u = Some (root, dent)"
      "s_root (sbs s' sb) = Some root" "d_fsdata (dentries s' root) = Some info" "lower_path (dinfos s' info) = lp"
      "d_inode (dentries s' root) = d_inode dent" "d_op (dentries s' root) = Some wrapfs_dops"
      "s_fs_info (sbs s' sb) = Some p" "s_maxbytes (sbs s' sb) = s_maxbytes (sbs t sb)"
      "sb_infos s' = sb_infos t" "low s' = low t" "inodes s' = inodes u"
      "\<And>x. \<forall>q. x \<noteq> R_inode q \<and> x \<noteq> R_up_inode q \<Longrightarrow>
         held x (log s') = held x (log t) + (if x = R_dinfo info then 1 else 0)"
proof -
  from run obtain li i u where li: "d_inode (l_dentries (low t) ld) = Some li"
    and u: "wrapfs_iget V L sb li t = Some (i, u)"
    by (auto simp: read_super_root_def bind_Some_iff)
  note fr = iget_keeps [OF u, unfolded iget_frame_def]
  show ?thesis
  proof (cases i)
    case (ErrPtr e)
    with u have e: "e \<noteq> 0" by (auto elim!: iget_cases)
    from ErrPtr run li u have "read_super_out_sput e sb lsb lp u = Some (r, s')" by (simp add: read_super_root_def)
    moreover have "held x (log u) = held x (log t)" if "undone_resource e x" for x
      using that fr iget_up_refs [OF u] ErrPtr by (cases "\<exists>q. x = R_up_inode q") auto
    ultimately show ?thesis using out_sput_undone [of e sb lsb lp u r s' p t] fr p e by (intro failed) auto
  next
    case (Ptr inode)
    show ?thesis
    proof (cases "d_alloc_root P inode u")
      case None
      let ?u = "emit (Iput_up inode) (upd_sb sb (s_root_update (\<lambda>_. None)) u)"
      from None Ptr run li u have "read_super_out_sput (- ENOMEM) sb lsb lp ?u = Some (r, s')"
        by (simp add: read_super_root_def read_super_out_iput_def)
      moreover have "held x (log ?u) = held x (log t)" if "undone_resource (- ENOMEM) x" for x
        using that fr iget_up_refs [OF u] Ptr by (cases "\<exists>q. x = R_up_inode q") (auto simp: held_simps)
      ultimately show ?thesis using out_sput_undone [of "- ENOMEM" sb lsb lp ?u r s' p t] fr p
        by (intro failed) auto
    next
      case (Some a)
      obtain root dent where a: "a = (root, dent)" by fastforce
      define w where "w = upd_dentry root (\<lambda>_. dent\<lparr>d_op := Some wrapfs_dops, d_fsdata := None\<rparr>)
        (upd_sb sb (s_root_update (\<lambda>_. Some root)) u)"
      have step: "Option.bind (new_dentry_private_data L root w)
        (\<lambda>(err, s). if err \<noteq> 0 then read_super_out_freeroot err root inode sb lsb lp s
           else Option.bind (wrapfs_set_lower_path root lp s)
             (\<lambda>s. Some (0, upd_dentry root (d_unhashed_update (\<lambda>_. False)) s))) = Some (r, s')"
        using Some a Ptr run li u by (simp add: read_super_root_def Let_def w_def comp_def)
      then obtain c where c: "dentry_cachep w = Some c"
        by (auto simp: new_dentry_private_data_def bind_Some_iff)
      have "d_fsdata (dentries w root) = None" by (simp add: w_def)
      then have "wrapfs_d_release root w = None"
        using d_release_Some [of root w] by (cases "wrapfs_d_release root w") auto
      with step c obtain info where info: "kmem_cache_zalloc L c w = Some info"
        by (auto simp: new_dentry_private_data_def read_super_out_freeroot_def split: option.splits)
      have s': "s' = upd_dentry root (d_unhashed_update (\<lambda>_. False)) (emit (Spin_unlock info)
          (upd_dinfo info (lower_path_update (\<lambda>_. lp)) (emit (Spin_lock info)
            (upd_dentry root (d_fsdata_update (\<lambda>_. Some info))
              (upd_dinfo info (\<lambda>_. \<lparr>lower_path = null_path\<rparr>) (emit (Dinfo_alloc info) w))))))" "r = 0"
        using step c info
        by (auto simp: new_dentry_private_data_def wrapfs_set_lower_path_def link_simps Let_def)
      show ?thesis
        using Ptr u Some a li fr p s' by (intro mounted [of li inode u root dent info]) (simp_all add: w_def held_simps)
    qed
  qed
qed

section \<open>Lemmas on mount options\<close>

text \<open>
  The options that the mount obeys: \<open>mmap\<close> is in force when it occurs in the list and everything before it
  is empty or a \<open>debug\<close> option with a number.
\<close>

definition is_option :: "main_api \<Rightarrow> token \<Rightarrow> string \<Rightarrow> bool" where
  "is_option P tok p \<longleftrightarrow> p \<noteq> [] \<and> fst (match_token P p wrapfs_tokens) = token_val tok"

definition passed_over :: "main_api \<Rightarrow> string \<Rightarrow> bool" where
  "passed_over P p \<longleftrightarrow> p = [] \<or> is_option P Opt_debug p \<and> match_int P (snd (match_token P p wrapfs_tokens)) \<noteq> None"

definition mmap_requested :: "main_api \<Rightarrow> string list \<Rightarrow> bool" where
  "mmap_requested P ps \<longleftrightarrow> (\<exists>us p vs. ps = us @ p # vs \<and> is_option P Opt_mmap p \<and> (\<forall>u \<in> set us. passed_over P u))"

lemma mmap_requested_simps [simp]:
  "\<not> mmap_requested P []"
  "mmap_requested P (p # ps) \<longleftrightarrow> is_option P Opt_mmap p \<or> passed_over P p \<and> mmap_requested P ps"
proof -
  show "\<not> mmap_requested P []" by (simp add: mmap_requested_def)
  show "mmap_requested P (p # ps) \<longleftrightarrow> is_option P Opt_mmap p \<or> passed_over P p \<and> mmap_requested P ps" (is "?l \<longleftrightarrow> ?r")
  proof
    assume ?l
    then obtain us q vs where q: "p # ps = us @ q # vs" "is_option P Opt_mmap q" "\<forall>u \<in> set us. passed_over P u"
      unfolding mmap_requested_def by blast
    then show ?r by (cases us) (auto simp: mmap_requested_def)
  next
    assume ?r
    then show ?l
    proof
      assume "is_option P Opt_mmap p"
      then show ?l unfolding mmap_requested_def by (intro exI [of _ "[]"] exI [of _ p] exI [of _ ps]) simp
    next
      assume "passed_over P p \<and> mmap_requested P ps"
      then obtain us q vs where "ps = us @ q # vs" "is_option P Opt_mmap q" "\<forall>u \<in> set (p # us). passed_over P u"
        unfolding mmap_requested_def by auto
      then show ?l unfolding mmap_requested_def by (metis append_Cons)
    qed
  qed
qed


lemma parse_tokens_total: "\<exists>r s'. parse_tokens P sbi ps s = Some (r, s')"
  by (induction P sbi ps s rule: parse_tokens.induct) (auto split: option.splits prod.splits)

text \<open>\<open>strsep\<close> cuts at every comma and nowhere else.\<close>

fun join_commas :: "string list \<Rightarrow> string" where
  "join_commas [] = []"
| "join_commas [t] = t"
| "join_commas (t # ts) = t @ CHR '','' # join_commas ts"

lemma strsep_all_nonempty [simp]: "strsep_all s \<noteq> []"
  by (induction s) (auto split: list.splits)

lemma strsep_all_join: "join_commas (strsep_all s) = s \<and> (\<forall>t \<in> set (strsep_all s). CHR '','' \<notin> set t)"
proof (induction s)
  case (Cons c s)
  obtain t ts where t: "strsep_all s = t # ts" by (cases "strsep_all s") auto
  have j: "join_commas ((c # t) # ts) = c # join_commas (t # ts)" by (cases ts) auto
  from Cons t j show ?case by auto
qed simp

section \<open>Concrete parameters\<close>

definition ram_main :: main_api where
  "ram_main =
     \<lparr>kern_path = (\<lambda>_ l. (0, \<lparr>p_dentry = Some 12, p_mnt = Some 15\<rparr>, l)), kzalloc_sb_info = (\<lambda>_. Some 25),
      d_alloc_root = (\<lambda>i s. Some (26, blank_dentry\<lparr>d_inode := Some i, d_parent := 26, d_sb := 24\<rparr>)),
      match_token = (\<lambda>o' table. (case find (\<lambda>e. snd e = o') table of Some e \<Rightarrow> token_val (fst e) | None \<Rightarrow> - 1, [])), match_int = (\<lambda>_. None),
      mount_nodev = (\<lambda>fill s. Option.bind (fill 24 s) (\<lambda>(e, s). Some (if e = 0 then Ptr 26 else ErrPtr e, s))),
      register_filesystem = (\<lambda>_. 0)\<rparr>"

lemma read_super_run: "\<exists>s'. wrapfs_read_super ram_vfs ram_lookup ram_main 24 (Some ''/n'') dir_kst = Some (0, s')"
  by (simp add: wrapfs_read_super_def read_super_root_def wrapfs_iget_def iget_init_def iget_select_ops_def
      new_dentry_private_data_def wrapfs_set_lower_path_def ram_main_def ram_lookup_def state_defs link_simps
      S_ISDIR_def S_ISLNK_def S_ISBLK_def S_ISCHR_def S_ISFIFO_def S_ISSOCK_def Let_def)

section \<open>Properties\<close>

text \<open>C15: a mount that fails in \<open>wrapfs_read_super\<close>, and does not crash, gives back what it took: the
  active count of every lower super block is as before, and so is every count of path references, locks
  and private data, and of references to upper inodes unless the result is \<open>-ESTALE\<close>, where
  \<open>wrapfs_iget\<close> leaks one.  References to lower inodes are not counted: they belong to the upper inode, and
  without an inode one is dropped that was never taken.\<close>

theorem read_super_error_balanced:
  assumes "wrapfs_read_super V L P sb (Some dev) s = Some (r, s')" and "r \<noteq> 0"
    and "kern_path P dev (low s) = (e, lp, l)"
    and "\<forall>q. x \<noteq> R_inode q" and "r = - ESTALE \<longrightarrow> (\<forall>q. x \<noteq> R_up_inode q)"
  shows "l_sbs (low s') = l_sbs l \<and> held x (log s') = held x (log s)"
  using assms(1)
proof (cases rule: read_super_cases)
  case (prepared dev' lp' l' p ld t)
  have e: "lp' = lp" "l' = l" using prepared(1,2) assms(3) by auto
  note pr = prepared(4) [unfolded super_prepared_def e]
  show ?thesis
  proof (cases rule: read_super_root_cases [OF prepared(5), of p])
    case 2
    with pr assms(4,5) e show ?thesis by (auto simp: super_undone_def held_simps fun_eq_iff)
  qed (use pr assms(2) in auto)
qed (use assms in \<open>auto simp: held_simps\<close>)

theorem read_super_error_balanced_witness:
  "\<exists>s'. wrapfs_read_super ram_vfs ram_lookup (ram_main\<lparr>d_alloc_root := \<lambda>_ _. None\<rparr>) 24 (Some ''/n'') dir_kst
       = Some (- ENOMEM, s') \<and> held (R_path \<lparr>p_dentry = Some 12, p_mnt = Some 15\<rparr>) (log s') = 0 \<and>
       held (R_up_inode 42) (log s') = 0"
proof -
  let ?P = "ram_main\<lparr>d_alloc_root := \<lambda>_ _. None\<rparr>"
  obtain s' where s': "wrapfs_read_super ram_vfs ram_lookup ?P 24 (Some ''/n'') dir_kst = Some (- ENOMEM, s')"
    by (simp add: wrapfs_read_super_def read_super_root_def wrapfs_iget_def iget_init_def iget_select_ops_def
        read_super_out_iput_def read_super_out_sput_def read_super_out_free_def ram_main_def ram_lookup_def state_defs
        link_simps S_ISDIR_def S_ISLNK_def S_ISBLK_def S_ISCHR_def S_ISFIFO_def S_ISSOCK_def Let_def)
  have k: "kern_path ?P ''/n'' (low dir_kst) = (0, \<lparr>p_dentry = Some 12, p_mnt = Some 15\<rparr>, low dir_kst)"
    by (simp add: ram_main_def)
  have "log dir_kst = []" by (simp add: state_defs)
  with read_super_error_balanced [OF s' _ k, of "R_up_inode 42"]
    read_super_error_balanced [OF s' _ k, of "R_path \<lparr>p_dentry = Some 12, p_mnt = Some 15\<rparr>"] s'
  show ?thesis by simp
qed

text \<open>When the private data of the root dentry cannot be allocated, the exit path crashes: it drops the
  root dentry, whose release method follows the private data pointer, which is \<open>NULL\<close>.\<close>

theorem freeroot_oops:
  assumes "d_fsdata (dentries s root) = None"
  shows "read_super_out_freeroot err root inode sb lsb lp s = None"
  using assms d_release_Some [of root s] by (cases "wrapfs_d_release root s") (auto simp: read_super_out_freeroot_def)

text \<open>C5: a successful mount is complete: the super block has private data pointing at the lower super
  block and inherits its limits, no key and no option set, and its root dentry stores the lower path
  and stands for the lower directory.  Unmounting, that is releasing the root dentry and then
  \<open>wrapfs_put_super\<close>, succeeds and brings the active count of the lower super block and every count of
  paths, locks and private data back to what it was before the mount.\<close>

theorem mount_unmount_balanced:
  assumes law: "iget_law L" and run: "wrapfs_read_super V L P sb (Some dev) s = Some (0, s')"
    and path: "kern_path P dev (low s) = (0, lp, l)"
    and root_law: "\<forall>i u root dent. d_alloc_root P i u = Some (root, dent) \<longrightarrow> d_inode dent = Some i"
    and x: "\<forall>q. x \<noteq> R_inode q \<and> x \<noteq> R_up_inode q"
  shows "\<exists>p root info ld li inode s1 s2. s_fs_info (sbs s' sb) = Some p \<and> p_dentry lp = Some ld \<and>
    sb_infos s' p = \<lparr>lower_sb = Some (d_sb (l_dentries l ld)), keyVal = None, aops_enabled = 0\<rparr> \<and>
    s_maxbytes (sbs s' sb) = s_maxbytes (l_sbs l (d_sb (l_dentries l ld))) \<and>
    s_root (sbs s' sb) = Some root \<and> d_fsdata (dentries s' root) = Some info \<and> lower_path (dinfos s' info) = lp \<and>
    d_inode (dentries s' root) = Some inode \<and> d_inode (l_dentries l ld) = Some li \<and>
    lower_inode (inodes s' inode) = Some li \<and>
    wrapfs_d_release root s' = Some s1 \<and> wrapfs_put_super sb s1 = Some s2 \<and>
    l_sbs (low s2) = l_sbs l \<and> held x (log s2) = held x (log s)"
  using run
proof (cases rule: read_super_cases)
  case (prepared dev' lp' l' p ld t)
  have e: "lp' = lp" "l' = l" using prepared(1,2) path by auto
  let ?lsb = "d_sb (l_dentries l ld)"
  note pr = prepared(4) [unfolded super_prepared_def e]
  show ?thesis
  proof (cases rule: read_super_root_cases [OF prepared(5), of p])
    case (3 li inode u root dent info)
    have li: "lower_inode (inodes s' inode) = Some li" using iget_linked [OF law 3(3)] 3(14) by simp
    obtain s1 where s1: "wrapfs_d_release root s' = Some s1" using 3(6) by (auto simp: d_release_Some)
    have s1': "sbs s1 = sbs s'" "sb_infos s1 = sb_infos s'" "low s1 = low s'"
      "held x (log s1) = held x (log s') - (if x = R_path lp then 1 else 0) - (if x = R_dinfo info then 1 else 0)"
      using s1 3(6,7) e by (auto simp: d_release_Some held_simps)
    obtain s2 where s2: "wrapfs_put_super sb s1 = Some s2" and s2': "log s2 = log s1 @ [Sbinfo_free p]"
      "low s2 = l_sbs_update (\<lambda>h. h(?lsb := s_active_update (\<lambda>n. n - 1) (h ?lsb))) (low s1)"
      using s1' 3 pr by (simp add: wrapfs_put_super_def link_simps)
    have "l_sbs (low s2) = l_sbs l" using s2'(2) s1' 3(13) pr by (simp add: fun_eq_iff)
    moreover have "held x (log s2) = held x (log s)"
      using s2'(1) s1'(4) 3(15) [OF x] pr e by (auto simp: held_simps)
    ultimately show ?thesis
      using 3 pr e prepared(3) s1 s2 li root_law by (auto simp: fun_eq_iff)
  qed (use pr in auto)
qed (use path in auto)

theorem mount_unmount_balanced_witness:
  "\<exists>s' root s1 s2. wrapfs_read_super ram_vfs ram_lookup ram_main 24 (Some ''/n'') dir_kst = Some (0, s') \<and>
     s_root (sbs s' 24) = Some root \<and> wrapfs_d_release root s' = Some s1 \<and> wrapfs_put_super 24 s1 = Some s2 \<and>
     held (R_sbinfo 25) (log s2) = 0"
proof -
  obtain s' where s': "wrapfs_read_super ram_vfs ram_lookup ram_main 24 (Some ''/n'') dir_kst = Some (0, s')"
    using read_super_run ..
  have k: "kern_path ram_main ''/n'' (low dir_kst) = (0, \<lparr>p_dentry = Some 12, p_mnt = Some 15\<rparr>, low dir_kst)"
    and r: "\<forall>i u root dent. d_alloc_root ram_main i u = Some (root, dent) \<longrightarrow> d_inode dent = Some i"
    by (auto simp: ram_main_def)
  have "held (R_sbinfo 25) (log dir_kst) = 0" by (simp add: state_defs)
  with mount_unmount_balanced [OF ram_lookup_laws(1) s' k r, of "R_sbinfo 25"] s' show ?thesis by auto
qed

lemma mount_key:
  assumes "wrapfs_mount V L P dev raw s = Some (d, s')"
  shows "\<exists>root p. d = Ptr root \<and> s_fs_info (sbs s' (d_sb (dentries s' root))) = Some p \<and> keyVal (sb_infos s' p) = None"
proof -
  from assms obtain d0 s1 where "mount_nodev P (\<lambda>sb. wrapfs_read_super V L P sb dev) s = Some (d0, s1)"
    unfolding wrapfs_mount_def by (auto split: Option.bind_split_asm)
  with assms obtain root t where "d = Ptr root" and "wrapfs_set_enc_key (d_sb (dentries t root)) None t = Some s'"
    by (cases d0) (auto simp: wrapfs_mount_def bind_Some_iff)
  then show ?thesis by (auto simp: link_simps)
qed




text \<open>\<open>mount_nodev\<close> returns a dentry only when the function it was given has returned 0 on some super block.\<close>

definition nodev_law :: "main_api \<Rightarrow> bool" where
  "nodev_law P \<longleftrightarrow> (\<forall>fill s root s'. mount_nodev P fill s = Some (Ptr root, s') \<longrightarrow>
     (\<exists>sb s0 s1. fill sb s0 = Some (0, s1)))"

text \<open>C40: mounting a directory that cannot be found crashes the kernel.  Without a device name, or with one
  that the lower file system cannot resolve, \<open>wrapfs_read_super\<close> returns an error, so \<open>mount_nodev\<close> returns an
  error pointer; \<open>wrapfs_mount\<close>, which only tests for \<open>NULL\<close>, reads the super block through it, whatever the
  options are.\<close>

theorem mount_failure_oops:
  assumes "nodev_law P" and "dev = None \<or> (\<exists>name. dev = Some name \<and> (\<forall>l. fst (kern_path P name l) \<noteq> 0))"
  shows "wrapfs_mount V L P dev raw s = None"
proof -
  have "wrapfs_read_super V L P sb dev s0 \<noteq> Some (0, s1)" for sb s0 s1
  proof
    assume run: "wrapfs_read_super V L P sb dev s0 = Some (0, s1)"
    have k: "kern_path P name (low s0) \<noteq> (0, lp, l)" if "dev = Some name" for name lp l
      using assms(2) that by (metis fst_conv option.distinct(1) option.inject)
    from run show False by (cases rule: read_super_cases) (use k in auto)
  qed
  with assms(1) have "mount_nodev P (\<lambda>sb. wrapfs_read_super V L P sb dev) s \<noteq> Some (Ptr root, s')" for root s'
    unfolding nodev_law_def by blast
  moreover obtain r s' where "mount_nodev P (\<lambda>sb. wrapfs_read_super V L P sb dev) s = None \<or>
      mount_nodev P (\<lambda>sb. wrapfs_read_super V L P sb dev) s = Some (r, s')"
    by (cases "mount_nodev P (\<lambda>sb. wrapfs_read_super V L P sb dev) s") auto
  ultimately show ?thesis by (cases r) (auto simp: wrapfs_mount_def)
qed

theorem mount_failure_oops_witness:
  "wrapfs_mount ram_vfs ram_lookup (ram_main\<lparr>kern_path := \<lambda>_ l. (- ENOENT, null_path, l)\<rparr>) (Some ''/missing'') (Some ''mmap'')
     dir_kst = None"
proof (rule mount_failure_oops)
  show "nodev_law (ram_main\<lparr>kern_path := \<lambda>_ l. (- ENOENT, null_path, l)\<rparr>)"
    by (auto simp: nodev_law_def ram_main_def bind_Some_iff split: if_splits)
qed simp

text \<open>A module initialisation that fails destroys the caches it has created, and only those, when no
  cache existed before; one that succeeds is undone by the exit function.\<close>

theorem init_exit_balanced:
  assumes "init_wrapfs_fs A P s = (r, s')" and "inode_cachep s = None" "dentry_cachep s = None"
  shows "held x (log (if r \<noteq> 0 then s' else exit_wrapfs_fs s')) = held x (log s)"
  using assms
  by (auto simp: init_wrapfs_fs_def exit_wrapfs_fs_def wrapfs_init_inode_cache_def wrapfs_init_dentry_cache_def
      wrapfs_destroy_inode_cache_def wrapfs_destroy_dentry_cache_def Let_def held_simps split: option.splits if_splits)

theorem init_exit_balanced_witness:
  "held (R_cache 77) (log (exit_wrapfs_fs (snd (init_wrapfs_fs \<lparr>kmem_cache_create = \<lambda>_ _. Some 77,
     kmem_cache_alloc = \<lambda>_ _. None, inode_init_once = \<lambda>i. i, vfs_statfs = \<lambda>_ _. (0, \<lparr>f_type = 0, f_blocks = 0, f_bfree = 0\<rparr>),
     lower_umount_begin = \<lambda>_ l. l, super_magic = 0\<rparr> ram_main blank_kst)))) = 0"
proof -
  let ?A = "\<lparr>kmem_cache_create = \<lambda>_ _. Some 77,
     kmem_cache_alloc = \<lambda>_ _. None, inode_init_once = \<lambda>i. i, vfs_statfs = \<lambda>_ _. (0, \<lparr>f_type = 0, f_blocks = 0, f_bfree = 0\<rparr>),
     lower_umount_begin = \<lambda>_ l. l, super_magic = 0\<rparr> :: super_api"
  obtain s' where s': "init_wrapfs_fs ?A ram_main blank_kst = (0, s')"
    by (simp add: init_wrapfs_fs_def wrapfs_init_inode_cache_def wrapfs_init_dentry_cache_def ram_main_def)
  from init_exit_balanced [OF s', of "R_cache 77"] s' show ?thesis by (simp add: blank_kst_def)
qed

end
