(* ===== verification/Inode.thy ===== *)
theory Inode
  imports Dentry
begin

text \<open>
  \<^verbatim>\<open>inode.c\<close>: the operations on names (create, link, unlink, symlink, mkdir, rmdir, mknod, rename),
  symbolic links, permissions and attributes.  Each takes references to the lower objects, locks the
  lower directory, asks for write access to the lower mount, calls the lower operation, updates the
  upper objects and gives everything back on every path.
\<close>

section \<open>Parameters\<close>

record iattr =
  ia_valid :: u32
  ia_mode :: u16
  ia_size :: int
  ia_file :: "ptr option"

text \<open>
  The functions of the VFS that act on the lower file system.  A lower directory is given as the
  \<open>d_inode\<close> of a dentry, read at the call.  \<open>lower_readlink\<close> is the method of the lower inode; whether
  it may store into a kernel buffer depends on the address limit.
\<close>

record inode_api =
  mnt_want_write :: "ptr option \<Rightarrow> lower_st \<Rightarrow> int"
  vfs_create :: "ptr option \<Rightarrow> ptr \<Rightarrow> int \<Rightarrow> nameidata \<Rightarrow> lower_st \<Rightarrow> int \<times> nameidata \<times> lower_st"
  vfs_link :: "ptr \<Rightarrow> ptr option \<Rightarrow> ptr \<Rightarrow> lower_st \<Rightarrow> int \<times> lower_st"
  vfs_unlink :: "ptr option \<Rightarrow> ptr \<Rightarrow> lower_st \<Rightarrow> int \<times> lower_st"
  vfs_symlink :: "ptr option \<Rightarrow> ptr \<Rightarrow> string \<Rightarrow> lower_st \<Rightarrow> int \<times> lower_st"
  vfs_mkdir :: "ptr option \<Rightarrow> ptr \<Rightarrow> int \<Rightarrow> lower_st \<Rightarrow> int \<times> lower_st"
  vfs_rmdir :: "ptr option \<Rightarrow> ptr \<Rightarrow> lower_st \<Rightarrow> int \<times> lower_st"
  vfs_mknod :: "ptr option \<Rightarrow> ptr \<Rightarrow> int \<Rightarrow> nat \<Rightarrow> lower_st \<Rightarrow> int \<times> lower_st"
  lock_rename :: "ptr \<Rightarrow> ptr \<Rightarrow> lower_st \<Rightarrow> ptr option"
  vfs_rename :: "ptr option \<Rightarrow> ptr \<Rightarrow> ptr option \<Rightarrow> ptr \<Rightarrow> lower_st \<Rightarrow> int \<times> lower_st"
  lower_readlink :: "ptr \<Rightarrow> int \<Rightarrow> mm_segment \<Rightarrow> lower_st \<Rightarrow> int \<times> buffer \<times> lower_st"
  inode_permission :: "ptr \<Rightarrow> int \<Rightarrow> lower_st \<Rightarrow> int"
  inode_change_ok :: "inode \<Rightarrow> iattr \<Rightarrow> int"
  inode_newsize_ok :: "inode \<Rightarrow> int \<Rightarrow> int"
  notify_change :: "ptr \<Rightarrow> iattr \<Rightarrow> lower_st \<Rightarrow> int \<times> lower_st"

definition ATTR_MODE :: u32 where "ATTR_MODE = 1"
definition ATTR_SIZE :: u32 where "ATTR_SIZE = 8"
definition ATTR_KILL_SUID :: u32 where "ATTR_KILL_SUID = 0x800"
definition ATTR_KILL_SGID :: u32 where "ATTR_KILL_SGID = 0x1000"
definition ATTR_FILE :: u32 where "ATTR_FILE = 0x2000"

text \<open>Small functions of the kernel on one inode or dentry.\<close>

abbreviation set_nlink :: "ptr \<Rightarrow> nat \<Rightarrow> kst \<Rightarrow> kst" where
  "set_nlink i n \<equiv> upd_inode i (i_nlink_update (\<lambda>_. n))"

abbreviation d_drop :: "ptr \<Rightarrow> kst \<Rightarrow> kst" where
  "d_drop d \<equiv> upd_dentry d (d_unhashed_update (\<lambda>_. True))"

abbreviation copy_attr_times :: "vfs_api \<Rightarrow> ptr \<Rightarrow> inode \<Rightarrow> kst \<Rightarrow> kst" where
  "copy_attr_times V i src \<equiv> upd_inode i (\<lambda>x. fsstack_copy_attr_times V x src)"

abbreviation copy_attr_all :: "vfs_api \<Rightarrow> ptr \<Rightarrow> inode \<Rightarrow> kst \<Rightarrow> kst" where
  "copy_attr_all V i src \<equiv> upd_inode i (\<lambda>x. fsstack_copy_attr_all V x src)"

abbreviation copy_inode_size :: "vfs_api \<Rightarrow> ptr \<Rightarrow> inode \<Rightarrow> kst \<Rightarrow> kst" where
  "copy_inode_size V i src \<equiv> upd_inode i (\<lambda>x. fsstack_copy_inode_size V x src)"

abbreviation lower_d_inode :: "kst \<Rightarrow> ptr \<Rightarrow> ptr option" where
  "lower_d_inode s d \<equiv> d_inode (l_dentries (low s) d)"

text \<open>A call of a function of the lower file system that gives an error number and a new lower state.\<close>

abbreviation lower_op :: "string \<Rightarrow> lower_st \<Rightarrow> kst \<Rightarrow> kst" where
  "lower_op name l s \<equiv> emit (Lower_call name) (low_update (\<lambda>_. l) s)"

section \<open>The exits\<close>

text \<open>The labels \<open>out_unlock\<close> and \<open>out\<close>, which create, symlink, mkdir, rmdir and mknod spell alike.\<close>

definition inode_out_unlock :: "ptr \<Rightarrow> ptr \<Rightarrow> path \<Rightarrow> int \<Rightarrow> kst \<Rightarrow> int run" where
  "inode_out_unlock dentry lower_parent lp err s = do {
     s \<leftarrow> unlock_dir lower_parent s;
     Some (err, wrapfs_put_lower_path dentry lp s)
   }"

definition inode_out :: "ptr \<Rightarrow> ptr \<Rightarrow> path \<Rightarrow> int \<Rightarrow> kst \<Rightarrow> int run" where
  "inode_out dentry lower_parent lp err s =
     inode_out_unlock dentry lower_parent lp err (emit (Mnt_drop_write (p_mnt lp)) s)"

text \<open>
  What create, symlink, mkdir and mknod do after the lower operation has returned \<open>err\<close>: interpose
  on the new lower object and update the directory.
\<close>

definition interpose_new :: "vfs_api \<Rightarrow> lookup_api \<Rightarrow> ptr \<Rightarrow> ptr \<Rightarrow> ptr \<Rightarrow> path \<Rightarrow> int \<Rightarrow> kst \<Rightarrow> int run" where
  "interpose_new V L dir dentry lower_parent lp err s =
     (if err \<noteq> 0 then Some (err, s)
      else do {
        (err, s) \<leftarrow> wrapfs_interpose V L dentry (i_sb (vfs_inode (inodes s dir))) lp s;
        if err \<noteq> 0 then Some (err, s)
        else do {
          li \<leftarrow> wrapfs_lower_inode s dir;
          let s = copy_attr_times V dir (l_inodes (low s) li) s;
          lpi \<leftarrow> lower_d_inode s lower_parent;
          Some (0, copy_inode_size V dir (l_inodes (low s) lpi) s)
        }
      })"

section \<open>Creating names\<close>

definition wrapfs_create ::
  "inode_api \<Rightarrow> vfs_api \<Rightarrow> lookup_api \<Rightarrow> ptr \<Rightarrow> ptr \<Rightarrow> int \<Rightarrow> nameidata option \<Rightarrow> kst
    \<Rightarrow> (int \<times> nameidata option) run" where
  "wrapfs_create I V L dir dentry mode nd s = do {
     (lp, s) \<leftarrow> wrapfs_get_lower_path dentry s;
     lower_dentry \<leftarrow> p_dentry lp;
     (lower_parent, s) \<leftarrow> lock_parent lower_dentry s;
     let err = mnt_want_write I (p_mnt lp) (low s);
     if err \<noteq> 0 then do {
       (err, s) \<leftarrow> inode_out_unlock dentry lower_parent lp err s;
       Some ((err, nd), s)
     }
     else do {
       let s = emit (Mnt_want_write (p_mnt lp)) s;
       n \<leftarrow> nd; \<comment> \<open>\<open>&nd->path\<close>\<close>
       let saved_path = pathcpy null_path (nd_path n);
       let n = nd_path_update (\<lambda>p. pathcpy p lp) n;
       let (err, n, l) = vfs_create I (lower_d_inode s lower_parent) lower_dentry mode n (low s);
       let s = lower_op ''vfs_create'' l s;
       let n = nd_path_update (\<lambda>p. pathcpy p saved_path) n;
       (err, s) \<leftarrow> interpose_new V L dir dentry lower_parent lp err s;
       (err, s) \<leftarrow> inode_out dentry lower_parent lp err s;
       Some ((err, Some n), s)
     }
   }"

definition wrapfs_symlink ::
  "inode_api \<Rightarrow> vfs_api \<Rightarrow> lookup_api \<Rightarrow> ptr \<Rightarrow> ptr \<Rightarrow> string \<Rightarrow> kst \<Rightarrow> int run" where
  "wrapfs_symlink I V L dir dentry symname s = do {
     (lp, s) \<leftarrow> wrapfs_get_lower_path dentry s;
     lower_dentry \<leftarrow> p_dentry lp;
     (lower_parent, s) \<leftarrow> lock_parent lower_dentry s;
     let err = mnt_want_write I (p_mnt lp) (low s);
     if err \<noteq> 0 then inode_out_unlock dentry lower_parent lp err s
     else do {
       let s = emit (Mnt_want_write (p_mnt lp)) s;
       let (err, l) = vfs_symlink I (lower_d_inode s lower_parent) lower_dentry symname (low s);
       let s = lower_op ''vfs_symlink'' l s;
       (err, s) \<leftarrow> interpose_new V L dir dentry lower_parent lp err s;
       inode_out dentry lower_parent lp err s
     }
   }"

definition wrapfs_mkdir ::
  "inode_api \<Rightarrow> vfs_api \<Rightarrow> lookup_api \<Rightarrow> ptr \<Rightarrow> ptr \<Rightarrow> int \<Rightarrow> kst \<Rightarrow> int run" where
  "wrapfs_mkdir I V L dir dentry mode s = do {
     (lp, s) \<leftarrow> wrapfs_get_lower_path dentry s;
     lower_dentry \<leftarrow> p_dentry lp;
     (lower_parent, s) \<leftarrow> lock_parent lower_dentry s;
     let err = mnt_want_write I (p_mnt lp) (low s);
     if err \<noteq> 0 then inode_out_unlock dentry lower_parent lp err s
     else do {
       let s = emit (Mnt_want_write (p_mnt lp)) s;
       let (err, l) = vfs_mkdir I (lower_d_inode s lower_parent) lower_dentry mode (low s);
       let s = lower_op ''vfs_mkdir'' l s;
       (err, s) \<leftarrow> interpose_new V L dir dentry lower_parent lp err s;
       s \<leftarrow> (if err \<noteq> 0 then Some s
            else do {
              li \<leftarrow> wrapfs_lower_inode s dir;
              Some (set_nlink dir (i_nlink (l_inodes (low s) li)) s)
            });
       inode_out dentry lower_parent lp err s
     }
   }"

definition wrapfs_mknod ::
  "inode_api \<Rightarrow> vfs_api \<Rightarrow> lookup_api \<Rightarrow> ptr \<Rightarrow> ptr \<Rightarrow> int \<Rightarrow> nat \<Rightarrow> kst \<Rightarrow> int run" where
  "wrapfs_mknod I V L dir dentry mode dev s = do {
     (lp, s) \<leftarrow> wrapfs_get_lower_path dentry s;
     lower_dentry \<leftarrow> p_dentry lp;
     (lower_parent, s) \<leftarrow> lock_parent lower_dentry s;
     let err = mnt_want_write I (p_mnt lp) (low s);
     if err \<noteq> 0 then inode_out_unlock dentry lower_parent lp err s
     else do {
       let s = emit (Mnt_want_write (p_mnt lp)) s;
       let (err, l) = vfs_mknod I (lower_d_inode s lower_parent) lower_dentry mode dev (low s);
       let s = lower_op ''vfs_mknod'' l s;
       (err, s) \<leftarrow> interpose_new V L dir dentry lower_parent lp err s;
       inode_out dentry lower_parent lp err s
     }
   }"

text \<open>The labels \<open>out_unlock\<close> and \<open>out\<close> of \<open>wrapfs_link\<close>.\<close>

definition link_out_unlock :: "ptr \<Rightarrow> ptr \<Rightarrow> ptr \<Rightarrow> path \<Rightarrow> path \<Rightarrow> int \<Rightarrow> kst \<Rightarrow> int run" where
  "link_out_unlock old_dentry new_dentry lower_dir old_lp new_lp err s = do {
     s \<leftarrow> unlock_dir lower_dir s;
     let s = wrapfs_put_lower_path old_dentry old_lp s;
     Some (err, wrapfs_put_lower_path new_dentry new_lp s)
   }"

definition link_out :: "ptr \<Rightarrow> ptr \<Rightarrow> ptr \<Rightarrow> path \<Rightarrow> path \<Rightarrow> int \<Rightarrow> kst \<Rightarrow> int run" where
  "link_out old_dentry new_dentry lower_dir old_lp new_lp err s =
     link_out_unlock old_dentry new_dentry lower_dir old_lp new_lp err (emit (Mnt_drop_write (p_mnt new_lp)) s)"

text \<open>From the test after \<open>vfs_link\<close> to the label \<open>out\<close>.\<close>

definition link_new ::
  "vfs_api \<Rightarrow> lookup_api \<Rightarrow> ptr \<Rightarrow> ptr \<Rightarrow> ptr \<Rightarrow> ptr \<Rightarrow> path \<Rightarrow> int \<Rightarrow> int \<Rightarrow> kst \<Rightarrow> int run" where
  "link_new V L old_dentry dir new_dentry lower_new_dentry new_lp file_size_save err s =
     (if err \<noteq> 0 \<or> lower_d_inode s lower_new_dentry = None then Some (err, s)
      else do {
        (err, s) \<leftarrow> wrapfs_interpose V L new_dentry (i_sb (vfs_inode (inodes s dir))) new_lp s;
        if err \<noteq> 0 then Some (err, s)
        else do {
          lni \<leftarrow> lower_d_inode s lower_new_dentry;
          let s = copy_attr_times V dir (l_inodes (low s) lni) s;
          let s = copy_inode_size V dir (l_inodes (low s) lni) s;
          old_inode \<leftarrow> d_inode (dentries s old_dentry);
          loi \<leftarrow> wrapfs_lower_inode s old_inode;
          let s = set_nlink old_inode (i_nlink (l_inodes (low s) loi)) s;
          ni \<leftarrow> d_inode (dentries s new_dentry);
          Some (0, i_size_write ni file_size_save s)
        }
      })"

definition wrapfs_link ::
  "inode_api \<Rightarrow> vfs_api \<Rightarrow> lookup_api \<Rightarrow> ptr \<Rightarrow> ptr \<Rightarrow> ptr \<Rightarrow> kst \<Rightarrow> int run" where
  "wrapfs_link I V L old_dentry dir new_dentry s = do {
     old_inode \<leftarrow> d_inode (dentries s old_dentry);
     let file_size_save = i_size_read old_inode s;
     (old_lp, s) \<leftarrow> wrapfs_get_lower_path old_dentry s;
     (new_lp, s) \<leftarrow> wrapfs_get_lower_path new_dentry s;
     lower_new_dentry \<leftarrow> p_dentry new_lp;
     (lower_dir, s) \<leftarrow> lock_parent lower_new_dentry s;
     let err = mnt_want_write I (p_mnt new_lp) (low s);
     if err \<noteq> 0 then link_out_unlock old_dentry new_dentry lower_dir old_lp new_lp err s
     else do {
       let s = emit (Mnt_want_write (p_mnt new_lp)) s;
       lower_old_dentry \<leftarrow> p_dentry old_lp;
       let (err, l) = vfs_link I lower_old_dentry (lower_d_inode s lower_dir) lower_new_dentry (low s);
       let s = lower_op ''vfs_link'' l s;
       (err, s) \<leftarrow> link_new V L old_dentry dir new_dentry lower_new_dentry new_lp file_size_save err s;
       link_out old_dentry new_dentry lower_dir old_lp new_lp err s
     }
   }"

section \<open>Removing names\<close>

text \<open>The labels \<open>out_unlock\<close> and \<open>out\<close> of \<open>wrapfs_unlink\<close>.\<close>

definition unlink_out_unlock :: "ptr \<Rightarrow> ptr \<Rightarrow> ptr \<Rightarrow> path \<Rightarrow> int \<Rightarrow> kst \<Rightarrow> int run" where
  "unlink_out_unlock dentry lower_dentry lower_dir lp err s = do {
     s \<leftarrow> unlock_dir lower_dir s;
     let s = emit (Dput lower_dentry) s;
     Some (err, wrapfs_put_lower_path dentry lp s)
   }"

definition unlink_out :: "ptr \<Rightarrow> ptr \<Rightarrow> ptr \<Rightarrow> path \<Rightarrow> int \<Rightarrow> kst \<Rightarrow> int run" where
  "unlink_out dentry lower_dentry lower_dir lp err s =
     unlink_out_unlock dentry lower_dentry lower_dir lp err (emit (Mnt_drop_write (p_mnt lp)) s)"

text \<open>The updates of the upper directory and inode after a successful removal.\<close>

definition unlink_done :: "vfs_api \<Rightarrow> ptr \<Rightarrow> ptr \<Rightarrow> ptr option \<Rightarrow> kst \<Rightarrow> kst option" where
  "unlink_done V dir dentry lower_dir_inode s = do {
     ldi \<leftarrow> lower_dir_inode;
     let s = copy_attr_times V dir (l_inodes (low s) ldi) s;
     let s = copy_inode_size V dir (l_inodes (low s) ldi) s;
     inode \<leftarrow> d_inode (dentries s dentry);
     li \<leftarrow> wrapfs_lower_inode s inode;
     let s = set_nlink inode (i_nlink (l_inodes (low s) li)) s;
     let s = upd_inode inode (i_ctime_update (\<lambda>_. i_ctime (vfs_inode (inodes s dir)))) s;
     Some (d_drop dentry s)
   }"

definition wrapfs_unlink :: "inode_api \<Rightarrow> vfs_api \<Rightarrow> ptr \<Rightarrow> ptr \<Rightarrow> kst \<Rightarrow> int run" where
  "wrapfs_unlink I V dir dentry s = do {
     let lower_dir_inode = wrapfs_lower_inode s dir;
     (lp, s) \<leftarrow> wrapfs_get_lower_path dentry s;
     lower_dentry \<leftarrow> p_dentry lp;
     let s = emit (Dget lower_dentry) s;
     (lower_dir, s) \<leftarrow> lock_parent lower_dentry s;
     let err = mnt_want_write I (p_mnt lp) (low s);
     if err \<noteq> 0 then unlink_out_unlock dentry lower_dentry lower_dir lp err s
     else do {
       let s = emit (Mnt_want_write (p_mnt lp)) s;
       let (err, l) = vfs_unlink I lower_dir_inode lower_dentry (low s);
       let s = lower_op ''vfs_unlink'' l s;
       let err = (if err = - EBUSY \<and> d_nfs_renamed (l_dentries (low s) lower_dentry) then 0 else err);
       if err \<noteq> 0 then unlink_out dentry lower_dentry lower_dir lp err s
       else do {
         s \<leftarrow> unlink_done V dir dentry lower_dir_inode s;
         unlink_out dentry lower_dentry lower_dir lp err s
       }
     }
   }"

definition wrapfs_rmdir :: "inode_api \<Rightarrow> vfs_api \<Rightarrow> ptr \<Rightarrow> ptr \<Rightarrow> kst \<Rightarrow> int run" where
  "wrapfs_rmdir I V dir dentry s = do {
     (lp, s) \<leftarrow> wrapfs_get_lower_path dentry s;
     lower_dentry \<leftarrow> p_dentry lp;
     (lower_dir, s) \<leftarrow> lock_parent lower_dentry s;
     let err = mnt_want_write I (p_mnt lp) (low s);
     if err \<noteq> 0 then inode_out_unlock dentry lower_dir lp err s
     else do {
       let s = emit (Mnt_want_write (p_mnt lp)) s;
       let (err, l) = vfs_rmdir I (lower_d_inode s lower_dir) lower_dentry (low s);
       let s = lower_op ''vfs_rmdir'' l s;
       if err \<noteq> 0 then inode_out dentry lower_dir lp err s
       else do {
         let s = d_drop dentry s;
         let s = (case d_inode (dentries s dentry) of None \<Rightarrow> s | Some i \<Rightarrow> set_nlink i 0 s); \<comment> \<open>\<open>clear_nlink\<close>\<close>
         ldi \<leftarrow> lower_d_inode s lower_dir;
         let s = copy_attr_times V dir (l_inodes (low s) ldi) s;
         let s = copy_inode_size V dir (l_inodes (low s) ldi) s;
         let s = set_nlink dir (i_nlink (l_inodes (low s) ldi)) s;
         inode_out dentry lower_dir lp err s
       }
     }
   }"

section \<open>Renaming\<close>

text \<open>The labels \<open>out\<close>, \<open>out_drop_old_write\<close> and \<open>out_err\<close>, each falling through to the one before.\<close>

definition rename_out :: "ptr \<Rightarrow> ptr \<Rightarrow> ptr \<Rightarrow> ptr \<Rightarrow> path \<Rightarrow> path \<Rightarrow> int \<Rightarrow> kst \<Rightarrow> int run" where
  "rename_out old_dentry new_dentry old_ldir new_ldir old_lp new_lp err s =
     (let s = emit (Unlock_rename old_ldir new_ldir) s;
          s = emit (Dput old_ldir) s;
          s = emit (Dput new_ldir) s;
          s = wrapfs_put_lower_path old_dentry old_lp s;
          s = wrapfs_put_lower_path new_dentry new_lp s
      in Some (err, s))"

definition rename_out_drop_old :: "ptr \<Rightarrow> ptr \<Rightarrow> ptr \<Rightarrow> ptr \<Rightarrow> path \<Rightarrow> path \<Rightarrow> int \<Rightarrow> kst \<Rightarrow> int run" where
  "rename_out_drop_old old_dentry new_dentry old_ldir new_ldir old_lp new_lp err s =
     rename_out old_dentry new_dentry old_ldir new_ldir old_lp new_lp err (emit (Mnt_drop_write (p_mnt old_lp)) s)"

definition rename_out_err :: "ptr \<Rightarrow> ptr \<Rightarrow> ptr \<Rightarrow> ptr \<Rightarrow> path \<Rightarrow> path \<Rightarrow> int \<Rightarrow> kst \<Rightarrow> int run" where
  "rename_out_err old_dentry new_dentry old_ldir new_ldir old_lp new_lp err s =
     rename_out_drop_old old_dentry new_dentry old_ldir new_ldir old_lp new_lp err
       (emit (Mnt_drop_write (p_mnt new_lp)) s)"

text \<open>The updates of the two upper directories.\<close>

definition rename_done :: "vfs_api \<Rightarrow> ptr \<Rightarrow> ptr \<Rightarrow> ptr \<Rightarrow> ptr \<Rightarrow> kst \<Rightarrow> kst option" where
  "rename_done V old_dir new_dir old_ldir new_ldir s = do {
     ni \<leftarrow> lower_d_inode s new_ldir;
     let s = copy_attr_all V new_dir (l_inodes (low s) ni) s;
     let s = copy_inode_size V new_dir (l_inodes (low s) ni) s;
     if new_dir = old_dir then Some s
     else do {
       oi \<leftarrow> lower_d_inode s old_ldir;
       let s = copy_attr_all V old_dir (l_inodes (low s) oi) s;
       Some (copy_inode_size V old_dir (l_inodes (low s) oi) s)
     }
   }"

definition wrapfs_rename ::
  "inode_api \<Rightarrow> vfs_api \<Rightarrow> ptr \<Rightarrow> ptr \<Rightarrow> ptr \<Rightarrow> ptr \<Rightarrow> kst \<Rightarrow> int run" where
  "wrapfs_rename I V old_dir old_dentry new_dir new_dentry s = do {
     (old_lp, s) \<leftarrow> wrapfs_get_lower_path old_dentry s;
     (new_lp, s) \<leftarrow> wrapfs_get_lower_path new_dentry s;
     lower_old \<leftarrow> p_dentry old_lp;
     lower_new \<leftarrow> p_dentry new_lp;
     let old_ldir = d_parent (l_dentries (low s) lower_old);
     let s = emit (Dget old_ldir) s;
     let new_ldir = d_parent (l_dentries (low s) lower_new);
     let s = emit (Dget new_ldir) s;
     let trap = lock_rename I old_ldir new_ldir (low s);
     let s = emit (Lock_rename old_ldir new_ldir) s;
     if trap = Some lower_old then rename_out old_dentry new_dentry old_ldir new_ldir old_lp new_lp (- EINVAL) s
     else if trap = Some lower_new
     then rename_out old_dentry new_dentry old_ldir new_ldir old_lp new_lp (- ENOTEMPTY) s
     else do {
       let err = mnt_want_write I (p_mnt old_lp) (low s);
       if err \<noteq> 0 then rename_out old_dentry new_dentry old_ldir new_ldir old_lp new_lp err s
       else do {
         let s = emit (Mnt_want_write (p_mnt old_lp)) s;
         let err = mnt_want_write I (p_mnt new_lp) (low s);
         if err \<noteq> 0 then rename_out_drop_old old_dentry new_dentry old_ldir new_ldir old_lp new_lp err s
         else do {
           let s = emit (Mnt_want_write (p_mnt new_lp)) s;
           let (err, l) = vfs_rename I (lower_d_inode s old_ldir) lower_old (lower_d_inode s new_ldir) lower_new (low s);
           let s = lower_op ''vfs_rename'' l s;
           if err \<noteq> 0 then rename_out_err old_dentry new_dentry old_ldir new_ldir old_lp new_lp err s
           else do {
             s \<leftarrow> rename_done V old_dir new_dir old_ldir new_ldir s;
             rename_out_err old_dentry new_dentry old_ldir new_ldir old_lp new_lp err s
           }
         }
       }
     }
   }"

section \<open>Symbolic links\<close>

fun has_iop :: "iops \<Rightarrow> iop_method \<Rightarrow> bool" where
  "has_iop wrapfs_symlink_iops m = (m \<in> {I_readlink, I_permission, I_follow_link, I_setattr, I_put_link})"
| "has_iop wrapfs_dir_iops m = (m \<in> {I_create, I_lookup, I_link, I_unlink, I_symlink, I_mkdir, I_rmdir,
     I_mknod, I_rename, I_permission, I_setattr})"
| "has_iop wrapfs_main_iops m = (m \<in> {I_permission, I_setattr})"
| "has_iop (foreign_iops ms) m = (m \<in> set ms)"

text \<open>The second component of the result is what was stored into \<open>buf\<close>, if anything was.\<close>

definition wrapfs_readlink :: "inode_api \<Rightarrow> vfs_api \<Rightarrow> ptr \<Rightarrow> int \<Rightarrow> kst \<Rightarrow> (int \<times> buffer option) run" where
  "wrapfs_readlink I V dentry bufsiz s = do {
     (lp, s) \<leftarrow> wrapfs_get_lower_path dentry s;
     lower_dentry \<leftarrow> p_dentry lp;
     li \<leftarrow> lower_d_inode s lower_dentry;
     (r, s) \<leftarrow>
       (if (case i_op (l_inodes (low s) li) of None \<Rightarrow> True | Some ops \<Rightarrow> \<not> has_iop ops I_readlink)
        then Some ((- EINVAL, None), s)
        else do {
          let (err, data, l) = lower_readlink I lower_dentry bufsiz (addr_limit s) (low s);
          let s = lower_op ''readlink'' l s;
          if err < 0 then Some ((err, Some data), s)
          else do {
            inode \<leftarrow> d_inode (dentries s dentry);
            li \<leftarrow> lower_d_inode s lower_dentry;
            Some ((err, Some data), upd_inode inode (\<lambda>x. fsstack_copy_attr_atime V x (l_inodes (low s) li)) s)
          }
        });
     Some (r, wrapfs_put_lower_path dentry lp s)
   }"

text \<open>
  The lower method stores into the new buffer, which has \<open>PAGE_SIZE\<close> bytes.  The sources store the
  terminator at \<open>buf[err]\<close> without a test; when the link fills the buffer, that byte is outside of it.  The
  behaviour of a store outside of every object is undefined, so its result is \<^const>\<open>None\<close>, like that of a
  dereference of \<open>NULL\<close>.
\<close>

definition wrapfs_follow_link ::
  "inode_api \<Rightarrow> vfs_api \<Rightarrow> mm_api \<Rightarrow> ptr \<Rightarrow> nameidata \<Rightarrow> kst \<Rightarrow> nameidata run" where
  "wrapfs_follow_link I V M dentry nd s =
     (case kmalloc M PAGE_CACHE_SIZE s of
        None \<Rightarrow> Some (nd\<lparr>nd_link := Some (ErrPtr (- ENOMEM))\<rparr>, s)
      | Some buf \<Rightarrow> do {
          let s = emit (Kmalloc buf) s;
          let old_fs = addr_limit s;
          let s = set_fs KERNEL_DS s;
          ((err, data), s) \<leftarrow> wrapfs_readlink I V dentry (int PAGE_CACHE_SIZE) s;
          let s = set_fs old_fs s;
          if err < 0
          then Some (nd\<lparr>nd_link := Some (ErrPtr err)\<rparr>, emit (Kfree (Some buf)) s)
          else if nat err < PAGE_CACHE_SIZE
          then
            (let s = (case data of None \<Rightarrow> s | Some d \<Rightarrow> upd_buf buf (\<lambda>b. buf_write b 0 (nat err) d) s);
                 s = upd_buf buf (\<lambda>b. b(nat err := 0)) s
             in Some (nd\<lparr>nd_link := Some (Ptr buf)\<rparr>, s))
          else None
        })"

definition wrapfs_put_link :: "ptr \<Rightarrow> nameidata \<Rightarrow> kst \<Rightarrow> kst" where
  "wrapfs_put_link dentry nd s =
     (case nd_link nd of
        None \<Rightarrow> emit (Kfree None) s
      | Some buf \<Rightarrow> (case buf of ErrPtr _ \<Rightarrow> s | Ptr p \<Rightarrow> emit (Kfree (Some p)) s))"

section \<open>Permissions and attributes\<close>

definition wrapfs_permission :: "inode_api \<Rightarrow> ptr \<Rightarrow> int \<Rightarrow> kst \<Rightarrow> int option" where
  "wrapfs_permission I inode want s = do {
     li \<leftarrow> wrapfs_lower_inode s inode;
     Some (inode_permission I li want (low s))
   }"

text \<open>The copy of the request for the lower file system.\<close>

definition setattr_lower_ia :: "iattr \<Rightarrow> kst \<Rightarrow> iattr option" where
  "setattr_lower_ia ia s =
     (if ia_valid ia AND ATTR_FILE = 0 then Some ia
      else do {
        f \<leftarrow> ia_file ia;
        lf \<leftarrow> wrapfs_lower_file s f;
        Some (ia\<lparr>ia_file := lf\<rparr>)
      })"

text \<open>From \<open>inode_newsize_ok\<close> to the label \<open>out\<close>.\<close>

definition setattr_apply ::
  "inode_api \<Rightarrow> vfs_api \<Rightarrow> ptr \<Rightarrow> ptr \<Rightarrow> ptr option \<Rightarrow> iattr \<Rightarrow> iattr \<Rightarrow> kst \<Rightarrow> int run" where
  "setattr_apply I V inode lower_dentry lower_inode' ia lower_ia s = do {
     (err, s) \<leftarrow>
       (if ia_valid ia AND ATTR_SIZE = 0 then Some (0, s)
        else
          (let err = inode_newsize_ok I (vfs_inode (inodes s inode)) (ia_size ia) in
           if err \<noteq> 0 then Some (err, s)
           else Some (0, emit (Truncate_inode_pages inode) (i_size_write inode (ia_size ia) s)))); \<comment> \<open>\<open>truncate_setsize\<close>\<close>
     if err \<noteq> 0 then Some (err, s)
     else do {
       let lower_ia = (if ia_valid lower_ia AND (ATTR_KILL_SUID OR ATTR_KILL_SGID) \<noteq> 0
                       then lower_ia\<lparr>ia_valid := ia_valid lower_ia AND NOT ATTR_MODE\<rparr> else lower_ia);
       i \<leftarrow> lower_d_inode s lower_dentry;
       let s = emit (Mutex_lock i) s;
       let (err, l) = notify_change I lower_dentry lower_ia (low s);
       let s = lower_op ''notify_change'' l s;
       i \<leftarrow> lower_d_inode s lower_dentry;
       let s = emit (Mutex_unlock i) s;
       if err \<noteq> 0 then Some (err, s)
       else do {
         li \<leftarrow> lower_inode';
         Some (0, copy_attr_all V inode (l_inodes (low s) li) s)
       }
     }
   }"

definition wrapfs_setattr :: "inode_api \<Rightarrow> vfs_api \<Rightarrow> ptr \<Rightarrow> iattr \<Rightarrow> kst \<Rightarrow> int run" where
  "wrapfs_setattr I V dentry ia s = do {
     inode \<leftarrow> d_inode (dentries s dentry);
     let err = inode_change_ok I (vfs_inode (inodes s inode)) ia;
     if err \<noteq> 0 then Some (err, s)
     else do {
       (lp, s) \<leftarrow> wrapfs_get_lower_path dentry s;
       lower_dentry \<leftarrow> p_dentry lp;
       let lower_inode' = wrapfs_lower_inode s inode;
       lower_ia \<leftarrow> setattr_lower_ia ia s;
       (err, s) \<leftarrow> setattr_apply I V inode lower_dentry lower_inode' ia lower_ia s;
       Some (err, wrapfs_put_lower_path dentry lp s)
     }
   }"

section \<open>The contract of an operation on names\<close>

text \<open>
  The resources the books of this theory cover: everything but inode references, which the inode
  cache keeps.
\<close>

abbreviation counted :: "resource \<Rightarrow> bool" where
  "counted x \<equiv> \<forall>p. x \<noteq> R_inode p \<and> x \<noteq> R_up_inode p"

text \<open>
  What the lower operations are documented to keep: the caller holds a reference to the parent dentry
  and the mutex of its inode, so the parent dentry keeps its inode; \<open>notify_change\<close> does not detach
  the inode of its dentry.
\<close>

definition keeps_parent :: "ptr \<Rightarrow> lower_st \<Rightarrow> lower_st \<Rightarrow> bool" where
  "keeps_parent d l l' \<longleftrightarrow>
     d_inode (l_dentries l' (d_parent (l_dentries l d))) = d_inode (l_dentries l (d_parent (l_dentries l d)))"

definition dir_laws :: "inode_api \<Rightarrow> bool" where
  "dir_laws I \<longleftrightarrow>
     (\<forall>i d m n l e n' l'. vfs_create I i d m n l = (e, n', l') \<longrightarrow> keeps_parent d l l') \<and>
     (\<forall>o' i d l e l'. vfs_link I o' i d l = (e, l') \<longrightarrow> keeps_parent d l l') \<and>
     (\<forall>i d l e l'. vfs_unlink I i d l = (e, l') \<longrightarrow> keeps_parent d l l') \<and>
     (\<forall>i d n l e l'. vfs_symlink I i d n l = (e, l') \<longrightarrow> keeps_parent d l l') \<and>
     (\<forall>i d m l e l'. vfs_mkdir I i d m l = (e, l') \<longrightarrow> keeps_parent d l l') \<and>
     (\<forall>i d l e l'. vfs_rmdir I i d l = (e, l') \<longrightarrow> keeps_parent d l l') \<and>
     (\<forall>i d m v l e l'. vfs_mknod I i d m v l = (e, l') \<longrightarrow> keeps_parent d l l') \<and>
     (\<forall>d a l e l'. notify_change I d a l = (e, l') \<longrightarrow> d_inode (l_dentries l' d) = d_inode (l_dentries l d))"

lemma dir_lawsD:
  assumes "dir_laws I"
  shows "vfs_create I i d m n l = (e, n', l') \<Longrightarrow> keeps_parent d l l'"
    "vfs_link I o' i d l = (e, l') \<Longrightarrow> keeps_parent d l l'"
    "vfs_unlink I i d l = (e, l') \<Longrightarrow> keeps_parent d l l'"
    "vfs_symlink I i d nm l = (e, l') \<Longrightarrow> keeps_parent d l l'"
    "vfs_mkdir I i d m l = (e, l') \<Longrightarrow> keeps_parent d l l'"
    "vfs_rmdir I i d l = (e, l') \<Longrightarrow> keeps_parent d l l'"
    "vfs_mknod I i d m v l = (e, l') \<Longrightarrow> keeps_parent d l l'"
    "notify_change I d a l = (e, l') \<Longrightarrow> d_inode (l_dentries l' d) = d_inode (l_dentries l d)"
  using assms unfolding dir_laws_def by - (elim conjE, (erule allE)+, erule (1) mp)+

text \<open>
  The shape that create, symlink, mkdir, rmdir and mknod share, with the part between the two requests
  for write access as a parameter.
\<close>

definition bracket ::
  "inode_api \<Rightarrow> ptr \<Rightarrow> (ptr \<Rightarrow> ptr \<Rightarrow> path \<Rightarrow> kst \<Rightarrow> int run) \<Rightarrow> kst \<Rightarrow> int run" where
  "bracket I dentry body s = do {
     (lp, s) \<leftarrow> wrapfs_get_lower_path dentry s;
     lower_dentry \<leftarrow> p_dentry lp;
     (lower_parent, s) \<leftarrow> lock_parent lower_dentry s;
     let err = mnt_want_write I (p_mnt lp) (low s);
     if err \<noteq> 0 then inode_out_unlock dentry lower_parent lp err s
     else do {
       (err, s) \<leftarrow> body lower_dentry lower_parent lp (emit (Mnt_want_write (p_mnt lp)) s);
       inode_out dentry lower_parent lp err s
     }
   }"

text \<open>The state in which the body runs, and the two ways through the bracket.\<close>

abbreviation locked_state :: "ptr \<Rightarrow> path \<Rightarrow> ptr \<Rightarrow> ptr \<Rightarrow> kst \<Rightarrow> kst" where
  "locked_state info lp dir i s \<equiv> emit (Mutex_lock i) (emit (Dget dir)
     (emit (Spin_unlock info) (emit (Path_get lp) (emit (Spin_lock info) s))))"

lemma bracket_cases:
  assumes "bracket I dentry body s = Some (r, s')"
  obtains (refused) info lp ld dir i where
      "d_fsdata (dentries s dentry) = Some info" "lp = lower_path (dinfos s info)" "p_dentry lp = Some ld"
      "dir = d_parent (l_dentries (low s) ld)" "lower_d_inode s dir = Some i"
      "mnt_want_write I (p_mnt lp) (low s) = r" "r \<noteq> 0"
      "s' = emit (Path_put lp) (emit (Dput dir) (emit (Mutex_unlock i) (locked_state info lp dir i s)))"
    | (run) info lp ld dir i t j where
      "d_fsdata (dentries s dentry) = Some info" "lp = lower_path (dinfos s info)" "p_dentry lp = Some ld"
      "dir = d_parent (l_dentries (low s) ld)" "lower_d_inode s dir = Some i"
      "mnt_want_write I (p_mnt lp) (low s) = 0"
      "body ld dir lp (emit (Mnt_want_write (p_mnt lp)) (locked_state info lp dir i s)) = Some (r, t)"
      "lower_d_inode t dir = Some j"
      "s' = emit (Path_put lp) (emit (Dput dir) (emit (Mutex_unlock j) (emit (Mnt_drop_write (p_mnt lp)) t)))"
proof -
  from assms obtain lp s1 ld dir s2 where g: "wrapfs_get_lower_path dentry s = Some (lp, s1)"
    and d: "p_dentry lp = Some ld" and k: "lock_parent ld s1 = Some (dir, s2)"
    unfolding bracket_def by (auto split: Option.bind_split_asm)
  from g obtain info where info: "d_fsdata (dentries s dentry) = Some info" "lp = lower_path (dinfos s info)"
    and s1: "s1 = emit (Spin_unlock info) (emit (Path_get lp) (emit (Spin_lock info) s))"
    by (auto simp: get_lower_path_Some link_simps)
  from k s1 obtain i where i: "dir = d_parent (l_dentries (low s) ld)" "lower_d_inode s dir = Some i"
    and s2: "s2 = locked_state info lp dir i s"
    by (auto simp: lock_parent_Some)
  have low: "low s2 = low s" unfolding s2 by simp
  show ?thesis
  proof (cases "mnt_want_write I (p_mnt lp) (low s) = 0")
    case False
    with assms g d k low i s2 info show ?thesis
      by (intro refused [of info lp ld dir i])
        (auto simp: bracket_def Let_def inode_out_unlock_def unlock_dir_def wrapfs_put_lower_path_def)
  next
    case True
    with assms g d k low obtain e t where b: "body ld dir lp (emit (Mnt_want_write (p_mnt lp)) s2) = Some (e, t)"
      and o': "inode_out dentry dir lp e t = Some (r, s')"
      by (auto simp: bracket_def Let_def split: Option.bind_split_asm)
    from o' have "e = r" "\<exists>j. lower_d_inode t dir = Some j \<and>
      s' = emit (Path_put lp) (emit (Dput dir) (emit (Mutex_unlock j) (emit (Mnt_drop_write (p_mnt lp)) t)))"
      by (auto simp: inode_out_def inode_out_unlock_def wrapfs_put_lower_path_def unlock_dir_Some
          split: Option.bind_split_asm)
    with True b info d i s2 show ?thesis by (auto intro: run [of info lp ld dir i t])
  qed
qed

text \<open>
  A body keeps its promise when, under the laws of the lower file system, it leaves every counted
  resource and the inode of the locked directory as they were; then the whole operation is balanced.
\<close>

locale dir_body =
  fixes law :: bool
    and body :: "ptr \<Rightarrow> ptr \<Rightarrow> path \<Rightarrow> kst \<Rightarrow> int run"
  assumes body_balanced: "law \<Longrightarrow> body ld (d_parent (l_dentries (low s) ld)) lp s = Some (r, s') \<Longrightarrow> counted x \<Longrightarrow>
      held x (log s') = held x (log s)"
    and body_keeps_dir: "law \<Longrightarrow> body ld (d_parent (l_dentries (low s) ld)) lp s = Some (r, s') \<Longrightarrow>
      lower_d_inode s' (d_parent (l_dentries (low s) ld)) = lower_d_inode s (d_parent (l_dentries (low s) ld))"
begin

lemma bracket_balanced:
  assumes "law" and "bracket I dentry body s = Some (r, s')" and "counted x"
  shows "held x (log s') = held x (log s)"
  using assms(2)
proof (cases rule: bracket_cases)
  case (refused info lp ld dir i)
  then show ?thesis by (auto simp: held_simps)
next
  case (run info lp ld dir i t j)
  let ?s1 = "emit (Mnt_want_write (p_mnt lp)) (locked_state info lp dir i s)"
  have d: "dir = d_parent (l_dentries (low ?s1) ld)" using run(4) by simp
  from run(7) have b: "body ld (d_parent (l_dentries (low ?s1) ld)) lp ?s1 = Some (r, t)"
    unfolding d [symmetric] .
  have "j = i" using body_keeps_dir [OF assms(1) b] run(5,8) d by simp
  with body_balanced [OF assms(1) b assms(3)] run(9) show ?thesis by (auto simp: held_simps)
qed

end

section \<open>The operations keep the contract\<close>

lemma interpose_new_keeps:
  assumes "interpose_new V L dir dentry ldir lp err s = Some (r, s')"
  shows "low s' = low s" "dinfos s' = dinfos s" "d_fsdata (dentries s' d) = d_fsdata (dentries s d)"
    "counted x \<Longrightarrow> held x (log s') = held x (log s)"
proof -
  have "low s' = low s \<and> dinfos s' = dinfos s \<and> d_fsdata (dentries s' d) = d_fsdata (dentries s d) \<and>
    (counted x \<longrightarrow> held x (log s') = held x (log s))"
  proof (cases "err = 0")
    case True
    with assms obtain e t where i: "wrapfs_interpose V L dentry (i_sb (vfs_inode (inodes s dir))) lp s = Some (e, t)"
      and t: "low s' = low t" "dinfos s' = dinfos t" "dentries s' = dentries t" "log s' = log t"
      by (auto simp: interpose_new_def split: Option.bind_split_asm if_split_asm)
    from interpose_keeps [OF i] t show ?thesis by auto
  qed (use assms in \<open>auto simp: interpose_new_def\<close>)
  then show "low s' = low s" "dinfos s' = dinfos s" "d_fsdata (dentries s' d) = d_fsdata (dentries s d)"
    "counted x \<Longrightarrow> held x (log s') = held x (log s)" by blast+
qed

text \<open>The five bodies.  That of create restores the path of the \<open>nameidata\<close>, which the others do not have.\<close>

definition create_body ::
  "inode_api \<Rightarrow> vfs_api \<Rightarrow> lookup_api \<Rightarrow> ptr \<Rightarrow> ptr \<Rightarrow> int \<Rightarrow> nameidata option \<Rightarrow> ptr \<Rightarrow> ptr \<Rightarrow> path \<Rightarrow> kst \<Rightarrow> int run" where
  "create_body I V L dir dentry mode nd ld ldir lp s = do {
     n \<leftarrow> nd;
     let (err, n, l) = vfs_create I (lower_d_inode s ldir) ld mode (n\<lparr>nd_path := lp\<rparr>) (low s);
     interpose_new V L dir dentry ldir lp err (lower_op ''vfs_create'' l s)
   }"

definition new_body ::
  "string \<Rightarrow> vfs_api \<Rightarrow> lookup_api \<Rightarrow> (ptr option \<Rightarrow> ptr \<Rightarrow> lower_st \<Rightarrow> int \<times> lower_st) \<Rightarrow> ptr \<Rightarrow> ptr
    \<Rightarrow> ptr \<Rightarrow> ptr \<Rightarrow> path \<Rightarrow> kst \<Rightarrow> int run" where
  "new_body name V L op dir dentry ld ldir lp s =
     (case op (lower_d_inode s ldir) ld (low s) of
        (err, l) \<Rightarrow> interpose_new V L dir dentry ldir lp err (lower_op name l s))"

definition mkdir_body ::
  "inode_api \<Rightarrow> vfs_api \<Rightarrow> lookup_api \<Rightarrow> ptr \<Rightarrow> ptr \<Rightarrow> int \<Rightarrow> ptr \<Rightarrow> ptr \<Rightarrow> path \<Rightarrow> kst \<Rightarrow> int run" where
  "mkdir_body I V L dir dentry mode ld ldir lp s = do {
     (err, s) \<leftarrow> new_body ''vfs_mkdir'' V L (\<lambda>i d. vfs_mkdir I i d mode) dir dentry ld ldir lp s;
     if err \<noteq> 0 then Some (err, s)
     else do {
       li \<leftarrow> wrapfs_lower_inode s dir;
       Some (err, set_nlink dir (i_nlink (l_inodes (low s) li)) s)
     }
   }"

definition rmdir_body ::
  "inode_api \<Rightarrow> vfs_api \<Rightarrow> ptr \<Rightarrow> ptr \<Rightarrow> ptr \<Rightarrow> ptr \<Rightarrow> path \<Rightarrow> kst \<Rightarrow> int run" where
  "rmdir_body I V dir dentry ld ldir lp s =
     (case vfs_rmdir I (lower_d_inode s ldir) ld (low s) of
        (err, l) \<Rightarrow>
          (let s = lower_op ''vfs_rmdir'' l s in
           if err \<noteq> 0 then Some (err, s)
           else do {
             let s = d_drop dentry s;
             let s = (case d_inode (dentries s dentry) of None \<Rightarrow> s | Some i \<Rightarrow> set_nlink i 0 s);
             ldi \<leftarrow> lower_d_inode s ldir;
             let s = copy_attr_times V dir (l_inodes (low s) ldi) s;
             let s = copy_inode_size V dir (l_inodes (low s) ldi) s;
             Some (err, set_nlink dir (i_nlink (l_inodes (low s) ldi)) s)
           }))"

lemma symlink_bracket:
  "wrapfs_symlink I V L dir dentry name s =
     bracket I dentry (new_body ''vfs_symlink'' V L (\<lambda>i d. vfs_symlink I i d name) dir dentry) s"
  by (simp add: wrapfs_symlink_def bracket_def new_body_def Let_def case_prod_beta cong: if_cong)

lemma mknod_bracket:
  "wrapfs_mknod I V L dir dentry mode dev s =
     bracket I dentry (new_body ''vfs_mknod'' V L (\<lambda>i d. vfs_mknod I i d mode dev) dir dentry) s"
  by (simp add: wrapfs_mknod_def bracket_def new_body_def Let_def case_prod_beta cong: if_cong)

lemma mkdir_bracket: "wrapfs_mkdir I V L dir dentry mode s = bracket I dentry (mkdir_body I V L dir dentry mode) s"
  by (auto simp: wrapfs_mkdir_def bracket_def mkdir_body_def new_body_def Let_def case_prod_beta
      intro!: bind_option_cong cong: if_cong)

lemma rmdir_bracket: "wrapfs_rmdir I V dir dentry s = bracket I dentry (rmdir_body I V dir dentry) s"
  by (auto simp: wrapfs_rmdir_def bracket_def rmdir_body_def Let_def case_prod_beta
      intro!: bind_option_cong cong: if_cong split: option.split)

lemma create_bracket:
  "wrapfs_create I V L dir dentry mode nd s = Some ((r, nd'), s') \<Longrightarrow>
     bracket I dentry (create_body I V L dir dentry mode nd) s = Some (r, s')"
  by (auto simp: wrapfs_create_def bracket_def create_body_def Let_def case_prod_beta
      split: Option.bind_split_asm if_split_asm)

lemma new_body_keeps:
  assumes "new_body name V L op dir dentry ld (d_parent (l_dentries (low s) ld)) lp s = Some (r, s')"
    and "\<And>i e l'. op i ld (low s) = (e, l') \<Longrightarrow> keeps_parent ld (low s) l'"
  shows "lower_d_inode s' (d_parent (l_dentries (low s) ld)) = lower_d_inode s (d_parent (l_dentries (low s) ld))"
    "counted x \<Longrightarrow> held x (log s') = held x (log s)"
proof -
  let ?ldir = "d_parent (l_dentries (low s) ld)"
  obtain e l where o': "op (lower_d_inode s ?ldir) ld (low s) = (e, l)" by fastforce
  with assms(1) have i: "interpose_new V L dir dentry ?ldir lp e (lower_op name l s) = Some (r, s')"
    by (simp add: new_body_def)
  from interpose_new_keeps(1) [OF i] assms(2) [OF o']
  show "lower_d_inode s' ?ldir = lower_d_inode s ?ldir" by (simp add: keeps_parent_def)
  assume "counted x"
  from interpose_new_keeps(4) [OF i this] show "held x (log s') = held x (log s)" by (simp add: held_simps)
qed

interpretation symlink_op: dir_body "dir_laws I" "new_body ''vfs_symlink'' V L (\<lambda>i d. vfs_symlink I i d name) dir dentry"
  for I V L name dir dentry
  by unfold_locales (use new_body_keeps dir_lawsD(4) in metis)+

interpretation mknod_op: dir_body "dir_laws I" "new_body ''vfs_mknod'' V L (\<lambda>i d. vfs_mknod I i d mode dev) dir dentry"
  for I V L mode dev dir dentry
  by unfold_locales (use new_body_keeps dir_lawsD(7) in metis)+

interpretation mkdir_op: dir_body "dir_laws I" "mkdir_body I V L dir dentry mode" for I V L dir dentry mode
proof unfold_locales
  fix ld s lp r s' x
  assume law: "dir_laws I"
    and run: "mkdir_body I V L dir dentry mode ld (d_parent (l_dentries (low s) ld)) lp s = Some (r, s')"
  then obtain e t where b: "new_body ''vfs_mkdir'' V L (\<lambda>i d. vfs_mkdir I i d mode) dir dentry ld
      (d_parent (l_dentries (low s) ld)) lp s = Some (e, t)" and t: "low s' = low t" "log s' = log t"
    by (auto simp: mkdir_body_def split: Option.bind_split_asm if_split_asm)
  note k = new_body_keeps [OF b dir_lawsD(5) [OF law]]
  from k t show "lower_d_inode s' (d_parent (l_dentries (low s) ld)) = lower_d_inode s (d_parent (l_dentries (low s) ld))"
    by simp
  assume "counted x"
  with k t show "held x (log s') = held x (log s)" by simp
qed

interpretation rmdir_op: dir_body "dir_laws I" "rmdir_body I V dir dentry" for I V dir dentry
proof unfold_locales
  fix ld lp r x and s s' :: kst
  let ?ldir = "d_parent (l_dentries (low s) ld)"
  assume law: "dir_laws I" and run: "rmdir_body I V dir dentry ld ?ldir lp s = Some (r, s')"
  obtain e l where o': "vfs_rmdir I (lower_d_inode s ?ldir) ld (low s) = (e, l)" by fastforce
  with run have s': "low s' = l" "log s' = log s @ [Lower_call ''vfs_rmdir'']"
    by (auto simp: rmdir_body_def Let_def split: Option.bind_split_asm if_split_asm option.split_asm)
  from dir_lawsD(6) [OF law o'] s' show "lower_d_inode s' ?ldir = lower_d_inode s ?ldir"
    by (simp add: keeps_parent_def)
  from s' show "held x (log s') = held x (log s)" by (simp add: held_simps)
qed

interpretation create_op: dir_body "dir_laws I" "create_body I V L dir dentry mode nd" for I V L dir dentry mode nd
proof unfold_locales
  fix ld lp r x and s s' :: kst
  let ?ldir = "d_parent (l_dentries (low s) ld)"
  assume law: "dir_laws I" and run: "create_body I V L dir dentry mode nd ld ?ldir lp s = Some (r, s')"
  then obtain n where n: "nd = Some n" by (auto simp: create_body_def split: Option.bind_split_asm)
  obtain e n' l where o': "vfs_create I (lower_d_inode s ?ldir) ld mode (n\<lparr>nd_path := lp\<rparr>) (low s) = (e, n', l)"
    by (metis prod_cases3)
  with run n have i: "interpose_new V L dir dentry ?ldir lp e (lower_op ''vfs_create'' l s) = Some (r, s')"
    by (simp add: create_body_def)
  from interpose_new_keeps(1) [OF i] dir_lawsD(1) [OF law o']
  show "lower_d_inode s' ?ldir = lower_d_inode s ?ldir" by (simp add: keeps_parent_def)
  assume "counted x"
  from interpose_new_keeps(4) [OF i this] show "held x (log s') = held x (log s)" by (simp add: held_simps)
qed

text \<open>Unlink, link and rename hold more than the bracket does and are accounted for one by one.\<close>

lemma unlink_done_keeps:
  "unlink_done V dir dentry ldi s = Some s' \<Longrightarrow> low s' = low s \<and> log s' = log s"
  by (auto simp: unlink_done_def Let_def split: Option.bind_split_asm)

lemma unlink_out_held:
  assumes "unlink_out dentry ld ldir lp err s = Some (r, s')"
  shows "\<exists>i. lower_d_inode s ldir = Some i \<and> r = err \<and> low s' = low s \<and> dentries s' = dentries s \<and>
    inodes s' = inodes s \<and> dinfos s' = dinfos s \<and>
    log s' = log s @ [Mnt_drop_write (p_mnt lp), Mutex_unlock i, Dput ldir, Dput ld, Path_put lp]"
  using assms
  by (auto simp: unlink_out_def unlink_out_unlock_def unlock_dir_Some wrapfs_put_lower_path_def
      split: Option.bind_split_asm)

text \<open>What \<open>wrapfs_unlink\<close> does between the lock and the exit.\<close>

abbreviation unlink_body :: "vfs_api \<Rightarrow> ptr \<Rightarrow> ptr \<Rightarrow> ptr option \<Rightarrow> int \<Rightarrow> kst \<Rightarrow> kst option" where
  "unlink_body V dir dentry ldi err s \<equiv> (if err \<noteq> 0 then Some s else unlink_done V dir dentry ldi s)"

lemma unlink_cases:
  assumes "wrapfs_unlink I V dir dentry s = Some (r, s')"
  obtains (refused) info lp ld ldir i where
      "d_fsdata (dentries s dentry) = Some info" "lp = lower_path (dinfos s info)" "p_dentry lp = Some ld"
      "ldir = d_parent (l_dentries (low s) ld)" "lower_d_inode s ldir = Some i"
      "mnt_want_write I (p_mnt lp) (low s) = r" "r \<noteq> 0" "low s' = low s" "dentries s' = dentries s" "inodes s' = inodes s"
      "log s' = log s @ [Spin_lock info, Path_get lp, Spin_unlock info, Dget ld, Dget ldir, Mutex_lock i,
         Mutex_unlock i, Dput ldir, Dput ld, Path_put lp]" "dinfos s' = dinfos s"
    | (run) info lp ld ldir i e l t j where
      "d_fsdata (dentries s dentry) = Some info" "lp = lower_path (dinfos s info)" "p_dentry lp = Some ld"
      "ldir = d_parent (l_dentries (low s) ld)" "lower_d_inode s ldir = Some i"
      "vfs_unlink I (wrapfs_lower_inode s dir) ld (low s) = (e, l)"
      "r = (if e = - EBUSY \<and> d_nfs_renamed (l_dentries l ld) then 0 else e)"
      "unlink_body V dir dentry (wrapfs_lower_inode s dir) r (lower_op ''vfs_unlink'' l
         (emit (Mnt_want_write (p_mnt lp)) (s\<lparr>log := log s @ [Spin_lock info, Path_get lp,
            Spin_unlock info, Dget ld, Dget ldir, Mutex_lock i]\<rparr>))) = Some t"
      "lower_d_inode t ldir = Some j" "low s' = low t" "dentries s' = dentries t" "inodes s' = inodes t"
      "log s' = log t @ [Mnt_drop_write (p_mnt lp), Mutex_unlock j, Dput ldir, Dput ld, Path_put lp]"
      "dinfos s' = dinfos t"
proof -
  from assms obtain lp s1 ld ldir s2 where g: "wrapfs_get_lower_path dentry s = Some (lp, s1)"
    and d: "p_dentry lp = Some ld" and k: "lock_parent ld (emit (Dget ld) s1) = Some (ldir, s2)"
    unfolding wrapfs_unlink_def by (auto simp: Let_def split: Option.bind_split_asm)
  from g obtain info where info: "d_fsdata (dentries s dentry) = Some info" "lp = lower_path (dinfos s info)"
    and s1: "s1 = emit (Spin_unlock info) (emit (Path_get lp) (emit (Spin_lock info) s))"
    by (auto simp: get_lower_path_Some link_simps)
  from k s1 obtain i where i: "ldir = d_parent (l_dentries (low s) ld)" "lower_d_inode s ldir = Some i"
    and s2: "s2 = s\<lparr>log := log s @ [Spin_lock info, Path_get lp,
            Spin_unlock info, Dget ld, Dget ldir, Mutex_lock i]\<rparr>"
    by (auto simp: lock_parent_Some comp_def)
  have low: "low s2 = low s" unfolding s2 by simp
  show ?thesis
  proof (cases "mnt_want_write I (p_mnt lp) (low s) = 0")
    case False
    with assms g d k low i s2 info show ?thesis
      by (intro refused [of info lp ld ldir i])
        (auto simp: wrapfs_unlink_def Let_def unlink_out_unlock_def unlock_dir_def wrapfs_put_lower_path_def)
  next
    case True
    obtain e l where v: "vfs_unlink I (wrapfs_lower_inode s dir) ld (low s) = (e, l)" by fastforce
    define r' where "r' = (if e = - EBUSY \<and> d_nfs_renamed (l_dentries l ld) then 0 else e)"
    define s3 where "s3 = lower_op ''vfs_unlink'' l (emit (Mnt_want_write (p_mnt lp)) s2)"
    from assms True v g d k low obtain t where b: "unlink_body V dir dentry (wrapfs_lower_inode s dir) r' s3 = Some t"
      and o': "unlink_out dentry ld ldir lp r' t = Some (r, s')"
      by (auto simp: wrapfs_unlink_def Let_def r'_def s3_def split: Option.bind_split_asm if_split_asm)
    from unlink_out_held [OF o'] obtain j where "lower_d_inode t ldir = Some j" "r = r'" "low s' = low t"
      "dentries s' = dentries t" "inodes s' = inodes t" "dinfos s' = dinfos t"
      "log s' = log t @ [Mnt_drop_write (p_mnt lp), Mutex_unlock j, Dput ldir, Dput ld, Path_put lp]" by blast
    with True v b info d i s2 show ?thesis
      unfolding s3_def s2 by (intro run [of info lp ld ldir i e l t j]) (simp_all add: r'_def)
  qed
qed

lemma unlink_balanced:
  assumes "dir_laws I" and "wrapfs_unlink I V dir dentry s = Some (r, s')"
  shows "held x (log s') = held x (log s)"
  using assms(2)
proof (cases rule: unlink_cases)
  case (refused info lp ld ldir i)
  then show ?thesis by (auto simp: held_simps)
next
  case (run info lp ld ldir i e l t j)
  from run(8) have t: "low t = l" "log t = log s @ [Spin_lock info, Path_get lp, Spin_unlock info, Dget ld, Dget ldir,
      Mutex_lock i, Mnt_want_write (p_mnt lp), Lower_call ''vfs_unlink'']"
    by (auto dest!: unlink_done_keeps split: if_split_asm)
  have "j = i" using dir_lawsD(3) [OF assms(1) run(6)] run(4,5,9) t by (simp add: keeps_parent_def)
  with run(13) t show ?thesis by (auto simp: held_simps)
qed

lemma link_new_keeps:
  assumes "link_new V L od dir nd lnd nlp sz err s = Some (r, s')"
  shows "low s' = low s" "dinfos s' = dinfos s" "counted x \<Longrightarrow> held x (log s') = held x (log s)"
proof -
  have "low s' = low s \<and> dinfos s' = dinfos s \<and> (counted x \<longrightarrow> held x (log s') = held x (log s))"
  proof (cases "err \<noteq> 0 \<or> lower_d_inode s lnd = None")
    case False
    with assms obtain e t where i: "wrapfs_interpose V L nd (i_sb (vfs_inode (inodes s dir))) nlp s = Some (e, t)"
      and t: "low s' = low t" "log s' = log t" "dinfos s' = dinfos t"
      by (auto simp: link_new_def Let_def split: Option.bind_split_asm if_split_asm)
    from interpose_keeps [OF i] t show ?thesis by auto
  qed (use assms in \<open>auto simp: link_new_def\<close>)
  then show "low s' = low s" "dinfos s' = dinfos s" "counted x \<Longrightarrow> held x (log s') = held x (log s)" by blast+
qed

lemma link_cases:
  assumes "wrapfs_link I V L old dir new s = Some (r, s')"
  obtains (refused) oinfo ninfo olp nlp ld ldir i oi where
      "d_fsdata (dentries s old) = Some oinfo" "olp = lower_path (dinfos s oinfo)" "d_inode (dentries s old) = Some oi"
      "d_fsdata (dentries s new) = Some ninfo" "nlp = lower_path (dinfos s ninfo)" "p_dentry nlp = Some ld"
      "ldir = d_parent (l_dentries (low s) ld)" "lower_d_inode s ldir = Some i"
      "mnt_want_write I (p_mnt nlp) (low s) = r" "r \<noteq> 0" "low s' = low s" "dentries s' = dentries s" "inodes s' = inodes s"
      "log s' = log s @ [Spin_lock oinfo, Path_get olp, Spin_unlock oinfo, Spin_lock ninfo, Path_get nlp,
         Spin_unlock ninfo, Dget ldir, Mutex_lock i, Mutex_unlock i, Dput ldir, Path_put olp, Path_put nlp]"
      "dinfos s' = dinfos s"
    | (run) oinfo ninfo olp nlp lod ld ldir i oi e l t j where
      "d_fsdata (dentries s old) = Some oinfo" "olp = lower_path (dinfos s oinfo)" "d_inode (dentries s old) = Some oi"
      "d_fsdata (dentries s new) = Some ninfo" "nlp = lower_path (dinfos s ninfo)" "p_dentry nlp = Some ld"
      "ldir = d_parent (l_dentries (low s) ld)" "lower_d_inode s ldir = Some i" "p_dentry olp = Some lod"
      "vfs_link I lod (Some i) ld (low s) = (e, l)"
      "link_new V L old dir new ld nlp (i_size_read oi s) e (lower_op ''vfs_link'' l (emit (Mnt_want_write (p_mnt nlp))
         (s\<lparr>log := log s @ [Spin_lock oinfo, Path_get olp, Spin_unlock oinfo, Spin_lock ninfo, Path_get nlp,
            Spin_unlock ninfo, Dget ldir, Mutex_lock i]\<rparr>))) = Some (r, t)"
      "lower_d_inode t ldir = Some j" "low s' = low t" "dentries s' = dentries t" "inodes s' = inodes t"
      "log s' = log t @ [Mnt_drop_write (p_mnt nlp), Mutex_unlock j, Dput ldir, Path_put olp, Path_put nlp]"
      "dinfos s' = dinfos t"
proof -
  from assms obtain oi olp s0 nlp s1 ld ldir s2 where oi: "d_inode (dentries s old) = Some oi"
    and g: "wrapfs_get_lower_path old s = Some (olp, s0)" "wrapfs_get_lower_path new s0 = Some (nlp, s1)"
    and d: "p_dentry nlp = Some ld" and k: "lock_parent ld s1 = Some (ldir, s2)"
    unfolding wrapfs_link_def by (auto simp: Let_def split: Option.bind_split_asm)
  from g(1) obtain oinfo where oinfo: "d_fsdata (dentries s old) = Some oinfo" "olp = lower_path (dinfos s oinfo)"
    and s0: "s0 = emit (Spin_unlock oinfo) (emit (Path_get olp) (emit (Spin_lock oinfo) s))"
    by (auto simp: get_lower_path_Some link_simps)
  from g(2) s0 obtain ninfo where ninfo: "d_fsdata (dentries s new) = Some ninfo" "nlp = lower_path (dinfos s ninfo)"
    and s1: "s1 = emit (Spin_unlock ninfo) (emit (Path_get nlp) (emit (Spin_lock ninfo) s0))"
    by (auto simp: get_lower_path_Some link_simps)
  from k s1 s0 obtain i where i: "ldir = d_parent (l_dentries (low s) ld)" "lower_d_inode s ldir = Some i"
    and s2: "s2 = s\<lparr>log := log s @ [Spin_lock oinfo, Path_get olp, Spin_unlock oinfo, Spin_lock ninfo, Path_get nlp,
            Spin_unlock ninfo, Dget ldir, Mutex_lock i]\<rparr>"
    by (auto simp: lock_parent_Some comp_def)
  have low: "low s2 = low s" unfolding s2 by simp
  show ?thesis
  proof (cases "mnt_want_write I (p_mnt nlp) (low s) = 0")
    case False
    with assms oi g d k low i s2 oinfo ninfo show ?thesis
      by (intro refused [of oinfo olp oi ninfo nlp ld ldir i])
        (auto simp: wrapfs_link_def Let_def link_out_unlock_def unlock_dir_def wrapfs_put_lower_path_def)
  next
    case True
    with assms oi g d k low obtain lod where lod: "p_dentry olp = Some lod"
      by (auto simp: wrapfs_link_def Let_def split: Option.bind_split_asm)
    obtain e l where v: "vfs_link I lod (Some i) ld (low s) = (e, l)" by fastforce
    define s3 where "s3 = lower_op ''vfs_link'' l (emit (Mnt_want_write (p_mnt nlp)) s2)"
    have il: "lower_d_inode s2 ldir = Some i" using i low by simp
    from assms True v oi g d k low lod il obtain e' t where
      b: "link_new V L old dir new ld nlp (i_size_read oi s) e s3 = Some (e', t)"
      and o': "link_out old new ldir olp nlp e' t = Some (r, s')"
      by (auto simp: wrapfs_link_def Let_def s3_def split: Option.bind_split_asm)
    from o' obtain j where "lower_d_inode t ldir = Some j" "r = e'" "low s' = low t" "dentries s' = dentries t"
      "inodes s' = inodes t" "dinfos s' = dinfos t"
      "log s' = log t @ [Mnt_drop_write (p_mnt nlp), Mutex_unlock j, Dput ldir, Path_put olp, Path_put nlp]"
      by (auto simp: link_out_def link_out_unlock_def unlock_dir_Some wrapfs_put_lower_path_def
          split: Option.bind_split_asm)
    with v b oi oinfo ninfo d i lod show ?thesis
      unfolding s3_def s2 by (intro run [of oinfo olp oi ninfo nlp ld ldir i lod e l t j]) simp_all
  qed
qed

lemma link_balanced:
  assumes "dir_laws I" and "wrapfs_link I V L old dir new s = Some (r, s')" and "counted x"
  shows "held x (log s') = held x (log s)"
  using assms(2)
proof (cases rule: link_cases)
  case (refused oinfo ninfo olp nlp ld ldir i oi)
  then show ?thesis by (auto simp: held_simps)
next
  case (run oinfo ninfo olp nlp lod ld ldir i oi e l t j)
  note k = link_new_keeps [OF run(11)]
  have "j = i" using dir_lawsD(2) [OF assms(1) run(10)] run(7,8,12) k(1) by (simp add: keeps_parent_def)
  with run(16) k(3) [OF assms(3)] show ?thesis by (auto simp: held_simps)
qed

lemma rename_balanced:
  assumes "wrapfs_rename I V od o' nd n s = Some (r, s')"
  shows "held x (log s') = held x (log s)"
proof -
  have attrs: "rename_done V od nd a b t = Some u \<Longrightarrow> log u = log t" for a b t u
    by (auto simp: rename_done_def Let_def split: Option.bind_split_asm if_split_asm)
  from assms show ?thesis
    by (auto simp: wrapfs_rename_def Let_def get_lower_path_Some rename_out_err_def rename_out_drop_old_def rename_out_def
        wrapfs_put_lower_path_def held_simps dest!: attrs split: Option.bind_split_asm if_split_asm prod.split_asm)
qed

lemma readlink_Some:
  assumes "wrapfs_readlink I V dentry n s = Some ((r, data), s')"
  shows "held x (log s') = held x (log s)" "bufs s' = bufs s" "addr_limit s' = addr_limit s"
    "dentries s' = dentries s" "0 \<le> r \<Longrightarrow> \<exists>d l lp info ld. data = Some d \<and> d_fsdata (dentries s dentry) = Some info \<and>
       lp = lower_path (dinfos s info) \<and> p_dentry lp = Some ld \<and> lower_readlink I ld n (addr_limit s) (low s) = (r, d, l)"
  using assms
  by (auto simp: wrapfs_readlink_def Let_def get_lower_path_Some wrapfs_put_lower_path_def held_simps link_simps
      split: Option.bind_split_asm if_split_asm prod.split_asm)

lemma setattr_apply_balanced:
  assumes "dir_laws I" and "setattr_apply I V inode ld li ia lia s = Some (r, s')"
  shows "held x (log s') = held x (log s)"
  using assms(2) dir_lawsD(8) [OF assms(1)]
  by (auto simp: setattr_apply_def Let_def held_simps split: Option.bind_split_asm if_split_asm prod.split_asm)

lemma setattr_balanced:
  assumes "dir_laws I" and "wrapfs_setattr I V dentry ia s = Some (r, s')"
  shows "held x (log s') = held x (log s)"
  using assms(2)
  by (auto simp: wrapfs_setattr_def Let_def get_lower_path_Some wrapfs_put_lower_path_def held_simps
      setattr_apply_balanced [OF assms(1)] split: Option.bind_split_asm if_split_asm)

section \<open>Sequences of operations\<close>

text \<open>The calls the VFS makes on directories, names and attributes, and their results.\<close>

datatype name_op =
    Create ptr ptr int "nameidata option" | Link ptr ptr ptr | Unlink ptr ptr | Symlink ptr ptr string
  | Mkdir ptr ptr int | Rmdir ptr ptr | Mknod ptr ptr int nat | Rename ptr ptr ptr ptr
  | Readlink ptr int | Setattr ptr iattr

fun name_run :: "inode_api \<Rightarrow> vfs_api \<Rightarrow> lookup_api \<Rightarrow> name_op \<Rightarrow> kst \<Rightarrow> int run" where
  "name_run I V L (Create dir dentry mode nd) s =
     map_option (\<lambda>((r, _), s). (r, s)) (wrapfs_create I V L dir dentry mode nd s)"
| "name_run I V L (Link old dir new) s = wrapfs_link I V L old dir new s"
| "name_run I V L (Unlink dir dentry) s = wrapfs_unlink I V dir dentry s"
| "name_run I V L (Symlink dir dentry name) s = wrapfs_symlink I V L dir dentry name s"
| "name_run I V L (Mkdir dir dentry mode) s = wrapfs_mkdir I V L dir dentry mode s"
| "name_run I V L (Rmdir dir dentry) s = wrapfs_rmdir I V dir dentry s"
| "name_run I V L (Mknod dir dentry mode dev) s = wrapfs_mknod I V L dir dentry mode dev s"
| "name_run I V L (Rename od old nd new) s = wrapfs_rename I V od old nd new s"
| "name_run I V L (Readlink dentry n) s =
     map_option (\<lambda>((r, _), s). (r, s)) (wrapfs_readlink I V dentry n s)"
| "name_run I V L (Setattr dentry ia) s = wrapfs_setattr I V dentry ia s"

inductive name_trace :: "inode_api \<Rightarrow> vfs_api \<Rightarrow> lookup_api \<Rightarrow> kst \<Rightarrow> (name_op \<times> int) list \<Rightarrow> kst \<Rightarrow> bool"
  for I V L where
  start: "name_trace I V L s [] s"
| step: "name_run I V L op s = Some (r, s1) \<Longrightarrow> name_trace I V L s1 ops s2 \<Longrightarrow> name_trace I V L s ((op, r) # ops) s2"

inductive_simps name_trace_simps [simp]: "name_trace I V L s [] s'" "name_trace I V L s (o' # ops) s'"

lemma name_run_balanced:
  assumes law: "dir_laws I" and run: "name_run I V L op s = Some (r, s')" and x: "counted x"
  shows "held x (log s') = held x (log s)"
proof (cases op)
  case (Create dir dentry mode nd)
  with run obtain nd' where "wrapfs_create I V L dir dentry mode nd s = Some ((r, nd'), s')" by auto
  from create_op.bracket_balanced [OF law create_bracket [OF this] x] show ?thesis .
next
  case (Readlink dentry n)
  with run obtain d where "wrapfs_readlink I V dentry n s = Some ((r, d), s')" by auto
  from readlink_Some(1) [OF this] show ?thesis .
qed (use run in \<open>auto simp: symlink_bracket mkdir_bracket rmdir_bracket mknod_bracket
      intro: link_balanced [OF law _ x] unlink_balanced [OF law] rename_balanced setattr_balanced [OF law]
        symlink_op.bracket_balanced [OF law _ x] mkdir_op.bracket_balanced [OF law _ x]
        rmdir_op.bracket_balanced [OF law _ x] mknod_op.bracket_balanced [OF law _ x]\<close>)

section \<open>Results\<close>

lemma interpose_error: "wrapfs_interpose V L dentry sb lp s = Some (err, s') \<Longrightarrow> err \<noteq> 0 \<Longrightarrow> dentries s' = dentries s"
  by (erule interpose_cases) (auto dest: iget_keeps simp: iget_frame_def)

lemma interpose_linked:
  assumes "iget_law L" and "wrapfs_interpose V L dentry sb lp s = Some (0, s')"
  shows "\<exists>ld li i. p_dentry lp = Some ld \<and> lower_d_inode s ld = Some li \<and> d_inode (dentries s' dentry) = Some i \<and>
    lower_inode (inodes s' i) = Some li"
  using assms(2)
proof (cases rule: interpose_cases)
  case (failed ld li)
  from failed(3) show ?thesis by (cases rule: iget_cases) auto
next
  case (linked ld li inode s1)
  with iget_linked [OF assms(1) linked(4)] show ?thesis by simp
qed simp

text \<open>The upper directory has the times of its lower inode and the size of the locked lower directory.\<close>

definition dir_follows :: "kst \<Rightarrow> ptr \<Rightarrow> ptr \<Rightarrow> bool" where
  "dir_follows s dir ldir \<longleftrightarrow> (\<exists>dli pli. lower_inode (inodes s dir) = Some dli \<and> lower_d_inode s ldir = Some pli \<and>
     i_mtime (vfs_inode (inodes s dir)) = i_mtime (l_inodes (low s) dli) \<and>
     i_ctime (vfs_inode (inodes s dir)) = i_ctime (l_inodes (low s) dli) \<and>
     i_size (vfs_inode (inodes s dir)) = i_size (l_inodes (low s) pli))"

lemma interpose_new_done:
  assumes law: "iget_law L" "fsstack_laws V" and run: "interpose_new V L dir dentry ldir lp err s = Some (0, s')"
  shows "\<exists>ld li i. p_dentry lp = Some ld \<and> lower_d_inode s ld = Some li \<and> d_inode (dentries s' dentry) = Some i \<and>
    lower_inode (inodes s' i) = Some li \<and> dir_follows s' dir ldir \<and> low s' = low s"
proof -
  from run obtain t where e: "err = 0"
    and t: "wrapfs_interpose V L dentry (i_sb (vfs_inode (inodes s dir))) lp s = Some (0, t)"
    by (auto simp: interpose_new_def split: Option.bind_split_asm if_split_asm)
  from run e t obtain dli pli where d: "lower_inode (inodes t dir) = Some dli" "lower_d_inode t ldir = Some pli"
    and s': "s' = copy_inode_size V dir (l_inodes (low t) pli) (copy_attr_times V dir (l_inodes (low t) dli) t)"
    by (auto simp: interpose_new_def Let_def link_simps split: Option.bind_split_asm)
  have "dir_follows s' dir ldir" "low s' = low t" "dentries s' = dentries t"
    "\<And>i. lower_inode (inodes s' i) = lower_inode (inodes t i)"
    using d law(2) by (auto simp: s' dir_follows_def fsstack_laws_def)
  with interpose_linked [OF law(1) t] interpose_keeps(3) [OF t] show ?thesis by auto
qed

lemma interpose_new_error:
  assumes "interpose_new V L dir dentry ldir lp err s = Some (r, s')" and "r \<noteq> 0"
  shows "dentries s' = dentries s"
  using assms by (auto simp: interpose_new_def dest: interpose_error split: Option.bind_split_asm if_split_asm)

text \<open>A bracket whose body keeps the names on an error, or does its work on success, does so as a whole.\<close>

lemma bracket_error:
  assumes "bracket I dentry body s = Some (r, s')" and "r \<noteq> 0"
    and "\<And>ld ldir lp t t'. body ld ldir lp t = Some (r, t') \<Longrightarrow> dentries t' = dentries t \<and> dinfos t' = dinfos t"
  shows "dentries s' = dentries s \<and> dinfos s' = dinfos s"
  using assms(1)
proof (cases rule: bracket_cases)
  case (run info lp ld dir i t j)
  with assms(3) [OF run(7)] show ?thesis by simp
qed simp

lemma bracket_success:
  assumes "bracket I dentry body s = Some (0, s')"
  obtains info lp ld ldir t t' where "d_fsdata (dentries s dentry) = Some info" "lp = lower_path (dinfos s info)"
    "p_dentry lp = Some ld" "ldir = d_parent (l_dentries (low s) ld)" "low t = low s" "dentries t = dentries s"
    "body ld ldir lp t = Some (0, t')"
    "low s' = low t'" "dentries s' = dentries t'" "inodes s' = inodes t'"
  using assms
proof (cases rule: bracket_cases)
  case (run info lp ld dir i t j)
  with that [OF run(1,2,3,4) _ _ run(7)] show ?thesis by simp
qed simp

lemma new_body_error:
  "new_body name V L op dir dentry ld ldir lp s = Some (r, s') \<Longrightarrow> r \<noteq> 0 \<Longrightarrow> dentries s' = dentries s \<and> dinfos s' = dinfos s"
  by (auto simp: new_body_def dest: interpose_new_error interpose_new_keeps(2) split: prod.split_asm)

lemma create_body_error:
  "create_body I V L dir dentry mode nd ld ldir lp s = Some (r, s') \<Longrightarrow> r \<noteq> 0 \<Longrightarrow>
     dentries s' = dentries s \<and> dinfos s' = dinfos s"
  by (auto simp: create_body_def dest: interpose_new_error interpose_new_keeps(2)
      split: prod.split_asm Option.bind_split_asm)

lemma mkdir_body_error:
  "mkdir_body I V L dir dentry mode ld ldir lp s = Some (r, s') \<Longrightarrow> r \<noteq> 0 \<Longrightarrow>
     dentries s' = dentries s \<and> dinfos s' = dinfos s"
  by (auto simp: mkdir_body_def dest: new_body_error split: Option.bind_split_asm if_split_asm)

lemma rmdir_body_error:
  "rmdir_body I V dir dentry ld ldir lp s = Some (r, s') \<Longrightarrow> r \<noteq> 0 \<Longrightarrow>
     dentries s' = dentries s \<and> dinfos s' = dinfos s"
  by (auto simp: rmdir_body_def Let_def split: prod.split_asm Option.bind_split_asm if_split_asm)

lemma link_new_error:
  assumes "link_new V L od dir nd lnd nlp sz err s = Some (r, s')" and "r \<noteq> 0"
  shows "dentries s' = dentries s"
  using assms by (auto simp: link_new_def Let_def dest: interpose_error split: Option.bind_split_asm if_split_asm)

lemma link_error:
  assumes "wrapfs_link I V L old dir new s = Some (r, s')" and r: "r \<noteq> 0"
  shows "dentries s' = dentries s \<and> dinfos s' = dinfos s"
  using assms(1)
proof (cases rule: link_cases)
  case (run oinfo ninfo olp nlp lod ld ldir i oi e l t j)
  from link_new_error [OF run(11) r] link_new_keeps(2) [OF run(11)] run(14,17) show ?thesis by simp
qed simp

lemma unlink_error:
  assumes "wrapfs_unlink I V dir dentry s = Some (r, s')" and r: "r \<noteq> 0"
  shows "dentries s' = dentries s \<and> dinfos s' = dinfos s \<and> inodes s' = inodes s"
  using assms(1)
proof (cases rule: unlink_cases)
  case (run info lp ld ldir i e l t j)
  with r have "dentries t = dentries s" "inodes t = inodes s" "dinfos t = dinfos s" by (auto split: if_split_asm)
  with run(11,12,14) show ?thesis by simp
qed simp

lemma rmdir_error:
  assumes "wrapfs_rmdir I V dir dentry s = Some (r, s')" and r: "r \<noteq> 0"
  shows "dentries s' = dentries s \<and> dinfos s' = dinfos s \<and> inodes s' = inodes s"
proof -
  have b: "bracket I dentry (rmdir_body I V dir dentry) s = Some (r, s')" using assms(1) by (simp add: rmdir_bracket)
  then have "inodes s' = inodes s"
  proof (cases rule: bracket_cases)
    case (run info lp ld ldir i t j)
    with r show ?thesis
      by (auto simp: rmdir_body_def Let_def split: prod.split_asm Option.bind_split_asm if_split_asm)
  qed simp
  with bracket_error [OF b r rmdir_body_error [OF _ r]] show ?thesis by simp
qed

lemma rename_error:
  assumes "wrapfs_rename I V od o' nd n s = Some (r, s')" and "r \<noteq> 0"
  shows "dentries s' = dentries s \<and> dinfos s' = dinfos s \<and> inodes s' = inodes s"
  using assms
  by (auto simp: wrapfs_rename_def Let_def get_lower_path_Some rename_out_err_def rename_out_drop_old_def rename_out_def
      wrapfs_put_lower_path_def split: Option.bind_split_asm if_split_asm prod.split_asm)

text \<open>Reading a link and setting attributes never touch a name.\<close>

lemma readlink_names:
  "wrapfs_readlink I V dentry n s = Some (r, s') \<Longrightarrow> dentries s' = dentries s \<and> dinfos s' = dinfos s"
  by (auto simp: wrapfs_readlink_def Let_def get_lower_path_Some wrapfs_put_lower_path_def
      split: Option.bind_split_asm if_split_asm prod.split_asm)

lemma setattr_names:
  "wrapfs_setattr I V dentry ia s = Some (r, s') \<Longrightarrow> dentries s' = dentries s \<and> dinfos s' = dinfos s"
  by (auto simp: wrapfs_setattr_def setattr_apply_def Let_def get_lower_path_Some wrapfs_put_lower_path_def
      split: Option.bind_split_asm if_split_asm prod.split_asm)

text \<open>The dentry has an inode, which stands for the inode of the lower dentry, and the directory has followed.\<close>

definition name_made :: "kst \<Rightarrow> ptr \<Rightarrow> ptr \<Rightarrow> ptr \<Rightarrow> ptr \<Rightarrow> bool" where
  "name_made s dentry dir ld ldir \<longleftrightarrow> (\<exists>li i. lower_d_inode s ld = Some li \<and> d_inode (dentries s dentry) = Some i \<and>
     lower_inode (inodes s i) = Some li \<and> dir_follows s dir ldir)"

lemma interpose_new_made:
  assumes "iget_law L" "fsstack_laws V" and "interpose_new V L dir dentry ldir lp e t = Some (0, t')"
    and "p_dentry lp = Some ld"
  shows "name_made t' dentry dir ld ldir"
  using interpose_new_done [OF assms(1-3)] assms(4) by (auto simp: name_made_def)

lemma bracket_made:
  assumes "bracket I dentry body s = Some (0, s')"
    and "\<And>ld ldir lp t t'. body ld ldir lp t = Some (0, t') \<Longrightarrow> p_dentry lp = Some ld \<Longrightarrow> name_made t' dentry dir ld ldir"
  shows "\<exists>info ld. d_fsdata (dentries s dentry) = Some info \<and> p_dentry (lower_path (dinfos s info)) = Some ld \<and>
    name_made s' dentry dir ld (d_parent (l_dentries (low s) ld))"
  using assms(1)
proof (rule bracket_success)
  fix info lp ld ldir t t'
  assume a: "d_fsdata (dentries s dentry) = Some info" "lp = lower_path (dinfos s info)" "p_dentry lp = Some ld"
    "ldir = d_parent (l_dentries (low s) ld)" and b: "body ld ldir lp t = Some (0, t')"
    and e: "low s' = low t'" "dentries s' = dentries t'" "inodes s' = inodes t'"
  from assms(2) [OF b a(3)] a e show ?thesis by (auto simp: name_made_def dir_follows_def)
qed

section \<open>Concrete parameters\<close>

text \<open>
  A lower file system on which the operations succeed: a new name gets the lower inode 13, a removed
  one loses its inode.
\<close>

definition set_lower_inode :: "ptr \<Rightarrow> ptr option \<Rightarrow> lower_st \<Rightarrow> lower_st" where
  "set_lower_inode d v = l_dentries_update (\<lambda>h. h(d := (h d)\<lparr>d_inode := v\<rparr>))"

definition ram_inode :: inode_api where
  "ram_inode =
     \<lparr>mnt_want_write = (\<lambda>_ _. 0),
      vfs_create = (\<lambda>_ d _ n l. (0, n, if d_parent (l_dentries l d) = d then l else set_lower_inode d (Some 13) l)),
      vfs_link = (\<lambda>_ _ d l. (0, if d_parent (l_dentries l d) = d then l else set_lower_inode d (Some 13) l)),
      vfs_unlink = (\<lambda>_ d l. (0, if d_parent (l_dentries l d) = d then l else set_lower_inode d None l)),
      vfs_symlink = (\<lambda>_ d _ l. (0, if d_parent (l_dentries l d) = d then l else set_lower_inode d (Some 13) l)),
      vfs_mkdir = (\<lambda>_ d _ l. (0, if d_parent (l_dentries l d) = d then l else set_lower_inode d (Some 13) l)),
      vfs_rmdir = (\<lambda>_ d l. (0, if d_parent (l_dentries l d) = d then l else set_lower_inode d None l)),
      vfs_mknod = (\<lambda>_ d _ _ l. (0, if d_parent (l_dentries l d) = d then l else set_lower_inode d (Some 13) l)),
      lock_rename = (\<lambda>_ _ _. None), vfs_rename = (\<lambda>_ _ _ _ l. (0, l)),
      lower_readlink = (\<lambda>_ n _ l. (3, \<lambda>_. 47, l)), inode_permission = (\<lambda>_ _ _. 0),
      inode_change_ok = (\<lambda>_ _. 0), inode_newsize_ok = (\<lambda>_ _. 0), notify_change = (\<lambda>_ _ l. (0, l))\<rparr>"

lemma ram_dir_laws: "dir_laws ram_inode"
  by (simp add: dir_laws_def ram_inode_def keeps_parent_def set_lower_inode_def)

text \<open>
  In directory 3 (inode 1, below it dentry 31 with inode 33) dentry 8 is a negative name with the
  lower dentry 32, and dentry 16 names the file 17 with the lower dentry 36 and inode 13.
\<close>

definition name_kst :: kst where
  "name_kst = dir_kst
     \<lparr>dentries := (dentries dir_kst)(8 := blank_dentry\<lparr>d_parent := 3, d_sb := 4, d_fsdata := Some 30\<rparr>,
        16 := blank_dentry\<lparr>d_parent := 3, d_sb := 4, d_fsdata := Some 34, d_inode := Some 17\<rparr>),
      dinfos := (dinfos dir_kst)(30 := \<lparr>lower_path = \<lparr>p_dentry = Some 32, p_mnt = Some 15\<rparr>\<rparr>,
        34 := \<lparr>lower_path = \<lparr>p_dentry = Some 36, p_mnt = Some 15\<rparr>\<rparr>),
      inodes := (inodes dir_kst)(
        1 := \<lparr>ii_lower_file = None, lower_inode = Some 33, vfs_inode = blank_inode\<lparr>i_sb := 4\<rparr>\<rparr>,
        17 := \<lparr>ii_lower_file = None, lower_inode = Some 13, vfs_inode = blank_inode\<lparr>i_sb := 4\<rparr>\<rparr>),
      low := (low dir_kst)
        \<lparr>l_inodes := (l_inodes (low dir_kst))(33 := blank_inode\<lparr>i_size := 512\<rparr>,
           13 := blank_inode\<lparr>i_size := 9, i_op := Some (foreign_iops [I_readlink])\<rparr>),
         l_dentries := (l_dentries (low dir_kst))(31 := blank_dentry\<lparr>d_inode := Some 33, d_parent := 31\<rparr>,
           32 := blank_dentry\<lparr>d_parent := 31\<rparr>, 36 := blank_dentry\<lparr>d_parent := 31, d_inode := Some 13\<rparr>)\<rparr>\<rparr>"

declare name_kst_def [state_defs] set_lower_inode_def [state_defs]

lemmas name_defs = wrapfs_get_lower_path_def lock_parent_def unlock_dir_def wrapfs_put_lower_path_def
  interpose_new_def inode_out_def inode_out_unlock_def wrapfs_interpose_def wrapfs_iget_def iget_init_def
  iget_select_ops_def S_ISDIR_def S_ISLNK_def S_ISBLK_def S_ISCHR_def S_ISFIFO_def S_ISSOCK_def
  ram_lookup_def ram_inode_def Let_def

abbreviation nd0 :: nameidata where
  "nd0 \<equiv> \<lparr>nd_flags = 0, nd_path = null_path, nd_link = None\<rparr>"

lemma create_run:
  "\<exists>s'. name_run ram_inode ram_vfs ram_lookup (Create 1 8 0 (Some nd0)) name_kst = Some (0, s')"
  by (simp add: wrapfs_create_def name_defs state_defs link_simps)

lemma unlink_rename_run:
  "\<exists>s'. name_trace ram_inode ram_vfs ram_lookup name_kst [(Unlink 1 16, 0), (Rename 1 8 1 16, 0)] s'"
  by (simp add: wrapfs_rename_def rename_done_def rename_out_err_def rename_out_drop_old_def rename_out_def
      wrapfs_unlink_def unlink_done_def unlink_out_def unlink_out_unlock_def name_defs state_defs link_simps)

section \<open>Properties\<close>

text \<open>C4: any sequence of calls on names and attributes (create, link, unlink, symlink, mkdir, rmdir, mknod,
  rename, readlink, setattr), with any mixture of successes and failures, gives back everything it
  took: the counts of lower paths, of lower dentries, of directory mutexes, of rename locks and of
  write access to the mounts are what they were before the first call.\<close>

theorem names_balanced:
  assumes "dir_laws I" and "name_trace I V L s ops s'" and "\<forall>p. x \<noteq> R_inode p \<and> x \<noteq> R_up_inode p"
  shows "held x (log s') = held x (log s)"
  using assms(2)
proof (induction rule: name_trace.induct)
  case (step op s r s1 ops s2)
  from name_run_balanced [OF assms(1) step(1) assms(3)] step(3) show ?case by simp
qed simp

theorem names_balanced_witness:
  "\<exists>s'. name_trace ram_inode ram_vfs ram_lookup name_kst [(Unlink 1 16, 0), (Rename 1 8 1 16, 0)] s' \<and>
     held (R_mutex 33) (log s') = 0 \<and> held (R_write (Some 15)) (log s') = 0"
proof -
  obtain s' where s': "name_trace ram_inode ram_vfs ram_lookup name_kst [(Unlink 1 16, 0), (Rename 1 8 1 16, 0)] s'"
    using unlink_rename_run ..
  have "log name_kst = []" by (simp add: state_defs)
  with names_balanced [OF ram_dir_laws s', of "R_mutex 33"] names_balanced [OF ram_dir_laws s', of "R_write (Some 15)"] s'
  show ?thesis by auto
qed

text \<open>C11: a call that creates a name links it.  When create, symlink, mknod or mkdir returns 0, the new
  dentry has an inode that stands for the inode the lower file system attached to the lower dentry, and
  the upper directory has taken over the times of its lower inode and the size of the locked lower
  directory; after mkdir also the link count of its lower inode.\<close>

theorem new_name_links:
  assumes law: "iget_law L" "fsstack_laws V"
    and run: "name_run I V L op s = Some (0, s')"
    and op: "op \<in> {Create dir dentry mode nd, Symlink dir dentry name, Mknod dir dentry mode dev, Mkdir dir dentry mode}"
  shows "\<exists>info ld. d_fsdata (dentries s dentry) = Some info \<and> p_dentry (lower_path (dinfos s info)) = Some ld \<and>
    name_made s' dentry dir ld (d_parent (l_dentries (low s) ld)) \<and>
    (op = Mkdir dir dentry mode \<longrightarrow> (\<exists>dli. lower_inode (inodes s' dir) = Some dli \<and>
       i_nlink (vfs_inode (inodes s' dir)) = i_nlink (l_inodes (low s') dli)))"
proof -
  note made = interpose_new_made [OF law]
  from op consider (c) "op = Create dir dentry mode nd" | (s) "op = Symlink dir dentry name"
    | (n) "op = Mknod dir dentry mode dev" | (m) "op = Mkdir dir dentry mode" by auto
  then show ?thesis
  proof cases
    case c
    with run obtain nd' where r: "wrapfs_create I V L dir dentry mode nd s = Some ((0, nd'), s')" by auto
    have "\<exists>info ld. d_fsdata (dentries s dentry) = Some info \<and> p_dentry (lower_path (dinfos s info)) = Some ld \<and>
        name_made s' dentry dir ld (d_parent (l_dentries (low s) ld))"
      by (rule bracket_made [OF create_bracket [OF r]])
        (auto simp: create_body_def intro: made split: Option.bind_split_asm prod.split_asm)
    with c show ?thesis by simp
  next
    case s
    with run have "\<exists>info ld. d_fsdata (dentries s dentry) = Some info \<and> p_dentry (lower_path (dinfos s info)) = Some ld \<and>
        name_made s' dentry dir ld (d_parent (l_dentries (low s) ld))"
      by (intro bracket_made) (auto simp: symlink_bracket new_body_def intro: made split: prod.split_asm)
    with s show ?thesis by simp
  next
    case n
    with run have "\<exists>info ld. d_fsdata (dentries s dentry) = Some info \<and> p_dentry (lower_path (dinfos s info)) = Some ld \<and>
        name_made s' dentry dir ld (d_parent (l_dentries (low s) ld))"
      by (intro bracket_made) (auto simp: mknod_bracket new_body_def intro: made split: prod.split_asm)
    with n show ?thesis by simp
  next
    case m
    have keep: "name_made (set_nlink dir k u) dentry dir ld ldir" if "name_made u dentry dir ld ldir" for k u ld ldir
    proof -
      have "lower_inode (inodes (set_nlink dir k u) i) = lower_inode (inodes u i)" for i by simp
      moreover have "dir_follows (set_nlink dir k u) dir ldir \<longleftrightarrow> dir_follows u dir ldir" by (simp add: dir_follows_def)
      ultimately show ?thesis using that by (simp only: name_made_def) simp
    qed
    from m run have b: "bracket I dentry (mkdir_body I V L dir dentry mode) s = Some (0, s')" by (simp add: mkdir_bracket)
    then have "\<exists>info ld. d_fsdata (dentries s dentry) = Some info \<and> p_dentry (lower_path (dinfos s info)) = Some ld \<and>
        name_made s' dentry dir ld (d_parent (l_dentries (low s) ld))"
      by (rule bracket_made) (auto simp: mkdir_body_def new_body_def intro!: keep intro: made
          split: Option.bind_split_asm prod.split_asm if_split_asm)
    moreover from b have "\<exists>dli. lower_inode (inodes s' dir) = Some dli \<and>
        i_nlink (vfs_inode (inodes s' dir)) = i_nlink (l_inodes (low s') dli)"
      by (rule bracket_success) (auto simp: mkdir_body_def link_simps split: Option.bind_split_asm if_split_asm)
    ultimately show ?thesis by blast
  qed
qed

theorem new_name_links_witness:
  "\<exists>s' ld. name_run ram_inode ram_vfs ram_lookup (Create 1 8 0 (Some nd0)) name_kst = Some (0, s') \<and>
     name_made s' 8 1 ld 31"
proof -
  obtain s' where s': "name_run ram_inode ram_vfs ram_lookup (Create 1 8 0 (Some nd0)) name_kst = Some (0, s')"
    using create_run ..
  have "d_fsdata (dentries name_kst 8) = Some 30" "p_dentry (lower_path (dinfos name_kst 30)) = Some 32"
    "d_parent (l_dentries (low name_kst) 32) = 31"
    by (simp_all add: state_defs)
  with new_name_links [OF ram_lookup_laws(1) ram_vfs_fsstack s', of 1 8 0 "Some nd0" "[]" 0] s' show ?thesis by auto
qed

text \<open>C12: a failed call leaves the names alone.  When create, link, unlink, symlink, mkdir, rmdir, mknod,
  rename or setattr returns an error, whether from the lower file system, from the request for write
  access or from the interposition, no dentry and no stored lower path has changed; the removing
  operations and rename have changed no inode either.\<close>

theorem failed_call_keeps_names:
  assumes run: "name_run I V L op s = Some (r, s')" and r: "r \<noteq> 0"
  shows "dentries s' = dentries s \<and> dinfos s' = dinfos s \<and>
    (case op of Unlink _ _ \<Rightarrow> inodes s' = inodes s | Rmdir _ _ \<Rightarrow> inodes s' = inodes s
     | Rename _ _ _ _ \<Rightarrow> inodes s' = inodes s | _ \<Rightarrow> True)"
proof (cases op)
  case (Create dir dentry mode nd)
  with run obtain nd' where "wrapfs_create I V L dir dentry mode nd s = Some ((r, nd'), s')" by auto
  from bracket_error [OF create_bracket [OF this] r create_body_error [OF _ r]] Create show ?thesis by simp
next
  case (Readlink dentry n)
  with run show ?thesis by (auto dest: readlink_names)
qed (use run r in \<open>auto simp: symlink_bracket mknod_bracket mkdir_bracket
      dest: link_error unlink_error rmdir_error rename_error setattr_names
        bracket_error [OF _ r new_body_error [OF _ r]] bracket_error [OF _ r mkdir_body_error [OF _ r]]\<close>)

theorem failed_call_keeps_names_witness:
  "\<exists>s'. name_run (ram_inode\<lparr>vfs_unlink := \<lambda>_ _ l. (- EACCES, l)\<rparr>) ram_vfs ram_lookup (Unlink 1 16) name_kst
      = Some (- EACCES, s') \<and> dentries s' = dentries name_kst \<and> inodes s' = inodes name_kst"
proof -
  let ?I = "ram_inode\<lparr>vfs_unlink := \<lambda>_ _ l. (- EACCES, l)\<rparr>"
  obtain s' where s': "name_run ?I ram_vfs ram_lookup (Unlink 1 16) name_kst = Some (- EACCES, s')"
    by (simp add: wrapfs_unlink_def unlink_out_def unlink_out_unlock_def name_defs state_defs link_simps)
  from failed_call_keeps_names [OF s'] s' show ?thesis by simp
qed

text \<open>C24: a successful unlink drops the name.  \<open>wrapfs_unlink\<close> returns 0 exactly when the lower unlink
  did, or failed with \<open>-EBUSY\<close> on a file that NFS has renamed away; then the dentry is unhashed, the
  directory has the size and the three times of its lower directory, and the inode has the link count of
  its lower inode and the change time of the directory.\<close>

theorem unlink_drops_name:
  assumes law: "fsstack_laws V" and run: "wrapfs_unlink I V dir dentry s = Some (r, s')"
    and info: "d_fsdata (dentries s dentry) = Some info" "p_dentry (lower_path (dinfos s info)) = Some ld"
    and inode: "d_inode (dentries s dentry) = Some inode" "lower_inode (inodes s inode) = Some li"
    and dir: "lower_inode (inodes s dir) = Some ldi"
    and lower: "mnt_want_write I (p_mnt (lower_path (dinfos s info))) (low s) = 0"
      "vfs_unlink I (Some ldi) ld (low s) = (e, l)"
  shows "(r = 0 \<longleftrightarrow> e = 0 \<or> e = - EBUSY \<and> d_nfs_renamed (l_dentries l ld)) \<and> low s' = l \<and>
    (r = 0 \<longrightarrow> d_unhashed (dentries s' dentry) \<and> i_nlink (vfs_inode (inodes s' inode)) = i_nlink (l_inodes l li) \<and>
      i_ctime (vfs_inode (inodes s' inode)) = i_ctime (l_inodes l ldi) \<and>
      i_size (vfs_inode (inodes s' dir)) = i_size (l_inodes l ldi) \<and>
      i_atime (vfs_inode (inodes s' dir)) = i_atime (l_inodes l ldi) \<and>
      i_mtime (vfs_inode (inodes s' dir)) = i_mtime (l_inodes l ldi) \<and>
      i_ctime (vfs_inode (inodes s' dir)) = i_ctime (l_inodes l ldi))"
  using run
proof (cases rule: unlink_cases)
  case (run info' lp ld' ldir i e' l' t j)
  have e: "e' = e" "l' = l" "ld' = ld" using run(1,2,3,6) info dir lower(2) by (auto simp: link_simps)
  have "low t = l" using run(8) e by (auto dest!: unlink_done_keeps split: if_split_asm)
  moreover have "d_unhashed (dentries t dentry) \<and> i_nlink (vfs_inode (inodes t inode)) = i_nlink (l_inodes l li) \<and>
      i_ctime (vfs_inode (inodes t inode)) = i_ctime (l_inodes l ldi) \<and>
      i_size (vfs_inode (inodes t dir)) = i_size (l_inodes l ldi) \<and>
      i_atime (vfs_inode (inodes t dir)) = i_atime (l_inodes l ldi) \<and>
      i_mtime (vfs_inode (inodes t dir)) = i_mtime (l_inodes l ldi) \<and>
      i_ctime (vfs_inode (inodes t dir)) = i_ctime (l_inodes l ldi)" if "r = 0"
    using run(8) that e inode dir law
    by (auto simp: unlink_done_def Let_def link_simps fsstack_laws_def split: Option.bind_split_asm if_split_asm)
  ultimately show ?thesis using run(7,10,11,12) e by auto
qed (use info lower in auto)

theorem unlink_drops_name_witness:
  "\<exists>s'. wrapfs_unlink (ram_inode\<lparr>vfs_unlink := \<lambda>_ d l. (- EBUSY, l\<lparr>l_dentries := (l_dentries l)(d := (l_dentries l d)
        \<lparr>d_nfs_renamed := True\<rparr>)\<rparr>)\<rparr>) ram_vfs 1 16 name_kst = Some (0, s') \<and> d_unhashed (dentries s' 16)"
proof -
  let ?I = "ram_inode\<lparr>vfs_unlink := \<lambda>_ d l. (- EBUSY, l\<lparr>l_dentries := (l_dentries l)(d := (l_dentries l d)
        \<lparr>d_nfs_renamed := True\<rparr>)\<rparr>)\<rparr>"
  obtain s' where s': "wrapfs_unlink ?I ram_vfs 1 16 name_kst = Some (0, s')"
    by (simp add: wrapfs_unlink_def unlink_done_def unlink_out_def unlink_out_unlock_def name_defs state_defs link_simps)
  have h: "d_fsdata (dentries name_kst 16) = Some 34" "p_dentry (lower_path (dinfos name_kst 34)) = Some 36"
    "d_inode (dentries name_kst 16) = Some 17" "lower_inode (inodes name_kst 17) = Some 13"
    "lower_inode (inodes name_kst 1) = Some 33"
    "mnt_want_write ?I (p_mnt (lower_path (dinfos name_kst 34))) (low name_kst) = 0"
    by (simp_all add: state_defs ram_inode_def)
  have v: "vfs_unlink ?I (Some 33) 36 (low name_kst) = (- EBUSY, (low name_kst)\<lparr>l_dentries :=
      (l_dentries (low name_kst))(36 := (l_dentries (low name_kst) 36)\<lparr>d_nfs_renamed := True\<rparr>)\<rparr>)" by simp
  from unlink_drops_name [OF ram_vfs_fsstack s' h v] s' show ?thesis by auto
qed

text \<open>C34: the directory loses its own attributes in \<open>wrapfs_link\<close>: when a link is made, the size and the
  times of the upper directory become those of the linked file, not those of the lower directory.\<close>

theorem link_overwrites_directory:
  assumes law: "fsstack_laws V" and run: "wrapfs_link I V L old dir new s = Some (0, s')"
    and ok: "d_fsdata (dentries s new) = Some info" "p_dentry (lower_path (dinfos s info)) = Some ld"
      "d_inode (l_dentries (low s') ld) = Some li"
    and other: "d_inode (dentries s' new) \<noteq> Some dir" "d_inode (dentries s' old) \<noteq> Some dir"
  shows "i_size (vfs_inode (inodes s' dir)) = i_size (l_inodes (low s') li) \<and>
    i_mtime (vfs_inode (inodes s' dir)) = i_mtime (l_inodes (low s') li)"
  using run
proof (cases rule: link_cases)
  case (run oinfo ninfo olp nlp lod ld' ldir i oi e l t j)
  have ld: "ld' = ld" using run(4,5,6) ok by simp
  show ?thesis
    using run(11,13,14,15) ld ok(3) other law
    by (auto simp: link_new_def Let_def fsstack_laws_def link_simps dest: interpose_keeps(3)
        split: Option.bind_split_asm if_split_asm)
qed simp

theorem link_overwrites_directory_witness:
  "\<exists>s'. wrapfs_link ram_inode ram_vfs ram_lookup 16 1 8 name_kst = Some (0, s') \<and>
     i_size (vfs_inode (inodes s' 1)) = 9 \<and> i_size (l_inodes (low s') 33) = 512"
proof -
  obtain s' where s': "wrapfs_link ram_inode ram_vfs ram_lookup 16 1 8 name_kst = Some (0, s')"
    and low: "low s' = set_lower_inode 32 (Some 13) (low name_kst)"
    and d: "d_inode (dentries s' 8) = Some 42" "d_inode (dentries s' 16) = Some 17"
    by (simp add: wrapfs_link_def link_new_def link_out_def link_out_unlock_def name_defs state_defs link_simps)
  have h: "d_fsdata (dentries name_kst 8) = Some 30" "p_dentry (lower_path (dinfos name_kst 30)) = Some 32"
    by (simp_all add: state_defs)
  have "d_inode (l_dentries (low s') 32) = Some 13" by (simp add: low set_lower_inode_def)
  from link_overwrites_directory [OF ram_vfs_fsstack s' h this] d s' show ?thesis
    by (simp add: low) (simp add: state_defs)
qed

text \<open>An upper inode has the mode, the device, the links, the times and the size of a lower one.\<close>

definition same_attrs :: "inode \<Rightarrow> inode \<Rightarrow> bool" where
  "same_attrs x lo \<longleftrightarrow> i_mode x = i_mode lo \<and> i_rdev x = i_rdev lo \<and> i_nlink x = i_nlink lo \<and> i_size x = i_size lo \<and>
     i_atime x = i_atime lo \<and> i_mtime x = i_mtime lo \<and> i_ctime x = i_ctime lo"

lemma same_attrs_copy [simp]:
  "fsstack_laws V \<Longrightarrow> same_attrs (fsstack_copy_inode_size V (fsstack_copy_attr_all V x lo) lo) lo"
  by (simp add: fsstack_laws_def same_attrs_def)

text \<open>C25: rename refuses to move a directory into itself.  When the lock reports the source as an ancestor
  of the target the result is \<open>-EINVAL\<close>, when it reports the target as an ancestor of the source it is
  \<open>-ENOTEMPTY\<close>; in both cases the lower file system has not been called.  When rename succeeds, the
  lower rename did, and both upper directories have taken over the mode, the device, the link count, the
  times and the size of the lower ones.\<close>

theorem rename_result:
  assumes law: "fsstack_laws V" and run: "wrapfs_rename I V od old nd new s = Some (r, s')"
    and old: "d_fsdata (dentries s old) = Some oinfo" "p_dentry (lower_path (dinfos s oinfo)) = Some lo"
    and new: "d_fsdata (dentries s new) = Some ninfo" "p_dentry (lower_path (dinfos s ninfo)) = Some ln"
    and dirs: "oldir = d_parent (l_dentries (low s) lo)" "nldir = d_parent (l_dentries (low s) ln)"
  shows "(lock_rename I oldir nldir (low s) = Some lo \<longrightarrow> r = - EINVAL \<and> low s' = low s) \<and>
    (lock_rename I oldir nldir (low s) = Some ln \<and> ln \<noteq> lo \<longrightarrow> r = - ENOTEMPTY \<and> low s' = low s) \<and>
    (r = 0 \<longrightarrow> (\<exists>l li. vfs_rename I (d_inode (l_dentries (low s) oldir)) lo (d_inode (l_dentries (low s) nldir)) ln (low s)
        = (0, l) \<and> low s' = l \<and> d_inode (l_dentries l nldir) = Some li \<and>
      same_attrs (vfs_inode (inodes s' nd)) (l_inodes l li) \<and>
      (nd \<noteq> od \<longrightarrow> (\<exists>lj. d_inode (l_dentries l oldir) = Some lj \<and>
         same_attrs (vfs_inode (inodes s' od)) (l_inodes l lj)))))"
  using assms
  by (auto simp: wrapfs_rename_def Let_def get_lower_path_Some rename_out_err_def rename_out_drop_old_def rename_out_def
      rename_done_def link_simps wrapfs_put_lower_path_def
      split: Option.bind_split_asm if_split_asm prod.split_asm)

theorem rename_result_witness:
  "\<exists>s'. wrapfs_rename (ram_inode\<lparr>lock_rename := \<lambda>_ _ _. Some 36\<rparr>) ram_vfs 1 16 1 8 name_kst = Some (- EINVAL, s') \<and>
     low s' = low name_kst"
proof -
  let ?I = "ram_inode\<lparr>lock_rename := \<lambda>_ _ _. Some 36\<rparr>"
  obtain s' where s': "wrapfs_rename ?I ram_vfs 1 16 1 8 name_kst = Some (- EINVAL, s')"
    by (simp add: wrapfs_rename_def rename_out_def name_defs state_defs link_simps)
  have h: "d_fsdata (dentries name_kst 16) = Some 34" "p_dentry (lower_path (dinfos name_kst 34)) = Some 36"
    "d_fsdata (dentries name_kst 8) = Some 30" "p_dentry (lower_path (dinfos name_kst 30)) = Some 32"
    by (simp_all add: state_defs)
  from rename_result [OF ram_vfs_fsstack s' h refl refl] s' show ?thesis by simp
qed

text \<open>The three ways through \<open>wrapfs_follow_link\<close>.\<close>

lemma follow_link_cases:
  assumes run: "wrapfs_follow_link I V M dentry nd s = Some (nd', s1)"
    and path: "d_fsdata (dentries s dentry) = Some info" "p_dentry (lower_path (dinfos s info)) = Some ld"
  obtains (no_memory) "nd' = nd\<lparr>nd_link := Some (ErrPtr (- ENOMEM))\<rparr>" "s1 = s"
    | (failed) buf r t where "nd' = nd\<lparr>nd_link := Some (ErrPtr r)\<rparr>"
      "s1 = emit (Kfree (Some buf)) (set_fs (addr_limit s) t)"
      "\<forall>x. held x (log t) = held x (log s @ [Kmalloc buf])"
    | (filled) buf n d l t where "nd' = nd\<lparr>nd_link := Some (Ptr buf)\<rparr>" "n < PAGE_CACHE_SIZE"
      "lower_readlink I ld (int PAGE_CACHE_SIZE) KERNEL_DS (low s) = (int n, d, l)"
      "s1 = upd_buf buf (\<lambda>b. b(n := 0)) (upd_buf buf (\<lambda>b. buf_write b 0 n d) (set_fs (addr_limit s) t))"
      "\<forall>x. held x (log t) = held x (log s @ [Kmalloc buf])"
proof (cases "kmalloc M PAGE_CACHE_SIZE s")
  case None
  with run no_memory show ?thesis by (auto simp: wrapfs_follow_link_def)
next
  case (Some buf)
  let ?s0 = "set_fs KERNEL_DS (emit (Kmalloc buf) s)"
  from run Some obtain r data t where rl: "wrapfs_readlink I V dentry (int PAGE_CACHE_SIZE) ?s0 = Some ((r, data), t)"
    by (auto simp: wrapfs_follow_link_def Let_def split: Option.bind_split_asm)
  note t = readlink_Some [OF rl]
  show ?thesis
  proof (cases "r < 0")
    case True
    with run Some rl t(1) show ?thesis
      by (intro failed [of r buf t]) (auto simp: wrapfs_follow_link_def)
  next
    case False
    with t(5) path obtain d l where "data = Some d" "lower_readlink I ld (int PAGE_CACHE_SIZE) KERNEL_DS (low s) = (r, d, l)"
      by auto
    with False run Some rl t(1) show ?thesis
      by (intro filled [of buf "nat r" d l t]) (auto simp: wrapfs_follow_link_def Let_def split: if_split_asm)
  qed
qed

text \<open>C27: following a symbolic link whose target is shorter than a page works and leaks nothing.  When memory
  is available and the lower method returns \<open>r\<close>, smaller than the size of the buffer, then for a negative \<open>r\<close> the
  \<open>nameidata\<close> gets it as an error pointer, and otherwise the buffer with the \<open>r\<close> bytes that were read, followed by a
  zero byte.  The address limit is as before, and after \<open>wrapfs_put_link\<close> every resource, the buffer included,
  is given back.\<close>

theorem follow_link_string:
  assumes "d_fsdata (dentries s dentry) = Some info" and "p_dentry (lower_path (dinfos s info)) = Some ld"
    and "kmalloc M PAGE_CACHE_SIZE s = Some buf" and "d_inode (l_dentries (low s) ld) = Some li"
    and "i_op (l_inodes (low s) li) = Some ops" and "has_iop ops I_readlink"
    and "lower_readlink I ld (int PAGE_CACHE_SIZE) KERNEL_DS (low s) = (r, d, l)" and "r < int PAGE_CACHE_SIZE"
    and "d_inode (dentries s dentry) = Some inode" and "d_inode (l_dentries l ld) = Some li'"
  shows "\<exists>nd' s1. wrapfs_follow_link I V M dentry nd s = Some (nd', s1) \<and>
    (if r < 0 then nd_link nd' = Some (ErrPtr r)
     else nd_link nd' = Some (Ptr buf) \<and> (\<forall>k < nat r. bufs s1 buf k = d k) \<and> bufs s1 buf (nat r) = 0) \<and>
    addr_limit s1 = addr_limit s \<and> (\<forall>x. held x (log (wrapfs_put_link dentry nd' s1)) = held x (log s))"
proof -
  have "nat r < PAGE_CACHE_SIZE" using assms(8) by (simp add: PAGE_CACHE_SIZE_eq)
  with assms have "\<exists>nd' s1. wrapfs_follow_link I V M dentry nd s = Some (nd', s1) \<and>
      nd_link nd' = Some (if r < 0 then ErrPtr r else Ptr buf)"
    by (cases "r < 0") (auto simp: wrapfs_follow_link_def wrapfs_readlink_def wrapfs_get_lower_path_def Let_def link_simps)
  then obtain nd' s1 where run: "wrapfs_follow_link I V M dentry nd s = Some (nd', s1)"
    and k: "nd_link nd' = Some (if r < 0 then ErrPtr r else Ptr buf)" by blast
  from run assms(1,2) show ?thesis
  proof (cases rule: follow_link_cases)
    case no_memory
    with k run show ?thesis by (auto simp: wrapfs_put_link_def split: if_split_asm)
  next
    case (failed buf' r' t)
    with k run show ?thesis by (auto simp: wrapfs_put_link_def held_simps split: if_split_asm)
  next
    case (filled buf' n d' l' t)
    with k assms(7) have "buf' = buf" "\<not> r < 0" "r = int n" "d' = d" by (auto split: if_split_asm)
    moreover have "\<forall>k<n. bufs s1 buf' k = d' k" "bufs s1 buf' n = 0" using filled(4) by (auto simp: buf_write_def)
    ultimately show ?thesis using run filled(1,4,5) by (auto simp: wrapfs_put_link_def held_simps)
  qed
qed

theorem follow_link_string_witness:
  "\<exists>nd' s1 buf. wrapfs_follow_link ram_inode ram_vfs ram_mm 16 nd0 name_kst = Some (nd', s1) \<and>
     nd_link nd' = Some (Ptr buf) \<and> bufs s1 buf 2 = 47 \<and> bufs s1 buf 3 = 0"
proof -
  have "\<exists>nd' s1. wrapfs_follow_link ram_inode ram_vfs ram_mm 16 nd0 name_kst = Some (nd', s1) \<and>
    (if (3::int) < 0 then nd_link nd' = Some (ErrPtr 3)
     else nd_link nd' = Some (Ptr 200) \<and> (\<forall>k < nat 3. bufs s1 200 k = 47) \<and> bufs s1 200 (nat 3) = 0) \<and>
    addr_limit s1 = addr_limit name_kst \<and> (\<forall>x. held x (log (wrapfs_put_link 16 nd' s1)) = held x (log name_kst))"
    by (rule follow_link_string [where info = 34 and ld = 36 and li = 13 and ops = "foreign_iops [I_readlink]"
          and d = "\<lambda>_. 47" and l = "low name_kst" and inode = 17 and li' = 13])
      (simp_all add: state_defs ram_mm_def ram_inode_def PAGE_CACHE_SIZE_eq)
  then show ?thesis by auto
qed

text \<open>C33: \<open>wrapfs_follow_link\<close> has no room for the terminating zero when the lower link fills the whole
  page: the store goes behind the end of the buffer.\<close>

theorem follow_link_overflow:
  assumes "d_fsdata (dentries s dentry) = Some info" and "p_dentry (lower_path (dinfos s info)) = Some ld"
    and "kmalloc M PAGE_CACHE_SIZE s = Some buf" and "d_inode (l_dentries (low s) ld) = Some li"
    and "i_op (l_inodes (low s) li) = Some ops" and "has_iop ops I_readlink"
    and "lower_readlink I ld (int PAGE_CACHE_SIZE) KERNEL_DS (low s) = (int PAGE_CACHE_SIZE, d, l)"
  shows "wrapfs_follow_link I V M dentry nd s = None"
  using assms
  by (auto simp: wrapfs_follow_link_def wrapfs_readlink_def wrapfs_get_lower_path_def Let_def link_simps bind_eq_None_conv
      split: option.split)

theorem follow_link_overflow_witness:
  "wrapfs_follow_link (ram_inode\<lparr>lower_readlink := \<lambda>_ n _ l. (n, \<lambda>_. 47, l)\<rparr>) ram_vfs ram_mm 16 nd0 name_kst = None"
  by (rule follow_link_overflow [where info = 34 and ld = 36 and li = 13 and ops = "foreign_iops [I_readlink]"
        and buf = 200 and d = "\<lambda>_. 47" and l = "low name_kst"])
    (simp_all add: state_defs ram_mm_def)

text \<open>C26: \<open>wrapfs_setattr\<close> passes the request on.  When the permission and size checks succeed, the lower
  inode is asked exactly once, with the size and the mode of the request, with the lower file in place
  of the upper one, and without \<open>ATTR_MODE\<close> when setuid or setgid bits are to be killed; the result is
  that of the lower file system.  The size of the upper inode has been set to the requested one before
  that, and stays so even when the lower file system refuses.\<close>

theorem setattr_forwards:
  assumes law: "fsstack_laws V" and run: "wrapfs_setattr I V dentry ia s = Some (r, s')"
    and inode: "d_inode (dentries s dentry) = Some inode" "inode_change_ok I (vfs_inode (inodes s inode)) ia = 0"
    and path: "d_fsdata (dentries s dentry) = Some info" "p_dentry (lower_path (dinfos s info)) = Some ld"
    and size: "ia_valid ia AND ATTR_SIZE = 0 \<or> inode_newsize_ok I (vfs_inode (inodes s inode)) (ia_size ia) = 0"
  shows "\<exists>lia l. notify_change I ld lia (low s) = (r, l) \<and> low s' = l \<and>
    ia_size lia = ia_size ia \<and> ia_mode lia = ia_mode ia \<and>
    (if ia_valid ia AND (ATTR_KILL_SUID OR ATTR_KILL_SGID) = 0 then ia_valid lia = ia_valid ia
     else ia_valid lia = ia_valid ia AND NOT ATTR_MODE) \<and>
    (if ia_valid ia AND ATTR_FILE = 0 then ia_file lia = ia_file ia
     else (\<exists>f. ia_file ia = Some f \<and> wrapfs_lower_file s f = Some (ia_file lia))) \<and>
    i_size (vfs_inode (inodes s' inode)) =
      (if ia_valid ia AND ATTR_SIZE = 0 then i_size (vfs_inode (inodes s inode)) else ia_size ia)"
proof -
  have log: "setattr_lower_ia ia (log_update f s) = setattr_lower_ia ia s" for f
    by (simp add: setattr_lower_ia_def link_simps)
  from run inode path obtain lia t f where l: "setattr_lower_ia ia s = Some lia"
    and a: "setattr_apply I V inode ld (wrapfs_lower_inode s inode) ia lia (log_update f s) = Some (r, t)"
    and s': "low s' = low t" "inodes s' = inodes t"
    by (auto simp: wrapfs_setattr_def Let_def wrapfs_get_lower_path_def log link_simps
        wrapfs_put_lower_path_def split: Option.bind_split_asm)
  from l have lia: "ia_size lia = ia_size ia" "ia_mode lia = ia_mode ia" "ia_valid lia = ia_valid ia"
    "if ia_valid ia AND ATTR_FILE = 0 then ia_file lia = ia_file ia
     else (\<exists>f. ia_file ia = Some f \<and> wrapfs_lower_file s f = Some (ia_file lia))"
    by (auto simp: setattr_lower_ia_def split: Option.bind_split_asm if_split_asm)
  let ?lia = "if ia_valid lia AND (ATTR_KILL_SUID OR ATTR_KILL_SGID) \<noteq> 0
    then lia\<lparr>ia_valid := ia_valid lia AND NOT ATTR_MODE\<rparr> else lia"
  from a size law have "notify_change I ld ?lia (low s) = (r, low t)"
    "i_size (vfs_inode (inodes t inode)) =
      (if ia_valid ia AND ATTR_SIZE = 0 then i_size (vfs_inode (inodes s inode)) else ia_size ia)"
    by (auto simp: setattr_apply_def Let_def fsstack_laws_def split: Option.bind_split_asm if_split_asm prod.split_asm)
  with lia s' show ?thesis by (intro exI [of _ ?lia] exI [of _ "low t"]) auto
qed

theorem setattr_forwards_witness:
  "\<exists>s'. wrapfs_setattr (ram_inode\<lparr>notify_change := \<lambda>_ _ l. (- EPERM, l)\<rparr>) ram_vfs 16
       \<lparr>ia_valid = ATTR_SIZE, ia_mode = 0, ia_size = 5, ia_file = None\<rparr> name_kst = Some (- EPERM, s') \<and>
     i_size (vfs_inode (inodes s' 17)) = 5"
proof -
  let ?I = "ram_inode\<lparr>notify_change := \<lambda>_ _ l. (- EPERM, l)\<rparr>"
  let ?ia = "\<lparr>ia_valid = ATTR_SIZE, ia_mode = 0, ia_size = 5, ia_file = None\<rparr>"
  obtain s' where s': "wrapfs_setattr ?I ram_vfs 16 ?ia name_kst = Some (- EPERM, s')"
    by (simp add: wrapfs_setattr_def setattr_apply_def setattr_lower_ia_def name_defs state_defs link_simps
        ATTR_SIZE_def ATTR_FILE_def ATTR_KILL_SUID_def ATTR_KILL_SGID_def)
  have h: "d_inode (dentries name_kst 16) = Some 17" "inode_change_ok ?I (vfs_inode (inodes name_kst 17)) ?ia = 0"
    "d_fsdata (dentries name_kst 16) = Some 34" "p_dentry (lower_path (dinfos name_kst 34)) = Some 36"
    "ia_valid ?ia AND ATTR_SIZE = 0 \<or> inode_newsize_ok ?I (vfs_inode (inodes name_kst 17)) (ia_size ?ia) = 0"
    by (simp_all add: state_defs ram_inode_def)
  from setattr_forwards [OF ram_vfs_fsstack s' h] s' show ?thesis by (auto simp: ATTR_SIZE_def)
qed

end
