(* ===== verification/Session.thy ===== *)
theory Session
  imports File_Ops Main_Fs Inode
begin

text \<open>
  Sequences of calls that cross the components: histories of page reads and writes on an open file,
  the key ioctl between them, mounting and unmounting around them.
\<close>

section \<open>Histories of an open file\<close>

text \<open>
  What happens to an open file of a mount whose key is set: a page-aligned piece of a write (which
  the VFS makes of \<open>write_begin\<close>, the copy from user space and \<open>write_end\<close>), a page filled by \<open>readpage\<close>,
  and a page handed to \<open>writepage\<close>.
\<close>

datatype io = Wrote int u32 buffer | Got u32 buffer | Synced ptr

inductive session :: "('h, 'c) open_env \<Rightarrow> kst \<Rightarrow> io list \<Rightarrow> kst \<Rightarrow> bool" for e where
  idle: "session e s [] s"
| put: "session e s (Wrote pos len u # h) s'"
  if "0 \<le> pos" "pos < 2 ^ 44" "pos mod int PAGE_CACHE_SIZE = 0" "unat len \<le> PAGE_CACHE_SIZE"
    and "grab_cache_page_write_begin (oe_mm e) (oe_inode e) (page_of pos) flags s = Some (page, pg)"
    and "pg_index pg = page_of pos" "pg_host pg = Some (oe_inode e)"
    and "wrapfs_write_begin (oe_mm e) (oe_file e) (oe_inode e) pos len flags s = Some ((0, Some page), s1)"
    and "s2 = upd_page page (pg_data_update (\<lambda>d. buf_write d (in_page pos) (unat len) u)) s1"
    and "oe_usable e page s2"
    and "wrapfs_write_end (oe_crypto e) (oe_vfs e) (oe_mm e) (oe_file e) (oe_inode e) pos len len page s2 = Some (rc, s3)"
    and "session e s3 h s'"
| get: "session e s (Got idx (pg_data (pages s1 page)) # h) s'"
  if "pg_index (pages s page) = idx" and "oe_usable e page s"
    and "wrapfs_readpage (oe_crypto e) (oe_vfs e) (oe_mm e) (oe_file e) page s = Some (rc, s1)"
    and "session e s1 h s'"
| sync: "session e s (Synced page # h) s'"
  if "wrapfs_writepage (oe_vfs e) (oe_mm e) page reclaim s = Some (rc, s1)" and "session e s1 h s'"

inductive_cases session_cases: "session e s (ev # h) s'"

text \<open>
  The specification: a file is a sequence of bytes with a size.  A write overwrites a range and may
  let the file grow, a read gives the bytes of its page up to the end of the file, \<open>writepage\<close> changes
  nothing.
\<close>

fun conforms :: "buffer \<Rightarrow> int \<Rightarrow> io list \<Rightarrow> buffer \<Rightarrow> int \<Rightarrow> bool" where
  "conforms c n [] c' n' \<longleftrightarrow> c' = c \<and> n' = n"
| "conforms c n (Wrote pos len u # h) c' n' \<longleftrightarrow>
     conforms (buf_write c (nat pos) (unat len) u) (grown len n pos) h c' n'"
| "conforms c n (Got idx d # h) c' n' \<longleftrightarrow>
     (\<forall>j<PAGE_CACHE_SIZE. page_offset idx + int j < n \<longrightarrow> d j = c (nat (page_offset idx) + j)) \<and>
     conforms c n h c' n'"
| "conforms c n (Synced p # h) c' n' \<longleftrightarrow> conforms c n h c' n'"

abbreviation oe_content :: "('h, 'c) open_env \<Rightarrow> kst \<Rightarrow> buffer" where
  "oe_content e s \<equiv> plain (oe_stream e) s (oe_key e) (oe_linode e)"

abbreviation oe_size :: "('h, 'c) open_env \<Rightarrow> kst \<Rightarrow> int" where
  "oe_size e s \<equiv> i_size (l_inodes (low s) (oe_linode e))"

lemma session_write:
  assumes ready: "oe_ready e s" and pos: "0 \<le> pos" "pos < 2 ^ 44" and al: "pos mod int PAGE_CACHE_SIZE = 0"
    and len: "unat len \<le> PAGE_CACHE_SIZE"
    and grab: "grab_cache_page_write_begin (oe_mm e) (oe_inode e) (page_of pos) flags s = Some (page, pg)"
      "pg_index pg = page_of pos" "pg_host pg = Some (oe_inode e)"
    and s1: "wrapfs_write_begin (oe_mm e) (oe_file e) (oe_inode e) pos len flags s = Some ((0, Some page), s1)"
    and s2: "s2 = upd_page page (pg_data_update (\<lambda>d. buf_write d (in_page pos) (unat len) u)) s1"
    and use: "oe_usable e page s2"
    and run: "wrapfs_write_end (oe_crypto e) (oe_vfs e) (oe_mm e) (oe_file e) (oe_inode e) pos len len page s2 = Some (rc, s3)"
  shows "oe_ready e s3 \<and> oe_content e s3 = buf_write (oe_content e s) (nat pos) (unat len) u \<and>
    oe_size e s3 = grown len (oe_size e s) pos"
proof -
  have r: "ctr_cipher (oe_crypto e) (oe_stream e)" "cipher_loaded (oe_crypto e)" "lower_writes (oe_vfs e)"
    "lower_reads (oe_vfs e)" "enc_file s (oe_file e) (oe_key e) (oe_lfile e) (oe_inode e) (oe_linode e)"
    using ready by (simp_all add: oe_ready_def)
  obtain dst where dst: "alloc_page (oe_mm e) s2 = Some dst" "dst \<noteq> page" using use by (auto simp: oe_usable_def)
  have z: "in_page pos + unat len \<le> PAGE_CACHE_SIZE" using al len by simp
  from write_sequence [OF r(1-3,5) pos grab z s1 s2 dst] run al r show ?thesis
    by (auto simp: oe_ready_def buf_write_absorb)
qed

lemma writepage_unlocks:
  "wrapfs_writepage V M page reclaim s = Some (rc, s') \<Longrightarrow> s' = unlock_page page s"
  by (auto simp: wrapfs_writepage_def writepage_lower_def wrapfs_lower_inode_def WRAPFS_I_def
      split: if_splits option.splits)

lemma oe_ready_unlock: "oe_ready e (unlock_page p s) = oe_ready e s" "oe_content e (unlock_page p s) = oe_content e s"
  by (simp_all add: oe_ready_def enc_file_def link_simps plain_def [abs_def])

lemma session_conforming:
  assumes "session e s h s'" and "oe_ready e s"
  shows "conforms (oe_content e s) (oe_size e s) h (oe_content e s') (oe_size e s') \<and> oe_ready e s'"
  using assms
proof (induction rule: session.induct)
  case (put pos len flags s page pg s1 s2 u rc s3 h s')
  from session_write [OF put.prems put.hyps(1-11)] put.IH show ?case by simp
next
  case (get s page idx rc s1 h s')
  from data_path.get_law [OF get.prems get.hyps(2)] get.hyps(1,3) get.IH show ?case by auto
next
  case (sync page reclaim s rc s1 h s')
  from writepage_unlocks [OF sync.hyps(1)] sync.IH sync.prems show ?case by (simp add: oe_ready_unlock)
qed simp

section \<open>The key between the calls\<close>

text \<open>\<open>write_end\<close> without a key stores the copied bytes as they are, at the start of the page.\<close>

lemma write_end_plain_stores:
  assumes V: "lower_writes V" and key: "key_of s fl = Some None" and lf: "wrapfs_lower_file s fl = Some (Some lf)"
    and li: "lower_file_inode (low s) lf = Some li" "f_mode (l_files (low s) lf) AND FMODE_WRITE \<noteq> 0"
      "f_flags (l_files (low s) lf) AND O_APPEND = 0"
    and host: "pg_host (pages s page) = Some h"
  shows "\<exists>s'. wrapfs_write_end C V M fl i pos len copied page s = Some (u32_to_int copied, s') \<and>
     l_bytes (low s') li = buf_write (l_bytes (low s) li) (nat (page_offset (pg_index (pages s page)))) (unat copied)
       (\<lambda>k. pg_data (pages s page) (in_page pos + k))"
proof -
  let ?off = "page_offset (pg_index (pages s page))" and ?d = "\<lambda>k. pg_data (pages s page) (in_page pos + k)"
  let ?from = "word_of_int (pos mod int PAGE_CACHE_SIZE) :: u32"
  obtain l' where w: "vfs_write V lf ?d (unat copied) ?off (low s) = (int (unat copied), ?off + int (unat copied), l')"
     "l_bytes l' = (l_bytes (low s))(li := buf_write (l_bytes (low s) li) (nat ?off) (unat copied) ?d)"
     "lower_frame (low s) l'"
    using lower_writesD [OF V li(1) page_offset_nonneg li(2,3)] by blast
  have li': "lower_file_inode l' lf = Some li"
    using li(1) w(3) by (simp add: lower_file_inode_def lower_frame_def)
  have rc: "0 < uint copied \<or> uint copied = 0" using uint_ge_0 [of copied] by linarith
  obtain s1 where s1: "write_end_store C V i page lf None None ?from copied s = Some (u32_to_int copied, s1)"
    and l: "low s1 = l'" "pages s1 = pages s"
    using w(1) li' rc by (auto simp: write_end_store_def write_end_data_def run_simps unat_in_page)
  obtain s2 where s2: "fill_zeros_to_end_of_page page (?from + copied) s1 = Some (0, s2)"
    using fill_zeros_total host l(2) by metis
  obtain rc s' where s': "write_end_finish i pos copied page None None s2 = Some (rc, s')"
    by (simp add: write_end_finish_def write_end_out_def run_simps)
  have "low s2 = l'" using data_frame_fields(2) fill_zeros_Some [OF s2] l(1) by metis
  with write_end_finish_frame [OF s'] w(2) have "l_bytes (low s') li = buf_write (l_bytes (low s) li) (nat ?off) (unat copied) ?d"
    by simp
  moreover have "wrapfs_write_end C V M fl i pos len copied page s = Some (u32_to_int copied, s')"
    using write_end_plain_eq [where C = C, OF lf key] s1 s2 s' write_end_finish_frame(1) [OF s'] by (simp add: write_end_tail_def)
  ultimately show ?thesis by blast
qed

text \<open>An open file with its lower objects, whatever the key.\<close>

definition open_below :: "kst \<Rightarrow> ptr \<Rightarrow> ptr \<Rightarrow> ptr \<Rightarrow> ptr \<Rightarrow> bool" where
  "open_below s fl lf i li \<longleftrightarrow> wrapfs_lower_file s fl = Some (Some lf) \<and>
     d_inode (dentries s (f_dentry (files s fl))) = Some i \<and>
     lower_inode (inodes s i) = Some li \<and> lower_file_inode (low s) lf = Some li \<and>
     f_mode (l_files (low s) lf) AND FMODE_WRITE \<noteq> 0 \<and> f_flags (l_files (low s) lf) AND O_APPEND = 0"

lemma enc_file_open: "enc_file s fl key lf i li \<longleftrightarrow> key_of s fl = Some (Some key) \<and> open_below s fl lf i li"
  by (auto simp: enc_file_def open_below_def)

lemma ioctl_keeps_open: "ioctl_frame s s' \<Longrightarrow> low s' = low s \<Longrightarrow> open_below s' fl lf i li = open_below s fl lf i li"
  by (simp add: ioctl_frame_def open_below_def link_simps)

text \<open>After a key was set, pages are decrypted with the digest of its string.\<close>

lemma setekey_then_read:
  assumes cipher: "ctr_cipher C ks" "cipher_loaded C" and V: "lower_reads V"
    and key: "key_of s fl = Some (Some key)" and opened: "open_below s fl lf i li"
    and dst: "alloc_page M s = Some dst" "dst \<noteq> page"
    and j: "j < PAGE_CACHE_SIZE" "page_offset (pg_index (pages s page)) + int j < i_size (l_inodes (low s) li)"
  shows "\<exists>s'. wrapfs_readpage C V M fl page s = Some (0, s') \<and> pg_data (pages s' page) j =
    l_bytes (low s) li (nat (page_offset (pg_index (pages s page))) + j) XOR
      ks (bytes_of (bufs s key) MD5_SIGNATURE_SIZE) j"
proof -
  have "enc_file s fl key lf i li" using key opened by (simp add: enc_file_open)
  from readpage_plain [OF cipher V this dst] j show ?thesis
    by (auto simp: plain_def page_byte_mod)
qed

section \<open>The life of an inode\<close>

text \<open>The eviction of an inode drops the lower reference that \<open>wrapfs_iget\<close> took.\<close>

lemma iget_then_evict:
  assumes law: "iget_law L" and run: "wrapfs_iget V L sb li s = Some (Ptr inode, s1)"
    and new: "iget5_locked L sb (i_ino (l_inodes (low s) li)) (wrapfs_inode_test li) s = Some (inode, info)"
      "i_new (vfs_inode info)"
  shows "held (R_inode q) (log (wrapfs_evict_inode inode s1)) = held (R_inode q) (log s)"
    "lower_inode (inodes (wrapfs_evict_inode inode s1) inode) = None"
proof -
  have "held (R_inode q) (log s1) = held (R_inode q) (log s) + (if q = li then 1 else 0)"
    using run
  proof (cases rule: iget_cases)
    case (fresh i inf)
    from iget_init_Some(1) [OF fresh(5)] obtain g where "s1 = upd_iinfo i g (emit (Igrab li)
        (upd_inode i (i_ino_update (\<lambda>_. i_ino (l_inodes (low s) li))) (emit (Iget_up i) (upd_iinfo i (\<lambda>_. inf) s))))" ..
    then show ?thesis by (simp add: held_simps)
  qed (use new in auto)
  with iget_linked [OF law run] show "held (R_inode q) (log (wrapfs_evict_inode inode s1)) = held (R_inode q) (log s)"
    "lower_inode (inodes (wrapfs_evict_inode inode s1) inode) = None"
    by (auto simp: wrapfs_evict_inode_def Let_def link_simps held_simps)
qed

end
