(* ===== verification/Links.thy ===== *)
theory Links
  imports Ioctl File_Ops Inode Main_Fs
begin

text \<open>
  The mounted file system as a state machine: the entry points the VFS calls, in any order, and the
  invariant that ties the upper objects to the lower ones.  Every inode a dentry refers to has a lower
  inode, so none of the functions that follow this link dereferences \<open>NULL\<close>.
\<close>

section \<open>The invariant\<close>

definition wf_links :: "kst \<Rightarrow> bool" where
  "wf_links s \<longleftrightarrow> (\<forall>d i. d_inode (dentries s d) = Some i \<longrightarrow> lower_inode (inodes s i) \<noteq> None)"

text \<open>What most operations do to the links: nothing.\<close>

definition link_frame :: "kst \<Rightarrow> kst \<Rightarrow> bool" where
  "link_frame s s' \<longleftrightarrow> (\<forall>d. d_inode (dentries s' d) = d_inode (dentries s d)) \<and>
     (\<forall>i. lower_inode (inodes s' i) = lower_inode (inodes s i))"

lemma link_frame_wf: "link_frame s s' \<Longrightarrow> wf_links s' = wf_links s"
  by (simp add: link_frame_def wf_links_def)

lemma link_frame_trans: "link_frame s t \<Longrightarrow> link_frame t u \<Longrightarrow> link_frame s u"
  by (simp add: link_frame_def)

text \<open>An inode that \<open>iget5_locked\<close> has just allocated is not yet the inode of a dentry.\<close>

definition iget_fresh :: "lookup_api \<Rightarrow> bool" where
  "iget_fresh L \<longleftrightarrow> (\<forall>sb h t s p info d. iget5_locked L sb h t s = Some (p, info) \<longrightarrow> i_new (vfs_inode info) \<longrightarrow>
     d_inode (dentries s d) \<noteq> Some p)"

lemma iget_wf:
  assumes "iget_law L" "iget_fresh L" and "wrapfs_iget V L sb li s = Some (r, s')" and "wf_links s"
  shows "wf_links s'"
  using assms(3)
proof (cases rule: iget_cases)
  case none
  with assms(4) show ?thesis by (simp add: wf_links_def)
next
  case (cached i info)
  from assms(1) cached have "info = inodes s i" by (force simp: iget_law_def)
  with cached assms(4) show ?thesis by (simp add: wf_links_def)
next
  case (stale i info)
  then have "d_inode (dentries s d) \<noteq> Some i" for d using assms(2) unfolding iget_fresh_def by blast
  with stale assms(4) show ?thesis by (auto simp: wf_links_def)
next
  case (fresh i info)
  from iget_init_Some(1) [OF fresh(5)] obtain g where
    "s' = upd_iinfo i g (emit (Igrab li) (upd_inode i (i_ino_update (\<lambda>_. i_ino (l_inodes (low s) li)))
         (emit (Iget_up i) (upd_iinfo i (\<lambda>_. info) s))))" ..
  with iget_init_Some(2) [OF fresh(5)] assms(4) show ?thesis by (auto simp: wf_links_def)
qed

lemma interpose_wf:
  assumes law: "iget_law L" "iget_fresh L" and "wrapfs_interpose V L dentry sb lp s = Some (r, s')" and wf: "wf_links s"
  shows "wf_links s'"
  using assms(3)
proof (cases rule: interpose_cases)
  case (failed ld li)
  from iget_wf [OF law failed(3) wf] show ?thesis .
next
  case (linked ld li inode s1)
  from iget_wf [OF law linked(4) wf] iget_linked [OF law(1) linked(4)] linked(6) show ?thesis
    by (auto simp: wf_links_def)
qed (use wf in simp)

section \<open>Operations on names\<close>

lemma interpose_new_wf:
  assumes law: "iget_law L" "iget_fresh L" and run: "interpose_new V L dir dentry ldir lp err s = Some (r, s')"
    and wf: "wf_links s"
  shows "wf_links s'"
proof (cases "err = 0")
  case True
  with run obtain e t where i: "wrapfs_interpose V L dentry (i_sb (vfs_inode (inodes s dir))) lp s = Some (e, t)"
    and t: "link_frame t s'"
    by (auto simp: interpose_new_def link_frame_def split: Option.bind_split_asm if_split_asm)
  from interpose_wf [OF law i wf] link_frame_wf [OF t] show ?thesis by simp
qed (use run wf in \<open>simp add: interpose_new_def\<close>)

lemma bracket_wf:
  assumes "bracket I dentry body s = Some (r, s')" and "wf_links s"
    and "\<And>ld ldir lp t t'. body ld ldir lp t = Some (r, t') \<Longrightarrow> wf_links t \<Longrightarrow> wf_links t'"
  shows "wf_links s'"
  using assms(1)
proof (cases rule: bracket_cases)
  case (refused info lp ld dir i)
  with assms(2) show ?thesis by (simp add: wf_links_def)
next
  case (run info lp ld dir i t j)
  have "wf_links t" using assms(3) [OF run(7)] assms(2) by (simp add: wf_links_def)
  with run(9) show ?thesis by (simp add: wf_links_def)
qed

lemma lower_op_wf [simp]: "wf_links (lower_op name l s) = wf_links s"
  by (simp add: wf_links_def)

lemma new_body_wf:
  assumes "iget_law L" "iget_fresh L" and "new_body name V L op dir dentry ld ldir lp s = Some (r, s')" and "wf_links s"
  shows "wf_links s'"
  using assms by (auto simp: new_body_def intro: interpose_new_wf split: prod.split_asm)

lemma create_body_wf:
  assumes "iget_law L" "iget_fresh L" and "create_body I V L dir dentry mode nd ld ldir lp s = Some (r, s')" and "wf_links s"
  shows "wf_links s'"
  using assms by (auto simp: create_body_def intro: interpose_new_wf split: prod.split_asm Option.bind_split_asm)

lemma mkdir_body_wf:
  assumes "iget_law L" "iget_fresh L" and "mkdir_body I V L dir dentry mode ld ldir lp s = Some (r, s')" and "wf_links s"
  shows "wf_links s'"
proof -
  from assms(3) obtain e t where t: "new_body ''vfs_mkdir'' V L (\<lambda>i d. vfs_mkdir I i d mode) dir dentry ld ldir lp s = Some (e, t)"
    and f: "link_frame t s'"
    by (auto simp: mkdir_body_def link_frame_def split: Option.bind_split_asm if_split_asm)
  from new_body_wf [OF assms(1,2) t assms(4)] link_frame_wf [OF f] show ?thesis by simp
qed

lemma rmdir_body_frame: "rmdir_body I V dir dentry ld ldir lp s = Some (r, s') \<Longrightarrow> link_frame s s'"
  by (auto simp: rmdir_body_def Let_def link_frame_def split: prod.split_asm Option.bind_split_asm if_split_asm option.split_asm)

lemma link_wf:
  assumes law: "iget_law L" "iget_fresh L" and "wrapfs_link I V L old dir new s = Some (r, s')" and wf: "wf_links s"
  shows "wf_links s'"
  using assms(3)
proof (cases rule: link_cases)
  case (refused oinfo ninfo olp nlp ld ldir i oi)
  with wf show ?thesis by (simp add: wf_links_def)
next
  case (run oinfo ninfo olp nlp lod ld ldir i oi e l t j)
  let ?u = "lower_op ''vfs_link'' l (emit (Mnt_want_write (p_mnt nlp)) (s\<lparr>log := log s @ [Spin_lock oinfo, Path_get olp,
    Spin_unlock oinfo, Spin_lock ninfo, Path_get nlp, Spin_unlock ninfo, Dget ldir, Mutex_lock i]\<rparr>))"
  have u: "wf_links ?u" using wf by (simp add: wf_links_def)
  have "wf_links t"
  proof (cases "e \<noteq> 0 \<or> lower_d_inode ?u ld = None")
    case True
    with run(11) u show ?thesis by (auto simp: link_new_def)
  next
    case False
    with run(11) obtain e' t' where i: "wrapfs_interpose V L new (i_sb (vfs_inode (inodes ?u dir))) nlp ?u = Some (e', t')"
      and f: "link_frame t' t"
      by (auto simp: link_new_def Let_def link_frame_def split: Option.bind_split_asm if_split_asm)
    from interpose_wf [OF law i u] link_frame_wf [OF f] show ?thesis by simp
  qed
  with run(14,15) show ?thesis by (simp add: wf_links_def)
qed

lemma unlink_frame:
  assumes "wrapfs_unlink I V dir dentry s = Some (r, s')"
  shows "link_frame s s'"
  using assms
proof (cases rule: unlink_cases)
  case (refused info lp ld ldir i)
  then show ?thesis by (simp add: link_frame_def)
next
  case (run info lp ld ldir i e l t j)
  then show ?thesis
    by (auto simp: link_frame_def unlink_done_def Let_def split: Option.bind_split_asm if_split_asm)
qed

lemma rename_frame: "wrapfs_rename I V od old nd new s = Some (r, s') \<Longrightarrow> link_frame s s'"
  by (auto simp: wrapfs_rename_def Let_def get_lower_path_Some rename_out_err_def rename_out_drop_old_def rename_out_def
      rename_done_def wrapfs_put_lower_path_def link_frame_def split: Option.bind_split_asm if_split_asm prod.split_asm)

lemma readlink_frame: "wrapfs_readlink I V dentry n s = Some (r, s') \<Longrightarrow> link_frame s s'"
  by (auto simp: wrapfs_readlink_def Let_def get_lower_path_Some wrapfs_put_lower_path_def link_frame_def
      split: Option.bind_split_asm if_split_asm prod.split_asm)

lemma setattr_frame: "wrapfs_setattr I V dentry ia s = Some (r, s') \<Longrightarrow> link_frame s s'"
  by (auto simp: wrapfs_setattr_def setattr_apply_def Let_def get_lower_path_Some wrapfs_put_lower_path_def link_frame_def
      split: Option.bind_split_asm if_split_asm prod.split_asm)

lemma name_run_wf:
  assumes law: "iget_law L" "iget_fresh L" and run: "name_run I V L op s = Some (r, s')" and wf: "wf_links s"
  shows "wf_links s'"
proof (cases op)
  case (Create dir dentry mode nd)
  with run obtain nd' where "wrapfs_create I V L dir dentry mode nd s = Some ((r, nd'), s')" by auto
  from bracket_wf [OF create_bracket [OF this] wf create_body_wf [OF law]] show ?thesis .
next
  case (Rmdir dir dentry)
  with run have "bracket I dentry (rmdir_body I V dir dentry) s = Some (r, s')" by (simp add: rmdir_bracket)
  from bracket_wf [OF this wf] rmdir_body_frame link_frame_wf show ?thesis by blast
next
  case (Readlink dentry n)
  with run wf show ?thesis by (auto dest!: readlink_frame link_frame_wf)
qed (use run wf in \<open>auto simp: symlink_bracket mknod_bracket mkdir_bracket
      dest: link_wf [OF law] unlink_frame [THEN link_frame_wf] rename_frame [THEN link_frame_wf]
        setattr_frame [THEN link_frame_wf] bracket_wf [OF _ _ new_body_wf [OF law]] bracket_wf [OF _ _ mkdir_body_wf [OF law]]\<close>)

section \<open>Lookup, files and pages\<close>

lemma set_lower_path_wf: "wrapfs_set_lower_path d lp s = Some s' \<Longrightarrow> wf_links s' = wf_links s"
  by (auto simp: set_lower_path_Some wf_links_def)

lemma put_reset_wf: "wrapfs_put_reset_lower_path d s = Some s' \<Longrightarrow> wf_links s' = wf_links s"
  by (auto simp: put_reset_lower_path_Some wf_links_def)

lemma wf_links_updates [simp]:
  "wf_links (log_update g' s) = wf_links s" "wf_links (low_update f s) = wf_links s"
  "wf_links (upd_dentry d (d_op_update g) s) = wf_links s"
  by (auto simp: wf_links_def)

lemma setup_lower_wf: "lookup_setup_lower d flags ld mnt err s = Some (r, s') \<Longrightarrow> wf_links s' = wf_links s"
  by (auto simp: lookup_setup_lower_def Let_def dest!: set_lower_path_wf split: Option.bind_split_asm)

lemma lookup_lower_wf:
  assumes law: "iget_law L" "iget_fresh L" and run: "wrapfs_lookup_lower V L d flags pp s = Some (r, s')" and wf: "wf_links s"
  shows "wf_links s'"
  using run wf
  by (auto simp: wrapfs_lookup_lower_def Let_def
      dest!: set_lower_path_wf put_reset_wf setup_lower_wf dest: interpose_wf [OF law]
      split: Option.bind_split_asm if_split_asm prod.split_asm option.split_asm)

lemma new_private_data_wf:
  assumes "new_dentry_private_data L d s = Some (e, s')"
  shows "wf_links s' = wf_links s"
  using assms by (intro link_frame_wf)
    (auto simp: new_dentry_private_data_def Let_def link_frame_def split: Option.bind_split_asm option.split_asm)

lemma lookup_wf:
  assumes law: "iget_law L" "iget_fresh L" and run: "wrapfs_lookup V L d nd s = Some (r, s')" and wf: "wf_links s"
  shows "wf_links s'"
proof -
  have g: "wf_links t' = wf_links t" if "wrapfs_get_lower_path p t = Some (lp, t')" for p lp t t'
    using that by (auto simp: get_lower_path_Some)
  have a: "wf_links t' = wf_links t" if "lookup_attrs V d p t = Some t'" for p t t'
    using lookup_attrs_keeps [OF that] by (simp add: wf_links_def)
  note l = lookup_lower_wf [OF law, where V = V and d = d]
  from run wf show ?thesis
    by (auto simp: wrapfs_lookup_def Let_def wrapfs_put_lower_path_def dest!: new_private_data_wf g a l
        split: Option.bind_split_asm if_split_asm)
qed

lemma d_release_frame: "wrapfs_d_release d s = Some s' \<Longrightarrow> link_frame s s'"
  by (auto simp: d_release_Some link_frame_def)

lemma open_frame: "wrapfs_open V F inode fl s = Some (r, s') \<Longrightarrow> link_frame s s'"
  by (auto simp: wrapfs_open_def get_lower_path_Some Let_def link_frame_def link_simps
      split: Option.bind_split_asm if_split_asm prod.split_asm option.split_asm eptr.split_asm)

lemma release_frame: "wrapfs_file_release fl s = Some (r, s') \<Longrightarrow> link_frame s s'"
  by (auto simp: wrapfs_file_release_def Let_def link_frame_def link_simps
      split: Option.bind_split_asm option.split_asm)

lemma ioctl_link_frame:
  assumes "wrapfs_unlocked_ioctl C M U fl cmd arg s = Some (r, s')"
  shows "link_frame s s'"
proof (cases "cmd = WRAPFS_SETEKEY")
  case True
  with assms ioctl_key_outcome have "ioctl_frame s s'" by blast
  then show ?thesis by (simp add: link_frame_def ioctl_frame_def)
next
  case False
  with assms show ?thesis
    by (auto simp: wrapfs_unlocked_ioctl_def Let_def link_frame_def
        split: Option.bind_split_asm option.split_asm if_split_asm prod.split_asm)
qed

lemma read_frame: "wrapfs_read V fl n pos s = Some (r, s') \<Longrightarrow> link_frame s s'"
  by (auto simp: wrapfs_read_def Let_def link_frame_def split: Option.bind_split_asm if_split_asm prod.split_asm)

lemma write_frame: "wrapfs_write V fl b n pos s = Some (r, s') \<Longrightarrow> link_frame s s'"
  by (auto simp: wrapfs_write_def Let_def link_frame_def split: Option.bind_split_asm if_split_asm prod.split_asm)

lemma readdir_frame: "wrapfs_readdir V F fl s = Some (r, s') \<Longrightarrow> link_frame s s'"
  by (auto simp: wrapfs_readdir_def Let_def link_frame_def split: Option.bind_split_asm if_split_asm prod.split_asm)

lemma write_begin_frame: "wrapfs_write_begin M fl i pos len flags s = Some (r, s') \<Longrightarrow> link_frame s s'"
  by (auto simp: wrapfs_write_begin_def Let_def link_frame_def split: Option.bind_split_asm if_split_asm option.split_asm)

lemma readpage_out_frame: "readpage_out e p d s = Some (r, s') \<Longrightarrow> link_frame s s'"
  by (cases d) (auto simp: readpage_out_def Let_def link_frame_def split: if_split_asm)

lemma readpage_frame:
  assumes "wrapfs_readpage C V M fl page s = Some (r, s')"
  shows "link_frame s s'"
proof -
  have d: "inodes t' = inodes t \<and> dentries t' = dentries t" if "wrapfs_decrypt_page_new C p q k t = (e, t')" for p q k t e t'
    using decrypt_page_frame [OF that] by (auto dest: data_frame_fields)
  from assms show ?thesis
    by (auto simp: wrapfs_readpage_def Let_def link_frame_def dest!: readpage_out_frame d
        dest: readpage_fill_frame(4,7) split: Option.bind_split_asm if_split_asm prod.split_asm option.split_asm)
qed

lemma write_end_tail_frame:
  assumes "write_end_tail C V lf i pos n page k dst s = Some (r, s')"
  shows "link_frame s s'"
proof -
  obtain e s1 s2 where a: "write_end_store C V i page lf k dst (word_of_int (pos mod int PAGE_CACHE_SIZE)) n s = Some (e, s1)"
    "fill_zeros_to_end_of_page page (word_of_int (pos mod int PAGE_CACHE_SIZE) + n) s1 = Some (0, s2)"
    "write_end_finish i pos n page k dst s2 = Some (r, s')"
    using write_end_tailE [OF assms] .
  have "data_frame page s1 s2" using fill_zeros_Some [OF a(2)] by simp
  from write_end_store_frame(7,10) [OF a(1)] data_frame_fields(3,6) [OF this] write_end_finish_frame(11,13) [OF a(3)]
  show ?thesis by (simp add: link_frame_def)
qed

lemma write_end_cases:
  assumes "wrapfs_write_end C V M fl i pos len n page s = Some (r, s')"
  obtains (no_file) "s' = s"
    | (plain) lf where "write_end_tail C V lf i pos n page None None s = Some (r, s')"
    | (enc) lf k dst where
      "write_end_tail C V lf i pos n page (Some k) (Some dst) (emit (Kmap dst) (emit (Alloc_page dst) s)) = Some (r, s')"
proof -
  from assms obtain lfo where lf: "wrapfs_lower_file s fl = Some lfo"
    by (auto simp: wrapfs_write_end_def Let_def split: Option.bind_split_asm)
  show thesis
  proof (cases lfo)
    case None
    with assms lf no_file show thesis by (simp add: wrapfs_write_end_def)
  next
    case (Some l)
    with assms lf obtain ko where key: "key_of s fl = Some ko"
      by (auto simp: wrapfs_write_end_def Let_def split: Option.bind_split_asm)
    show thesis
    proof (cases ko)
      case None
      with assms lf Some key write_end_plain_eq [where C = C and s = s and fl = fl] plain show thesis by auto
    next
      case k: (Some k)
      with assms lf Some key obtain dst where dst: "alloc_page M s = Some dst"
        by (cases "alloc_page M s") (auto simp: wrapfs_write_end_def write_end_out_def Let_def)
      with assms lf Some key k write_end_enc_eq [where C = C and s = s and fl = fl, OF _ dst] enc show thesis by auto
    qed
  qed
qed

lemma write_end_frame:
  assumes "wrapfs_write_end C V M fl i pos len n page s = Some (r, s')"
  shows "link_frame s s'"
  using assms by (cases rule: write_end_cases) (auto dest!: write_end_tail_frame simp: link_frame_def)

lemma mmap_frame: "wrapfs_mmap F fl vma s = Some (r, s') \<Longrightarrow> link_frame s s'"
  by (auto simp: wrapfs_mmap_def mmap_install_def Let_def link_frame_def
      split: Option.bind_split_asm if_split_asm prod.split_asm)

section \<open>Mounting\<close>

text \<open>\<open>d_alloc_root\<close> makes a dentry of the given inode.\<close>

definition root_law :: "main_api \<Rightarrow> bool" where
  "root_law P \<longleftrightarrow> (\<forall>i s root dent. d_alloc_root P i s = Some (root, dent) \<longrightarrow> d_inode dent = Some i)"

lemma wf_links_sb [simp]: "wf_links (sbs_update f s) = wf_links s" "wf_links (sb_infos_update g s) = wf_links s"
  by (simp_all add: wf_links_def)

lemma out_sput_wf: "read_super_out_sput e sb lsb lp s = Some (r, s') \<Longrightarrow> wf_links s' = wf_links s"
  by (auto simp: read_super_out_sput_def read_super_out_free_def Let_def split: Option.bind_split_asm)

lemma read_super_root_wf:
  assumes law: "iget_law L" "iget_fresh L" "root_law P" and run: "read_super_root V L P sb lsb ld lp s = Some (r, s')"
    and wf: "wf_links s"
  shows "wf_links s'"
proof -
  from run obtain li i u where u: "wrapfs_iget V L sb li s = Some (i, u)" and li: "lower_d_inode s ld = Some li"
    by (auto simp: read_super_root_def split: Option.bind_split_asm)
  from iget_wf [OF law(1,2) u wf] have wu: "wf_links u" .
  show ?thesis
  proof (cases i)
    case (ErrPtr e)
    with run u li wu show ?thesis by (auto simp: read_super_root_def dest!: out_sput_wf)
  next
    case (Ptr inode)
    show ?thesis
    proof (cases "d_alloc_root P inode u")
      case None
      with Ptr run u li wu show ?thesis by (auto simp: read_super_root_def read_super_out_iput_def dest!: out_sput_wf)
    next
      case (Some a)
      obtain root dent where a: "a = (root, dent)" by fastforce
      let ?w = "upd_dentry root (d_fsdata_update (\<lambda>_. None)) (upd_dentry root (d_op_update (\<lambda>_. Some wrapfs_dops))
        (upd_sb sb (s_root_update (\<lambda>_. Some root)) (upd_dentry root (\<lambda>_. dent) u)))"
      have "d_inode dent = Some inode" using law(3) Some a by (auto simp: root_law_def)
      with wu iget_linked [OF law(1)] u Ptr have w: "wf_links ?w" by (auto simp: wf_links_def)
      have un: "wf_links (upd_dentry root (d_unhashed_update f) t) = wf_links t" for f t
        by (intro link_frame_wf) (simp add: link_frame_def)
      from run u li Ptr Some a obtain e t where t: "new_dentry_private_data L root ?w = Some (e, t)"
        and rest: "(if e \<noteq> 0 then read_super_out_freeroot e root inode sb lsb lp t
           else Option.bind (wrapfs_set_lower_path root lp t)
             (\<lambda>s. Some (0, upd_dentry root (d_unhashed_update (\<lambda>_. False)) s))) = Some (r, s')"
        by (auto simp: read_super_root_def Let_def comp_def split: Option.bind_split_asm)
      from w new_private_data_wf [OF t] rest show ?thesis
        by (auto simp: read_super_out_freeroot_def read_super_out_iput_def un
            dest!: set_lower_path_wf out_sput_wf d_release_frame [THEN link_frame_wf]
            split: Option.bind_split_asm if_split_asm)
    qed
  qed
qed

lemma read_super_wf:
  assumes "iget_law L" "iget_fresh L" "root_law P" and "wrapfs_read_super V L P sb raw s = Some (r, s')" and "wf_links s"
  shows "wf_links s'"
proof -
  note root = read_super_root_wf [OF assms(1-3), where V = V]
  from assms(4,5) show ?thesis
    by (auto simp: wrapfs_read_super_def read_super_out_free_def wrapfs_set_lower_super_def Let_def dest!: root
        split: option.split_asm Option.bind_split_asm if_split_asm prod.split_asm)
qed

lemma put_super_frame: "wrapfs_put_super sb s = Some s' \<Longrightarrow> link_frame s s'"
  by (auto simp: wrapfs_put_super_def link_frame_def link_simps Let_def split: option.split_asm Option.bind_split_asm)

text \<open>
  The two functions of the kernel that write back the pages of a file call \<open>writepage\<close> for the dirty
  ones and wait; they neither instantiate a dentry nor touch the private data of an inode.
\<close>

definition sync_law :: "file_api \<Rightarrow> bool" where
  "sync_law F \<longleftrightarrow> (\<forall>i s. link_frame s (snd (filemap_write_and_wait F i s))) \<and>
     (\<forall>fl a b c s. link_frame s (snd (generic_file_fsync F fl a b c s)))"

lemma link_frame_skip [simp]: "link_frame s (log_update g t) = link_frame s t" "link_frame s (low_update f t) = link_frame s t"
  "link_frame s s"
  by (simp_all add: link_frame_def)

lemma flush_frame:
  assumes law: "sync_law F" and run: "wrapfs_flush F fl s = Some (r, s')"
  shows "link_frame s s'"
proof -
  define p where "p = (if f_mode (files s fl) AND FMODE_WRITE \<noteq> 0
    then filemap_write_and_wait F (f_mapping (files s fl)) s else (0, s))"
  have "link_frame s (snd p)" using law by (simp add: sync_law_def p_def)
  then show ?thesis using run unfolding wrapfs_flush_def p_def [symmetric]
    by (auto simp: Let_def split: Option.bind_split_asm option.split_asm if_split_asm prod.split_asm)
qed

lemma fsync_frame:
  assumes law: "sync_law F" and run: "wrapfs_fsync F fl a b c s = Some (r, s')"
  shows "link_frame s s'"
proof -
  obtain e t where t: "generic_file_fsync F fl a b c s = (e, t)" by fastforce
  with law have "link_frame s t" by (metis sync_law_def snd_conv)
  then show ?thesis using run t
    by (auto simp: wrapfs_fsync_def Let_def get_lower_path_Some wrapfs_put_lower_path_def
        split: Option.bind_split_asm if_split_asm prod.split_asm)
qed

lemma fasync_frame: "wrapfs_fasync F fd fl b s = Some (r, s') \<Longrightarrow> link_frame s s'"
  by (auto simp: wrapfs_fasync_def Let_def split: Option.bind_split_asm if_split_asm prod.split_asm)

lemma fault_frame: "wrapfs_fault h vma vmf s = Some (r, s') \<Longrightarrow> link_frame s s'"
  by (auto simp: wrapfs_fault_def Let_def split: Option.bind_split_asm prod.split_asm)

lemma revalidate_frame: "wrapfs_d_revalidate D d nd s = Some (r, s') \<Longrightarrow> link_frame s s'"
  by (auto simp: wrapfs_d_revalidate_def Let_def get_lower_path_Some wrapfs_put_lower_path_def
      split: Option.bind_split_asm if_split_asm option.split_asm prod.split_asm)

lemma statfs_frame: "wrapfs_statfs A d s = Some (r, s') \<Longrightarrow> link_frame s s'"
  by (auto simp: wrapfs_statfs_def Let_def get_lower_path_Some wrapfs_put_lower_path_def
      split: Option.bind_split_asm prod.split_asm)

lemma umount_begin_frame: "wrapfs_umount_begin A sb s = Some s' \<Longrightarrow> link_frame s s'"
  by (auto simp: wrapfs_umount_begin_def Let_def split: Option.bind_split_asm option.split_asm if_split_asm)

lemma writepage_frame: "wrapfs_writepage V M page rec s = Some (r, s') \<Longrightarrow> link_frame s s'"
  by (auto simp: wrapfs_writepage_def writepage_lower_def wrapfs_lower_inode_def WRAPFS_I_def link_frame_def
      split: option.split_asm if_split_asm)

section \<open>The state machine\<close>

text \<open>
  Every call the VFS may make on a mounted file system whose effect on the upper objects is in the
  sources: on names and attributes, lookup, revalidation and release of dentries, files, pages and the
  ioctl, synchronisation, and the eviction of an inode that no dentry refers to.  The methods of the
  lower file system that only some rules need are arbitrary.  The calls that set a key, mount and
  unmount are kept apart: the others are the use of a mounted file system.
\<close>

inductive use_step ::
  "inode_api \<Rightarrow> vfs_api \<Rightarrow> lookup_api \<Rightarrow> file_api \<Rightarrow> mm_api \<Rightarrow> ('h, 'c) crypto_api \<Rightarrow> user_api \<Rightarrow> kst \<Rightarrow> kst \<Rightarrow> bool"
  for I V L F M C U where
  "name_run I V L op s = Some (r, s') \<Longrightarrow> use_step I V L F M C U s s'"
| "wrapfs_follow_link I V M d nd s = Some (nd', s') \<Longrightarrow> use_step I V L F M C U s s'"
| "use_step I V L F M C U s (wrapfs_put_link d nd s)"
| "wrapfs_lookup V L d flags s = Some (r, s') \<Longrightarrow> use_step I V L F M C U s s'"
| "wrapfs_d_release d s = Some s' \<Longrightarrow> use_step I V L F M C U s s'"
| "wrapfs_open V F i fl s = Some (r, s') \<Longrightarrow> use_step I V L F M C U s s'"
| "wrapfs_file_release fl s = Some (r, s') \<Longrightarrow> use_step I V L F M C U s s'"
| "wrapfs_read V fl n pos s = Some (x, s') \<Longrightarrow> use_step I V L F M C U s s'"
| "wrapfs_write V fl b n pos s = Some (y, s') \<Longrightarrow> use_step I V L F M C U s s'"
| "wrapfs_readdir V F fl s = Some (r, s') \<Longrightarrow> use_step I V L F M C U s s'"
| "wrapfs_mmap F fl vma s = Some (z, s') \<Longrightarrow> use_step I V L F M C U s s'"
| "cmd \<noteq> WRAPFS_SETEKEY \<Longrightarrow> wrapfs_unlocked_ioctl C M U fl cmd arg s = Some (r, s') \<Longrightarrow> use_step I V L F M C U s s'"
| "wrapfs_readpage C V M fl page s = Some (r, s') \<Longrightarrow> use_step I V L F M C U s s'"
| "wrapfs_write_begin M fl i pos len flags s = Some (w, s') \<Longrightarrow> use_step I V L F M C U s s'"
| "use_step I V L F M C U s (upd_page page (pg_data_update f) s)" \<comment> \<open>the copy from user space\<close>
| "wrapfs_write_end C V M fl i pos len n page s = Some (r, s') \<Longrightarrow> use_step I V L F M C U s s'"
| "\<forall>d. d_inode (dentries s d) \<noteq> Some i \<Longrightarrow> use_step I V L F M C U s (wrapfs_evict_inode i s)"
| "wrapfs_writepage V M page rec s = Some (r, s') \<Longrightarrow> use_step I V L F M C U s s'"
| "wrapfs_fault h vma vmf s = Some (r, s') \<Longrightarrow> use_step I V L F M C U s s'"
| "wrapfs_flush F fl s = Some (r, s') \<Longrightarrow> use_step I V L F M C U s s'"
| "wrapfs_fsync F fl a b c s = Some (r, s') \<Longrightarrow> use_step I V L F M C U s s'"
| "wrapfs_fasync F fd fl c s = Some (r, s') \<Longrightarrow> use_step I V L F M C U s s'"
| "wrapfs_d_revalidate D d ndo s = Some (v, s') \<Longrightarrow> use_step I V L F M C U s s'"
| "wrapfs_statfs A d s = Some (q, s') \<Longrightarrow> use_step I V L F M C U s s'"
| "wrapfs_umount_begin A sb s = Some s' \<Longrightarrow> use_step I V L F M C U s s'"

inductive fs_step ::
  "inode_api \<Rightarrow> vfs_api \<Rightarrow> lookup_api \<Rightarrow> file_api \<Rightarrow> mm_api \<Rightarrow> ('h, 'c) crypto_api \<Rightarrow> user_api \<Rightarrow> main_api \<Rightarrow> kst \<Rightarrow> kst \<Rightarrow> bool"
  for I V L F M C U P where
  use: "use_step I V L F M C U s s' \<Longrightarrow> fs_step I V L F M C U P s s'"
| key: "wrapfs_unlocked_ioctl C M U fl WRAPFS_SETEKEY arg s = Some (r, s') \<Longrightarrow> fs_step I V L F M C U P s s'"
| mount: "wrapfs_read_super V L P sb dev s = Some (r, s') \<Longrightarrow> fs_step I V L F M C U P s s'"
| unmount: "wrapfs_put_super sb s = Some s' \<Longrightarrow> fs_step I V L F M C U P s s'"

abbreviation fs_steps where
  "fs_steps I V L F M C U P \<equiv> (fs_step I V L F M C U P)\<^sup>*\<^sup>*"

lemma follow_link_frame: "wrapfs_follow_link I V M d nd s = Some (nd', s') \<Longrightarrow> link_frame s s'"
  by (auto simp: wrapfs_follow_link_def Let_def link_frame_def dest!: readlink_frame
      split: Option.bind_split_asm if_split_asm option.split_asm)

lemmas entry_frames = follow_link_frame d_release_frame open_frame release_frame read_frame write_frame readdir_frame
  mmap_frame ioctl_link_frame readpage_frame write_begin_frame write_end_frame put_super_frame
  writepage_frame fault_frame fasync_frame revalidate_frame statfs_frame umount_begin_frame

lemma use_step_wf:
  assumes "use_step I V L F M C U s s'" and law: "iget_law L" "iget_fresh L" "sync_law F" and wf: "wf_links s"
  shows "wf_links s'"
  using assms(1)
proof cases
  case (1 op r)
  from name_run_wf [OF law(1,2) 1 wf] show ?thesis .
next
  case (3 d nd)
  then show ?thesis using wf by (auto simp: wrapfs_put_link_def split: option.split eptr.split)
next
  case (4 d flags r)
  from lookup_wf [OF law(1,2) 4 wf] show ?thesis .
next
  case (15 page f)
  then show ?thesis using wf by (simp add: wf_links_def)
next
  case (17 i)
  then show ?thesis using wf by (auto simp: wf_links_def wrapfs_evict_inode_def Let_def link_simps)
qed (use wf in \<open>auto dest: entry_frames [THEN link_frame_wf] flush_frame [OF law(3), THEN link_frame_wf]
    fsync_frame [OF law(3), THEN link_frame_wf]\<close>)

lemma fs_step_wf:
  assumes "fs_step I V L F M C U P s s'" and law: "iget_law L" "iget_fresh L" "root_law P" "sync_law F" and wf: "wf_links s"
  shows "wf_links s'"
  using assms(1)
proof cases
  case use
  from use_step_wf [OF use law(1,2,4) wf] show ?thesis .
next
  case (mount sb dev r)
  from read_super_wf [OF law(1-3) mount wf] show ?thesis .
qed (use wf in \<open>auto dest: entry_frames [THEN link_frame_wf]\<close>)

lemma fs_steps_wf:
  assumes "fs_steps I V L F M C U P s s'" and "iget_law L" "iget_fresh L" "root_law P" "sync_law F" and "wf_links s"
  shows "wf_links s'"
  using assms(1,6) by (induction rule: rtranclp_induct) (auto intro: fs_step_wf [OF _ assms(2-5)])

section \<open>Properties\<close>

text \<open>C3: in every state the mounted file system can reach, by any sequence of calls with any results, the
  inode of every dentry has a lower inode, provided that it was so at the start.  So on the inode of a
  dentry \<open>wrapfs_permission\<close> always returns, with the answer of the lower file system, and
  \<open>wrapfs_evict_inode\<close> always has a lower inode to release.\<close>

theorem links_invariant:
  assumes "iget_law L" "iget_fresh L" "root_law P" "sync_law F"
    and "(fs_step I V L F M C U P)\<^sup>*\<^sup>* s s'" and "wf_links s"
  shows "wf_links s' \<and> (\<forall>d i. d_inode (dentries s' d) = Some i \<longrightarrow>
    (\<exists>li. wrapfs_permission I i want s' = Some (inode_permission I li want (low s')) \<and>
      held (R_inode li) (log (wrapfs_evict_inode i s')) = held (R_inode li) (log s') - 1))"
proof -
  have wf: "wf_links s'" using fs_steps_wf [OF assms(5,1-4,6)] .
  have "\<exists>li. wrapfs_permission I i want s' = Some (inode_permission I li want (low s')) \<and>
      held (R_inode li) (log (wrapfs_evict_inode i s')) = held (R_inode li) (log s') - 1"
    if d: "d_inode (dentries s' d) = Some i" for d i
  proof -
    from wf d obtain li where "lower_inode (inodes s' i) = Some li" unfolding wf_links_def by blast
    then show ?thesis
      by (intro exI [of _ li]) (simp add: wrapfs_permission_def wrapfs_evict_inode_def Let_def link_simps held_simps)
  qed
  with wf show ?thesis by blast
qed

text \<open>A cache that hands out inode 42 as long as no dentry refers to it.\<close>

definition once_lookup :: lookup_api where
  "once_lookup = ram_lookup\<lparr>iget5_locked := (\<lambda>_ _ _ s. if \<exists>d. d_inode (dentries s d) = Some 42 then None
     else Some (42, \<lparr>ii_lower_file = None, lower_inode = None, vfs_inode = blank_inode\<lparr>i_new := True\<rparr>\<rparr>))\<rparr>"

lemma once_lookup_laws: "iget_law once_lookup" "iget_fresh once_lookup"
  by (auto simp: iget_law_def iget_fresh_def once_lookup_def)

lemma name_kst_inodes: "d_inode (dentries name_kst d) = (if d = 3 then Some 1 else if d = 16 then Some 17 else None)"
  by (simp add: state_defs)

lemma name_kst_wf: "wf_links name_kst"
  by (auto simp: wf_links_def name_kst_inodes) (simp_all add: state_defs)

lemma once_create_run:
  "\<exists>s'. name_run ram_inode ram_vfs once_lookup (Create 1 8 0 (Some nd0)) name_kst = Some (0, s') \<and> d_inode (dentries s' 8) = Some 42"
  by (simp add: wrapfs_create_def name_defs once_lookup_def state_defs link_simps cong: if_cong)

theorem links_invariant_witness:
  "\<exists>s' li. (fs_step ram_inode ram_vfs once_lookup ram_file ram_mm xor_crypto (demo_user []) ram_main)\<^sup>*\<^sup>* name_kst s' \<and>
     d_inode (dentries s' 8) = Some 42 \<and> wrapfs_permission ram_inode 42 4 s' = Some (inode_permission ram_inode li 4 (low s'))"
proof -
  obtain s' where s': "name_run ram_inode ram_vfs once_lookup (Create 1 8 0 (Some nd0)) name_kst = Some (0, s')"
    "d_inode (dentries s' 8) = Some 42" using once_create_run by blast
  have r: "root_law ram_main" by (auto simp: root_law_def ram_main_def)
  have y: "sync_law ram_file" by (simp add: sync_law_def ram_file_def)
  have st: "(fs_step ram_inode ram_vfs once_lookup ram_file ram_mm xor_crypto (demo_user []) ram_main)\<^sup>*\<^sup>* name_kst s'"
    using fs_step.use [OF use_step.intros(1) [OF s'(1)]] by (rule r_into_rtranclp)
  from links_invariant [OF once_lookup_laws r y st name_kst_wf, of 4] s'(2) st show ?thesis by blast
qed

end
