(* ===== verification/Keys.thy ===== *)
theory Keys
  imports Links
begin

text \<open>
  What may change a key: of all entry points of the mounted file system only the ioctl, mounting and
  unmounting touch a super block or its private data.  So a mount whose key is not set stays without
  one, and keeps refusing page input and output, through every sequence of other calls.
\<close>

section \<open>The super blocks through the entry points\<close>

definition key_frame :: "kst \<Rightarrow> kst \<Rightarrow> bool" where
  "key_frame s s' \<longleftrightarrow> sbs s' = sbs s \<and> sb_infos s' = sb_infos s"

lemma key_frame_trans: "key_frame s t \<Longrightarrow> key_frame t u \<Longrightarrow> key_frame s u"
  by (simp add: key_frame_def)

lemma key_frame_key: "key_frame s s' \<Longrightarrow> wrapfs_get_enc_key s' sb = wrapfs_get_enc_key s sb"
  by (simp add: key_frame_def link_simps)

lemma key_frame_skip [simp]:
  "key_frame s s" "key_frame s (log_update f t) = key_frame s t" "key_frame s (low_update g t) = key_frame s t"
  "key_frame s (inodes_update h t) = key_frame s t" "key_frame s (dentries_update k t) = key_frame s t"
  "key_frame s (dinfos_update l t) = key_frame s t" "key_frame s (pages_update m t) = key_frame s t"
  "key_frame s (bufs_update n t) = key_frame s t"
  by (simp_all add: key_frame_def)

lemma key_frame_skip_left [simp]:
  "key_frame (log_update f s) t = key_frame s t" "key_frame (low_update g s) t = key_frame s t"
  "key_frame (inodes_update h s) t = key_frame s t" "key_frame (dentries_update k s) t = key_frame s t"
  "key_frame (dinfos_update l s) t = key_frame s t"
  by (simp_all add: key_frame_def)

lemma iget_key: "wrapfs_iget V L sb li s = Some (r, s') \<Longrightarrow> key_frame s s'"
  using iget_keeps by (force simp: iget_frame_def key_frame_def)

lemma interpose_key:
  assumes "wrapfs_interpose V L dentry sb lp s = Some (r, s')"
  shows "key_frame s s'"
  using assms by (cases rule: interpose_cases) (auto dest: iget_key)

lemma interpose_new_key: "interpose_new V L dir dentry ldir lp err s = Some (r, s') \<Longrightarrow> key_frame s s'"
  by (auto simp: interpose_new_def dest!: interpose_key split: Option.bind_split_asm if_split_asm)

lemma bracket_key:
  assumes "bracket I dentry body s = Some (r, s')"
    and "\<And>ld ldir lp t t'. body ld ldir lp t = Some (r, t') \<Longrightarrow> key_frame t t'"
  shows "key_frame s s'"
  using assms(1)
proof (cases rule: bracket_cases)
  case (run info lp ld dir i t j)
  with assms(2) [OF run(7)] show ?thesis by simp
qed simp

lemma new_body_key: "new_body name V L op dir dentry ld ldir lp s = Some (r, s') \<Longrightarrow> key_frame s s'"
  by (auto simp: new_body_def dest!: interpose_new_key split: prod.split_asm)

lemma create_body_key: "create_body I V L dir dentry mode nd ld ldir lp s = Some (r, s') \<Longrightarrow> key_frame s s'"
  by (auto simp: create_body_def dest!: interpose_new_key split: prod.split_asm Option.bind_split_asm)

lemma mkdir_body_key: "mkdir_body I V L dir dentry mode ld ldir lp s = Some (r, s') \<Longrightarrow> key_frame s s'"
  by (auto simp: mkdir_body_def dest!: new_body_key split: Option.bind_split_asm if_split_asm)

lemma rmdir_body_key: "rmdir_body I V dir dentry ld ldir lp s = Some (r, s') \<Longrightarrow> key_frame s s'"
  by (auto simp: rmdir_body_def Let_def split: prod.split_asm Option.bind_split_asm if_split_asm option.split_asm)

lemma link_new_key: "link_new V L old dir new nlp ldir ld e s = Some (r, s') \<Longrightarrow> key_frame s s'"
  by (auto simp: link_new_def Let_def dest!: interpose_key split: Option.bind_split_asm if_split_asm)

lemma lock_parent_key: "lock_parent d s = Some (p, s') \<Longrightarrow> key_frame s s'"
  by (auto simp: lock_parent_def Let_def split: Option.bind_split_asm)

lemma unlock_dir_key: "unlock_dir d s = Some s' \<Longrightarrow> key_frame s s'"
  by (auto simp: unlock_dir_def Let_def split: Option.bind_split_asm)

lemma link_out_unlock_key: "link_out_unlock old new ldir olp nlp e s = Some (r, s') \<Longrightarrow> key_frame s s'"
  by (auto simp: link_out_unlock_def Let_def wrapfs_put_lower_path_def dest!: unlock_dir_key split: Option.bind_split_asm)

lemma link_key: "wrapfs_link I V L old dir new s = Some (r, s') \<Longrightarrow> key_frame s s'"
  by (auto simp: wrapfs_link_def Let_def get_lower_path_Some wrapfs_put_lower_path_def link_out_def key_frame_def
      dest!: link_new_key lock_parent_key link_out_unlock_key
      split: Option.bind_split_asm if_split_asm prod.split_asm)

lemma unlink_done_key: "unlink_done V dir dentry ldi s = Some s' \<Longrightarrow> key_frame s s'"
  by (auto simp: unlink_done_def Let_def split: Option.bind_split_asm)

lemma unlink_out_unlock_key: "unlink_out_unlock dentry ld ldir lp e s = Some (r, s') \<Longrightarrow> key_frame s s'"
  by (auto simp: unlink_out_unlock_def Let_def wrapfs_put_lower_path_def dest!: unlock_dir_key split: Option.bind_split_asm)

lemma unlink_key: "wrapfs_unlink I V dir dentry s = Some (r, s') \<Longrightarrow> key_frame s s'"
  by (auto simp: wrapfs_unlink_def Let_def get_lower_path_Some wrapfs_put_lower_path_def unlink_out_def key_frame_def
      dest!: unlink_done_key lock_parent_key unlink_out_unlock_key
      split: Option.bind_split_asm if_split_asm prod.split_asm)

lemma rename_key: "wrapfs_rename I V od old nd new s = Some (r, s') \<Longrightarrow> key_frame s s'"
  by (auto simp: wrapfs_rename_def Let_def get_lower_path_Some rename_out_err_def rename_out_drop_old_def rename_out_def
      rename_done_def wrapfs_put_lower_path_def split: Option.bind_split_asm if_split_asm prod.split_asm)

lemma readlink_key: "wrapfs_readlink I V dentry n s = Some (r, s') \<Longrightarrow> key_frame s s'"
  by (auto simp: wrapfs_readlink_def Let_def get_lower_path_Some wrapfs_put_lower_path_def
      split: Option.bind_split_asm if_split_asm prod.split_asm)

lemma setattr_key: "wrapfs_setattr I V dentry ia s = Some (r, s') \<Longrightarrow> key_frame s s'"
  by (auto simp: wrapfs_setattr_def setattr_apply_def Let_def get_lower_path_Some wrapfs_put_lower_path_def
      split: Option.bind_split_asm if_split_asm prod.split_asm)

lemma name_run_key:
  assumes run: "name_run I V L op s = Some (r, s')"
  shows "key_frame s s'"
proof (cases op)
  case (Create dir dentry mode nd)
  with run obtain nd' where "wrapfs_create I V L dir dentry mode nd s = Some ((r, nd'), s')" by auto
  from bracket_key [OF create_bracket [OF this] create_body_key] show ?thesis .
next
  case (Rmdir dir dentry)
  with run have "bracket I dentry (rmdir_body I V dir dentry) s = Some (r, s')" by (simp add: rmdir_bracket)
  from bracket_key [OF this rmdir_body_key] show ?thesis .
next
  case (Readlink dentry n)
  with run show ?thesis by (auto dest!: readlink_key)
qed (use run in \<open>auto simp: symlink_bracket mknod_bracket mkdir_bracket
      dest: link_key unlink_key rename_key setattr_key bracket_key [OF _ new_body_key] bracket_key [OF _ mkdir_body_key]\<close>)

section \<open>Lookup, files and pages\<close>

lemma set_lower_path_key: "wrapfs_set_lower_path d lp s = Some s' \<Longrightarrow> key_frame s s'"
  by (auto simp: set_lower_path_Some)

lemma put_reset_key: "wrapfs_put_reset_lower_path d s = Some s' \<Longrightarrow> key_frame s s'"
  by (auto simp: put_reset_lower_path_Some)

lemma setup_lower_key: "lookup_setup_lower d flags ld mnt err s = Some (r, s') \<Longrightarrow> key_frame s s'"
  by (auto simp: lookup_setup_lower_def Let_def dest!: set_lower_path_key split: Option.bind_split_asm)

lemma lookup_lower_key: "wrapfs_lookup_lower V L d flags pp s = Some (r, s') \<Longrightarrow> key_frame s s'"
  by (auto simp: wrapfs_lookup_lower_def Let_def
      dest!: set_lower_path_key put_reset_key setup_lower_key interpose_key intro: key_frame_trans
      split: Option.bind_split_asm if_split_asm prod.split_asm option.split_asm)

lemma new_private_data_key: "new_dentry_private_data L d s = Some (e, s') \<Longrightarrow> key_frame s s'"
  by (auto simp: new_dentry_private_data_def Let_def split: Option.bind_split_asm option.split_asm)

lemma lookup_attrs_key: "lookup_attrs V d p s = Some s' \<Longrightarrow> key_frame s s'"
  by (auto simp: lookup_attrs_def split: Option.bind_split_asm option.split_asm)

lemma lookup_key: "wrapfs_lookup V L d nd s = Some (r, s') \<Longrightarrow> key_frame s s'"
  by (auto simp: wrapfs_lookup_def Let_def get_lower_path_Some wrapfs_put_lower_path_def key_frame_def
      dest!: new_private_data_key lookup_attrs_key lookup_lower_key
      split: Option.bind_split_asm if_split_asm)

lemma d_release_key: "wrapfs_d_release d s = Some s' \<Longrightarrow> key_frame s s'"
  by (auto simp: d_release_Some)

lemma open_key: "wrapfs_open V F inode fl s = Some (r, s') \<Longrightarrow> key_frame s s'"
  by (auto simp: wrapfs_open_def get_lower_path_Some Let_def key_frame_def link_simps
      split: Option.bind_split_asm if_split_asm prod.split_asm option.split_asm eptr.split_asm)

lemma release_key: "wrapfs_file_release fl s = Some (r, s') \<Longrightarrow> key_frame s s'"
  by (auto simp: wrapfs_file_release_def Let_def key_frame_def link_simps
      split: Option.bind_split_asm option.split_asm)

lemma ioctl_key:
  assumes "cmd \<noteq> WRAPFS_SETEKEY" and "wrapfs_unlocked_ioctl C M U fl cmd arg s = Some (r, s')"
  shows "key_frame s s'"
  using assms
  by (auto simp: wrapfs_unlocked_ioctl_def Let_def split: Option.bind_split_asm option.split_asm if_split_asm prod.split_asm)

lemma read_key: "wrapfs_read V fl n pos s = Some (r, s') \<Longrightarrow> key_frame s s'"
  by (auto simp: wrapfs_read_def Let_def split: Option.bind_split_asm if_split_asm prod.split_asm)

lemma write_key: "wrapfs_write V fl b n pos s = Some (r, s') \<Longrightarrow> key_frame s s'"
  by (auto simp: wrapfs_write_def Let_def split: Option.bind_split_asm if_split_asm prod.split_asm)

lemma readdir_key: "wrapfs_readdir V F fl s = Some (r, s') \<Longrightarrow> key_frame s s'"
  by (auto simp: wrapfs_readdir_def Let_def key_frame_def split: Option.bind_split_asm if_split_asm prod.split_asm)

lemma mmap_key: "wrapfs_mmap F fl vma s = Some (r, s') \<Longrightarrow> key_frame s s'"
  by (auto simp: wrapfs_mmap_def mmap_install_def Let_def key_frame_def
      split: Option.bind_split_asm if_split_asm prod.split_asm)

lemma write_begin_key: "wrapfs_write_begin M fl i pos len flags s = Some (r, s') \<Longrightarrow> key_frame s s'"
  by (auto simp: wrapfs_write_begin_def Let_def split: Option.bind_split_asm if_split_asm option.split_asm)

lemma readpage_out_key: "readpage_out e p d s = Some (r, s') \<Longrightarrow> key_frame s s'"
  by (cases d) (auto simp: readpage_out_def Let_def split: if_split_asm)

lemma readpage_key:
  assumes "wrapfs_readpage C V M fl page s = Some (r, s')"
  shows "key_frame s s'"
proof -
  have d: "key_frame t t'" if "wrapfs_decrypt_page_new C p q k t = (e, t')" for p q k t e t'
    using decrypt_page_frame [OF that] data_frame_fields(8,9) by (auto simp: key_frame_def)
  have f: "key_frame t t'" if "readpage_fill V lf p q t = (e, t')" for lf p q t e t'
    using readpage_fill_frame(8,9) [OF that] by (simp add: key_frame_def)
  from assms show ?thesis
    by (auto simp: wrapfs_readpage_def Let_def key_frame_def dest!: readpage_out_key d f
        split: Option.bind_split_asm if_split_asm prod.split_asm option.split_asm)
qed

lemma write_end_tail_key:
  assumes "write_end_tail C V lf i pos n page k dst s = Some (r, s')"
  shows "key_frame s s'"
proof -
  obtain e s1 s2 where a: "write_end_store C V i page lf k dst (word_of_int (pos mod int PAGE_CACHE_SIZE)) n s = Some (e, s1)"
    "fill_zeros_to_end_of_page page (word_of_int (pos mod int PAGE_CACHE_SIZE) + n) s1 = Some (0, s2)"
    "write_end_finish i pos n page k dst s2 = Some (r, s')"
    using write_end_tailE [OF assms] .
  have "data_frame page s1 s2" using fill_zeros_Some [OF a(2)] by simp
  from write_end_store_frame(3,4) [OF a(1)] data_frame_fields(8,9) [OF this] write_end_finish_frame(7,8) [OF a(3)]
  show ?thesis by (simp add: key_frame_def)
qed

lemma write_end_key:
  assumes "wrapfs_write_end C V M fl i pos len n page s = Some (r, s')"
  shows "key_frame s s'"
  using assms by (cases rule: write_end_cases) (auto dest!: write_end_tail_key)

lemma writepage_key: "wrapfs_writepage V M page rec s = Some (r, s') \<Longrightarrow> key_frame s s'"
  by (auto simp: wrapfs_writepage_def writepage_lower_def wrapfs_lower_inode_def WRAPFS_I_def
      split: option.split_asm if_split_asm)

lemma follow_link_key: "wrapfs_follow_link I V M d nd s = Some (nd', s') \<Longrightarrow> key_frame s s'"
  by (auto simp: wrapfs_follow_link_def Let_def key_frame_def dest!: readlink_key
      split: Option.bind_split_asm if_split_asm option.split_asm)

lemma fasync_key: "wrapfs_fasync F fd fl b s = Some (r, s') \<Longrightarrow> key_frame s s'"
  by (auto simp: wrapfs_fasync_def Let_def split: Option.bind_split_asm if_split_asm prod.split_asm)

lemma fault_key: "wrapfs_fault h vma vmf s = Some (r, s') \<Longrightarrow> key_frame s s'"
  by (auto simp: wrapfs_fault_def Let_def split: Option.bind_split_asm prod.split_asm)

lemma revalidate_key: "wrapfs_d_revalidate D d nd s = Some (r, s') \<Longrightarrow> key_frame s s'"
  by (auto simp: wrapfs_d_revalidate_def Let_def get_lower_path_Some wrapfs_put_lower_path_def
      split: Option.bind_split_asm if_split_asm option.split_asm prod.split_asm)

lemma statfs_key: "wrapfs_statfs A d s = Some (r, s') \<Longrightarrow> key_frame s s'"
  by (auto simp: wrapfs_statfs_def Let_def get_lower_path_Some wrapfs_put_lower_path_def
      split: Option.bind_split_asm prod.split_asm)

lemma umount_begin_key: "wrapfs_umount_begin A sb s = Some s' \<Longrightarrow> key_frame s s'"
  by (auto simp: wrapfs_umount_begin_def Let_def split: Option.bind_split_asm option.split_asm if_split_asm)

text \<open>The two functions of the kernel that write back the pages of a file do not touch super blocks either.\<close>

definition sync_keeps_keys :: "file_api \<Rightarrow> bool" where
  "sync_keeps_keys F \<longleftrightarrow> (\<forall>i s. key_frame s (snd (filemap_write_and_wait F i s))) \<and>
     (\<forall>fl a b c s. key_frame s (snd (generic_file_fsync F fl a b c s)))"

lemma flush_key:
  assumes law: "sync_keeps_keys F" and run: "wrapfs_flush F fl s = Some (r, s')"
  shows "key_frame s s'"
proof -
  define p where "p = (if f_mode (files s fl) AND FMODE_WRITE \<noteq> 0
    then filemap_write_and_wait F (f_mapping (files s fl)) s else (0, s))"
  have "key_frame s (snd p)" using law by (simp add: sync_keeps_keys_def p_def)
  then show ?thesis using run unfolding wrapfs_flush_def p_def [symmetric]
    by (auto simp: Let_def split: Option.bind_split_asm option.split_asm if_split_asm prod.split_asm)
qed

lemma fsync_key:
  assumes law: "sync_keeps_keys F" and run: "wrapfs_fsync F fl a b c s = Some (r, s')"
  shows "key_frame s s'"
proof -
  obtain e t where t: "generic_file_fsync F fl a b c s = (e, t)" by fastforce
  with law have "key_frame s t" by (metis sync_keeps_keys_def snd_conv)
  then show ?thesis using run t
    by (auto simp: wrapfs_fsync_def Let_def get_lower_path_Some wrapfs_put_lower_path_def
        split: Option.bind_split_asm if_split_asm prod.split_asm)
qed

section \<open>Using the file system\<close>

lemmas entry_keys = name_run_key follow_link_key lookup_key d_release_key open_key release_key read_key write_key readdir_key
  mmap_key ioctl_key readpage_key write_begin_key write_end_key writepage_key fault_key fasync_key revalidate_key
  statfs_key umount_begin_key

lemma use_step_key:
  assumes "use_step I V L F M C U s s'" and law: "sync_keeps_keys F"
  shows "key_frame s s'"
  using assms(1)
proof cases
  case (3 d nd)
  then show ?thesis by (auto simp: wrapfs_put_link_def split: option.split eptr.split)
next
  case (17 i)
  then show ?thesis by (simp add: wrapfs_evict_inode_def Let_def link_simps)
qed (auto dest: entry_keys flush_key [OF law] fsync_key [OF law])

lemma use_steps_key:
  assumes "(use_step I V L F M C U)\<^sup>*\<^sup>* s s'" and "sync_keeps_keys F"
  shows "key_frame s s'"
  using assms(1) by (induction rule: rtranclp_induct) (auto intro: key_frame_trans use_step_key [OF _ assms(2)])

end
