(* ===== verification/User.thy ===== *)
theory User
  imports Ioctl
begin

text \<open>
  \<^verbatim>\<open>user.c\<close>: the program with which a user sets the key of a mount, composed with the ioctl handler that
  it ends up in.  The process passes a structure in its own memory, so the view the kernel has of that
  memory is part of the model.
\<close>

section \<open>Parameters\<close>

text \<open>
  \<open>malloc\<close> gives a user address, \<open>sys_open\<close> a descriptor with the open file behind it, or -1;
  \<open>sys_ioctl\<close> is the system call as the C library presents it.
\<close>

record os_api =
  malloc :: "nat \<Rightarrow> kst \<Rightarrow> u32 option"
  sys_open :: "byte list \<Rightarrow> kst \<Rightarrow> int \<times> ptr \<times> kst"
  sys_ioctl :: "user_api \<Rightarrow> ptr \<Rightarrow> u32 \<Rightarrow> u32 \<Rightarrow> kst \<Rightarrow> int run"

datatype printed = Usage | The_key "byte list" | Bad_file | The_fd int | Ret int

section \<open>The program\<close>

text \<open>What the kernel sees of a process that has stored \<open>cell\<close> at \<open>addr\<close> and whose key argument is \<open>str\<close>.\<close>

definition process_memory :: "user_api \<Rightarrow> u32 \<Rightarrow> wrapfs_ioctl_key \<Rightarrow> byte list \<Rightarrow> user_api" where
  "process_memory U addr cell str = U
     \<lparr>copy_key_struct := (\<lambda>a s. if a = addr then Some cell else copy_key_struct U a s),
      getname := (\<lambda>a s. if a = ik_key cell
        then (case getname U a s of ErrPtr e \<Rightarrow> ErrPtr e | Ptr (p, _) \<Rightarrow> Ptr (p, c_string str))
        else getname U a s)\<rparr>"

text \<open>The arguments are pairs of an address and the string there.\<close>

definition user_main :: "os_api \<Rightarrow> user_api \<Rightarrow> (u32 \<times> byte list) list \<Rightarrow> kst \<Rightarrow> (int \<times> printed list) run" where
  "user_main Os U argv s =
     (case argv of
        [_, (_, fname), (kaddr, key)] \<Rightarrow> do {
          let len = u32_to_int (to_u32 (int (length key)));
          key_struc \<leftarrow> malloc Os sizeof_wrapfs_ioctl_key s;
          let cell = \<lparr>ik_len = len, ik_key = kaddr\<rparr>;
          let (fd, fl, s) = sys_open Os fname s;
          if fd < 0 then Some ((- 1, [The_key key, Bad_file]), s)
          else do {
            (ret, s) \<leftarrow> sys_ioctl Os (process_memory U key_struc cell key) fl WRAPFS_SETEKEY key_struc s;
            Some ((0, [The_key key, The_fd fd, Ret ret]), s)
          }
        }
      | _ \<Rightarrow> Some ((- 1, [Usage]), s))"

section \<open>Hypotheses\<close>

text \<open>
  The system call dispatches to the method of a file of the mounted file system; the C library turns
  an error number into -1.
\<close>

definition dispatches :: "os_api \<Rightarrow> ('h, 'c) crypto_api \<Rightarrow> mm_api \<Rightarrow> bool" where
  "dispatches Os C M \<longleftrightarrow> (\<forall>U fl cmd arg s. f_op (files s fl) \<in> Some ` {wrapfs_main_fops, wrapfs_mmap_fops, wrapfs_dir_fops} \<longrightarrow>
     sys_ioctl Os U fl cmd arg s =
       map_option (\<lambda>(r, s). (if r < 0 then - 1 else r, s)) (wrapfs_unlocked_ioctl C M U fl cmd arg s))"

text \<open>The process may read its own memory, and its key argument passes the length check of \<open>getname\<close>.\<close>

definition readable :: "user_api \<Rightarrow> u32 \<Rightarrow> bool" where
  "readable U kaddr \<longleftrightarrow> (\<forall>a n s. access_ok U a n s) \<and> (\<forall>s. \<exists>p name. getname U kaddr s = Ptr (p, name))"

section \<open>Lemmas\<close>

lemma c_string_bytes: "length key < 2 ^ 31 \<Longrightarrow> bytes_of (c_string key) (unat (to_u32 (int (length key)))) = key"
proof -
  assume "length key < 2 ^ 31"
  then have "unat (to_u32 (int (length key))) = length key"
    by (simp add: to_u32_def unat_of_nat take_bit_nat_eq_self)
  then show ?thesis by (auto simp: bytes_of_def intro: nth_equalityI)
qed

lemma process_request:
  assumes "readable U kaddr"
  shows "key_request (process_memory U a \<lparr>ik_len = len, ik_key = kaddr\<rparr> key) a len (c_string key)"
proof -
  have "\<exists>p. (case getname U kaddr s of ErrPtr e \<Rightarrow> ErrPtr e | Ptr (p, _) \<Rightarrow> Ptr (p, c_string key)) = Ptr (p, c_string key)" for s
    using assms by (auto simp: readable_def split: eptr.split) (metis eptr.distinct(1) eptr.inject(1) prod.exhaust)
  then show ?thesis using assms by (simp add: key_request_def process_memory_def readable_def)
qed

lemma strcmp_zero: "0 \<notin> set key \<Longrightarrow> strcmp_eq (c_string key) [48] \<longleftrightarrow> key = [48]"
  by (cases key; cases "tl key") (auto simp: strcmp_eq_def)

lemma user_main_open:
  assumes "malloc Os sizeof_wrapfs_ioctl_key s = Some a" and "sys_open Os fname s = (fd, fl, t)" and "0 \<le> fd"
    and "dispatches Os C M" and "f_op (files t fl) \<in> Some ` {wrapfs_main_fops, wrapfs_mmap_fops, wrapfs_dir_fops}"
    and "length key < 2 ^ 31"
  shows "user_main Os U [p, (f, fname), (kaddr, key)] s =
    map_option (\<lambda>(r, s'). ((0, [The_key key, The_fd fd, Ret (if r < 0 then - 1 else r)]), s'))
      (wrapfs_unlocked_ioctl C M (process_memory U a \<lparr>ik_len = int (length key), ik_key = kaddr\<rparr> key) fl WRAPFS_SETEKEY a t)"
proof -
  have "u32_to_int (to_u32 (int (length key))) = int (length key)" using assms(6) by (simp add: u32_to_int_to_u32)
  then show ?thesis
    using assms(1-5)
    by (cases "wrapfs_unlocked_ioctl C M (process_memory U a \<lparr>ik_len = int (length key), ik_key = kaddr\<rparr> key) fl WRAPFS_SETEKEY a t")
      (auto simp: user_main_def dispatches_def)
qed

section \<open>Properties\<close>

text \<open>C14: the program sets the key it was given.  Run on a file of a mount, with memory and the digest
  available, it prints the result 0 and exits with 0, and the key of the mount is then the MD5 digest of
  its whole second argument; with the argument "0" the mount has no key.\<close>

theorem user_sets_key:
  assumes os: "dispatches Os C M" "malloc Os sizeof_wrapfs_ioctl_key s = Some a" "sys_open Os fname s = (fd, fl, t)" "0 \<le> fd"
    and fl: "f_op (files t fl) \<in> Some ` {wrapfs_main_fops, wrapfs_mmap_fops, wrapfs_dir_fops}"
      "s_fs_info (sbs t (file_sb t fl)) = Some p"
    and kernel: "md5_service C md5" "memory_available M" "alloc_fresh M" "readable U kaddr"
    and key: "0 \<notin> set key" "length key < 2 ^ 31"
  shows "\<exists>s'. user_main Os U [prog, (f, fname), (kaddr, key)] s = Some ((0, [The_key key, The_fd fd, Ret 0]), s') \<and>
    (if key = [48] then wrapfs_get_enc_key s' (file_sb s' fl) = Some None
     else (\<exists>k. wrapfs_get_enc_key s' (file_sb s' fl) = Some (Some k) \<and>
       bytes_of (bufs s' k) MD5_SIGNATURE_SIZE = bytes_of (md5 key) MD5_SIGNATURE_SIZE))"
proof -
  let ?U = "process_memory U a \<lparr>ik_len = int (length key), ik_key = kaddr\<rparr> key"
  note run = user_main_open [OF os(2-4,1) fl(1) key(2), of U prog f kaddr]
  note req = process_request [OF kernel(4), of a "int (length key)" key]
  show ?thesis
  proof (cases "key = [48]")
    case True
    then have "strcmp_eq (c_string key) [48]" using strcmp_zero [OF key(1)] by simp
    from setekey_clears [where C = C, OF kernel(2) req this fl(2)] run True show ?thesis by auto
  next
    case False
    then have "\<not> strcmp_eq (c_string key) [48]" using strcmp_zero [OF key(1)] by simp
    from setekey_installs [OF kernel(1-3) req this fl(2)] run False c_string_bytes [OF key(2)] show ?thesis by auto
  qed
qed

definition demo_os :: os_api where
  "demo_os = \<lparr>malloc = (\<lambda>_ _. Some 640), sys_open = (\<lambda>_ s. (3, 2, upd_file 2 (f_op_update (\<lambda>_. Some wrapfs_mmap_fops)) s)),
     sys_ioctl = (\<lambda>U fl cmd arg s. map_option (\<lambda>(r, s). (if r < 0 then - 1 else r, s))
       (wrapfs_unlocked_ioctl xor_crypto ram_mm U fl cmd arg s))\<rparr>"

theorem user_sets_key_witness:
  "\<exists>s' k. user_main demo_os (demo_user []) [(0, [117]), (1, [47]), (2, [3, 4])] keyless_kst
       = Some ((0, [The_key [3, 4], The_fd 3, Ret 0]), s') \<and> wrapfs_get_enc_key s' (file_sb s' 2) = Some (Some k) \<and> bufs s' k 1 = 8"
proof -
  have h: "dispatches demo_os xor_crypto ram_mm" "malloc demo_os sizeof_wrapfs_ioctl_key keyless_kst = Some 640"
    "sys_open demo_os [47] keyless_kst = (3, 2, upd_file 2 (f_op_update (\<lambda>_. Some wrapfs_mmap_fops)) keyless_kst)"
    "readable (demo_user []) 2"
    by (auto simp: dispatches_def demo_os_def readable_def demo_user_def)
  show ?thesis
    using user_sets_key [OF h(1-3) _ _ _ xor_crypto_md5 ram_mm_available ram_mm_fresh h(4), of 5 "[3, 4]" "(0, [117])" 1]
    by (auto simp: keyless_kst_def state_defs bytes_of_eq_iff bytes_of_def sum_digest_def MD5_SIGNATURE_SIZE_def upt_rec)
qed

text \<open>C39: an empty key crashes the kernel: \<open>getname\<close> rejects an empty string as it rejects every empty path,
  and the handler hands the error pointer it returns to \<open>strcmp\<close>.  Nothing in the program prevents it.\<close>

theorem user_empty_key_oops:
  assumes "dispatches Os C M" "malloc Os sizeof_wrapfs_ioctl_key s = Some a" "sys_open Os fname s = (fd, fl, t)" "0 \<le> fd"
    and "f_op (files t fl) \<in> Some ` {wrapfs_main_fops, wrapfs_mmap_fops, wrapfs_dir_fops}"
    and mem: "memory_available M" and user: "\<forall>u. access_ok U a sizeof_wrapfs_ioctl_key u" "\<forall>u. getname U kaddr u = ErrPtr (- ENOENT)"
  shows "user_main Os U [prog, (f, fname), (kaddr, [])] s = None"
proof -
  let ?U = "process_memory U a \<lparr>ik_len = 0, ik_key = kaddr\<rparr> []"
  have km: "(kmalloc M n u = None) = False" for n u using mem by (simp add: memory_available_def)
  obtain k1 where k1: "kmalloc M (MD5_SIGNATURE_SIZE + 1) t = Some k1"
    using km [of "MD5_SIGNATURE_SIZE + 1" t] by blast
  have "wrapfs_unlocked_ioctl C M ?U fl WRAPFS_SETEKEY a t = None"
    using user by (auto simp: km ioctl_setekey_start [OF k1] ioctl_setekey_def process_memory_def Let_def bind_eq_None_conv
        split: option.split)
  with user_main_open [OF assms(2-4,1,5), of "[]" U prog f kaddr] show ?thesis by simp
qed

theorem user_empty_key_oops_witness:
  "user_main demo_os ((demo_user [])\<lparr>getname := \<lambda>_ _. ErrPtr (- ENOENT)\<rparr>) [(0, [117]), (1, [47]), (2, [])] keyless_kst = None"
proof (rule user_empty_key_oops [where C = xor_crypto and M = ram_mm and a = 640 and fd = 3 and fl = 2
      and t = "upd_file 2 (f_op_update (\<lambda>_. Some wrapfs_mmap_fops)) keyless_kst"])
  show "dispatches demo_os xor_crypto ram_mm" by (simp add: dispatches_def demo_os_def)
qed (simp_all add: demo_os_def ram_mm_available demo_user_def)

end
