(* ===== verification/Spec2Isabelle.thy ===== *)
theory Spec2Isabelle
  imports Session Keys User
begin

text \<open>
  A verification of wrapfs with page encryption, a stackable file system for Linux: a kernel module that
  is mounted on a directory of another ("lower") file system, passes every operation on to it, and, with
  the mount option \<open>mmap\<close>, keeps the data of the lower files encrypted under a key that a user program
  sets with an ioctl.

  \<^bold>\<open>The program.\<close>  The module registers a file system type (\<^verbatim>\<open>src/main.c\<close>).  Mounting fills a super block
  that refers to the lower one and makes a root dentry; \<^verbatim>\<open>src/super.c\<close> undoes this and owns the inode cache.
  Names are found by \<^verbatim>\<open>src/lookup.c\<close>, which gives every upper dentry the lower path and every upper
  inode the lower inode it stands for (interposition), revalidated and released by \<^verbatim>\<open>src/dentry.c\<close>, and
  created, removed and renamed by \<^verbatim>\<open>src/inode.c\<close>.  An open file (\<^verbatim>\<open>src/file.c\<close>) has a lower file; without
  \<open>mmap\<close> its data is passed on as it is, with \<open>mmap\<close> the page cache calls \<^verbatim>\<open>src/mmap.c\<close>, which reads, writes,
  encrypts and decrypts pages with \<^verbatim>\<open>src/crypto.c\<close> under the key of the super block.  The key is the MD5
  digest (\<^verbatim>\<open>src/md5.c\<close>) of a string that \<^verbatim>\<open>src/user.c\<close> passes to the ioctl of \<^verbatim>\<open>src/file.c\<close>.  The links between
  upper and lower objects are the inline functions of \<^verbatim>\<open>src/wrapfs.h\<close>.

  \<^bold>\<open>The theories.\<close>  A C function \<open>f\<close> is a definition \<open>f\<close> of the same name (\<open>__wrapfs_lookup\<close> is
  \<open>wrapfs_lookup_lower\<close>, \<open>main\<close> of \<^verbatim>\<open>user.c\<close> is \<open>user_main\<close>).  The code behind a label of a function is a
  definition named after function and label (\<open>readpage_out\<close>, \<open>read_super_out_sput\<close>, \<open>rename_out_err\<close>), a long
  body is cut into definitions named after the function (\<open>iget_init\<close>, \<open>setekey_store\<close>, \<open>link_new\<close>).
  \<^item> \<open>Prelude\<close>: integer and pointer types, error numbers, error pointers, buffers, lemma collections.
  \<^item> \<open>Kernel\<close>: the structures as records, the heaps and the state \<open>kst\<close>, the lower state \<open>lower_st\<close>, the log
    of reference counts, locks and allocations, and \<open>held\<close>, which computes from it what is still held.
  \<^item> \<open>Wrapfs_H\<close>: \<^verbatim>\<open>src/wrapfs.h\<close>.  The locale \<open>link_cell\<close> states the laws of a link and its setter; it is
    interpreted on the lower file, the lower super block, the lower inode and the key.
  \<^item> \<open>Crypto\<close>: \<^verbatim>\<open>src/crypto.c\<close> and \<^verbatim>\<open>src/md5.c\<close>.  The locales \<open>page_transform\<close> and \<open>cipher_pair\<close> state what a
    pair of page operations must do to be inverse to each other; the two functions are its interpretation.
  \<^item> \<open>Lower_Api\<close>: the parameters of the data path and \<^verbatim>\<open>src/read_write.c\<close>.
  \<^item> \<open>Mmap\<close>: \<^verbatim>\<open>src/mmap.c\<close>.  The locale \<open>page_store\<close> is the contract of an encrypted file: what writing and
    reading a page do to its plaintext.  It is interpreted on \<open>write_begin\<close>, \<open>write_end\<close> and \<open>readpage\<close>.
  \<^item> \<open>Ioctl\<close> and \<open>File_Ops\<close>: \<^verbatim>\<open>src/file.c\<close>, with \<^verbatim>\<open>src/wrapfs_ioctl.h\<close>.
  \<^item> \<open>Super\<close>, \<open>Lookup\<close>, \<open>Dentry\<close>, \<open>Main_Fs\<close>: \<^verbatim>\<open>src/super.c\<close>, \<^verbatim>\<open>src/lookup.c\<close>, \<^verbatim>\<open>src/dentry.c\<close>, \<^verbatim>\<open>src/main.c\<close>.
  \<^item> \<open>Inode\<close>: \<^verbatim>\<open>src/inode.c\<close>.  Create, symlink, mkdir, rmdir and mknod are one bracket of taking and giving
    back around different bodies; the locale \<open>dir_body\<close> is the contract of a body and is interpreted on each.
  \<^item> \<open>Session\<close>: histories of calls on an open file and sequences across components.
  \<^item> \<open>Links\<close>: all entry points as a step relation, the use of a mounted file system (\<open>use_step\<close>) apart from
    setting a key, mounting and unmounting, with the invariant of the links.
  \<^item> \<open>Keys\<close>: using the file system changes no super block and so no key.
  \<^item> \<open>User\<close>: \<^verbatim>\<open>src/user.c\<close> on top of the ioctl.
  \<^item> this theory: the properties that need several of them.

  \<^bold>\<open>How the code is modelled.\<close>  A function takes the state and returns its result with the new state.
  \<^const>\<open>None\<close> is a kernel oops: a dereference of \<open>NULL\<close> or of an error pointer, \<open>BUG_ON\<close>, or a store behind a
  buffer, which C leaves undefined.  Errors are the negative numbers the code returns; error pointers are the type \<open>eptr\<close>.  Unsigned
  32-bit quantities are words, so that wrap-around and the conversion between signed and unsigned results
  are as in C; \<open>loff_t\<close> positions are integers.  The kernel is that of \<^verbatim>\<open>src/hw2.config\<close>: a pointer and
  an \<open>unsigned long\<close> have 32 bits, and with high memory \<open>kunmap\<close> inspects its page.  The sources are read with
  \<open>WRAPFS_CRYPTO\<close> defined, as \<^verbatim>\<open>src/wrapfs.h\<close> does.  Every loop (the hexadecimal digest, the mount options) is
  structural recursion over a finite list, so all definitions are total and none needs fuel.

  \<^bold>\<open>Parameters.\<close>  Kernel functions and lower file system methods are fields of records of functions that the
  definitions take as arguments: \<open>crypto_api\<close> (cipher and hash), \<open>vfs_api\<close> (reading, writing, copying
  attributes), \<open>mm_api\<close> (memory and pages), \<open>user_api\<close> (user memory), \<open>file_api\<close>, \<open>super_api\<close>, \<open>lookup_api\<close>,
  \<open>dentry_api\<close>, \<open>main_api\<close>, \<open>inode_api\<close>, and \<open>os_api\<close> (system calls of the program).  A function of the lower
  file system sees and changes the lower state only.  What is relied on is stated as named predicates:
  \<open>ctr_cipher\<close> and \<open>cipher_loaded\<close> (counter mode adds a key stream, the same for every page, since the sources
  set no initialisation vector), \<open>md5_service\<close>, \<open>lower_writes\<close> and \<open>lower_reads\<close> (a regular lower file stores
  bytes), \<open>fsstack_laws\<close> (the attribute copies), \<open>memory_available\<close>, \<open>alloc_fresh\<close>, \<open>key_request\<close>,
  \<open>names_fresh\<close> (\<open>getname\<close> returns memory that was not in use), \<open>md5_failing\<close> (some call of the hash fails),
  \<open>open_errors\<close>, \<open>iget_law\<close>, \<open>iget_fresh\<close>, \<open>special_law\<close>, \<open>dir_laws\<close>, \<open>root_law\<close>, \<open>nodev_law\<close>, \<open>sync_law\<close>,
  \<open>sync_keeps_keys\<close>, \<open>dispatches\<close>.  \<open>cipher_loaded\<close> needs a kernel with counter mode, which \<^verbatim>\<open>src/hw2.config\<close>
  does not set; what happens without it is \<open>missing_cipher_reports_success\<close>.  What \<open>match_token\<close> gives for an option
  that is not in its table is left open, since the search runs over the end of the table.
  Each of them is shown to hold of a concrete instance (\<open>xor_crypto\<close>, \<open>ram_vfs\<close>, \<open>ram_mm\<close>, \<open>ram_file\<close>,
  \<open>ram_lookup\<close>, \<open>ram_main\<close>, \<open>ram_inode\<close>, \<open>demo_os\<close>), on which the properties are run.

  \<^bold>\<open>What is shown.\<close>
  \<^item> Data: an open encrypted file behaves as a sequence of bytes under page-aligned writes (refinement of
    \<open>conforms\<close>), single writes and reads refine their specifications, encryption and decryption are inverse,
    the same password recovers the data.  What the code does otherwise is stated too: which bytes of a write
    that is not page-aligned are lost, \<open>writepage\<close> never writes, a failed lower read is reported as success, clearing
    the key during a write stores plaintext.
  \<^item> Key: the ioctl and the program install exactly the digest of the string, \<open>"0"\<close> clears it, a failing
    ioctl changes no key, a mount refuses page input and output until a key is set; unmounting leaves the key
    in memory.
  \<^item> Names: every sequence of calls gives back all locks, references and write accesses; new names are linked to
    the new lower inodes, failed calls leave the names alone; unlink, rename, setattr and symbolic links
    behave as described on all their branches.
  \<^item> Objects: in all reachable states the inode of a dentry has a lower inode; lookup and release, open and
    release, mount and unmount are balanced, also when they fail, up to an inode reference that is leaked with
    \<open>-ESTALE\<close>; the mount options are parsed as specified; a mount of a missing directory crashes.

  \<^bold>\<open>Not modelled.\<close>  \<open>wrapfs_compat_ioctl\<close> is compiled only on 64-bit kernels.  \<open>wrapfs_inode_set\<close> returns 0 and
  does nothing, \<open>wrapfs_fault_null\<close> and \<open>wrapfs_get_inode_mutex\<close> are not called.  Debug output (\<open>printk\<close>, \<open>WDBG\<close>)
  is left out; for \<^verbatim>\<open>src/user.c\<close> the output is part of the model.  Operations are atomic steps:
  interleavings are those between calls, not inside one.  \<^verbatim>\<open>src/test_mmap.c\<close> is a test without logic of its own,
  \<^verbatim>\<open>src/wrapfs.mod.c\<close> is generated, and \<^verbatim>\<open>src/ioctl.h\<close> is included nowhere.
\<close>

section \<open>Properties that span components\<close>

text \<open>C1: an open file of a mount with a key behaves like a sequence of bytes.  Every history of page-aligned
  writes (\<open>write_begin\<close>, copy, \<open>write_end\<close>), page reads (\<open>readpage\<close>) and page syncs (\<open>writepage\<close>), through
  encryption, the lower file and decryption, conforms to the specification that a write overwrites its
  range and a read returns the bytes last written, up to the end of the file; the file is ready for
  more at the end.\<close>

theorem session_refines:
  assumes "session e s h s'" and "oe_ready e s"
  shows "conforms (plain (oe_stream e) s (oe_key e) (oe_linode e)) (i_size (l_inodes (low s) (oe_linode e))) h
      (plain (oe_stream e) s' (oe_key e) (oe_linode e)) (i_size (l_inodes (low s') (oe_linode e))) \<and> oe_ready e s'"
  using session_conforming [OF assms] .

definition ram_env :: "(byte list, byte list) open_env" where
  "ram_env = \<lparr>oe_crypto = xor_crypto, oe_stream = xor_stream, oe_vfs = ram_vfs, oe_mm = ram_mm, oe_file = 2, oe_key = 9,
     oe_lfile = 11, oe_inode = 1, oe_linode = 13\<rparr>"

lemma ram_env_ready: "oe_ready ram_env mounted_kst"
  using xor_crypto_ctr xor_crypto_loaded ram_vfs_writes ram_vfs_reads mounted_enc_file
  by (simp add: oe_ready_def ram_env_def)

lemma ram_session: "\<exists>s' d. session ram_env mounted_kst [Wrote 4096 5 (\<lambda>_. 42), Got 1 d] s'"
proof -
  have u: "unat (5::u32) = 5" by simp
  obtain s1 where s1: "wrapfs_write_begin ram_mm 2 1 4096 5 0 mounted_kst = Some ((0, Some 50), s1)"
    using write_begin_page [OF mounted_key(1) ram_mm_grab, of 4096 5] by (simp add: PAGE_CACHE_SIZE_eq)
  define s2 where "s2 = upd_page 50 (pg_data_update (\<lambda>d. buf_write d (in_page 4096) (unat (5::u32)) (\<lambda>_. 42))) s1"
  note c = write_begin_copy [OF mounted_enc_file ram_mm_grab _ _ _ s1 s2_def, simplified PAGE_CACHE_SIZE_eq, simplified]
  have d: "100 + length (log s2) \<noteq> 50" "100 + length (log s) \<noteq> 60" for s by simp_all
  obtain s3 where s3: "wrapfs_write_end xor_crypto ram_vfs ram_mm 2 1 4096 5 5 50 s2 = Some (5, s3)"
    and e3: "enc_file s3 2 9 11 1 13"
    using write_sequence [OF xor_crypto_ctr xor_crypto_loaded ram_vfs_writes mounted_enc_file _ _ ram_mm_grab
      _ _ _ s1 s2_def ram_mm_alloc d(1)] by (auto simp: PAGE_CACHE_SIZE_eq u32_to_int_def u)
  have "wrapfs_lower_file s2 2 = Some (Some 11)" "key_of s2 2 = Some (Some 9)"
    using c(1) by (simp_all add: enc_file_def)
  then have "pg_index (pages s3 60) = pg_index (pages s2 60)"
    by (intro write_end_keeps_page(1) [OF s3 _ ram_mm_alloc])
  also have "\<dots> = 1" using c(7) [of 60] by (simp add: state_defs)
  finally have i: "pg_index (pages s3 60) = 1" .
  obtain s4 where s4: "wrapfs_readpage xor_crypto ram_vfs ram_mm 2 60 s3 = Some (0, s4)"
    using readpage_plain [OF xor_crypto_ctr xor_crypto_loaded ram_vfs_reads e3 ram_mm_alloc d(2)] by auto
  have "session ram_env s3 [Got 1 (pg_data (pages s4 60))] s4"
    by (rule session.get [OF i]) (use s4 in \<open>simp_all add: ram_env_def oe_usable_def session.idle\<close>)
  then have "session ram_env mounted_kst [Wrote 4096 5 (\<lambda>_. 42), Got 1 (pg_data (pages s4 60))] s4"
    by (intro session.put [where flags = 0 and page = 50 and pg = "fresh_page 1 (page_of 4096)" and ?s1.0 = s1
          and ?s2.0 = s2 and rc = 5 and ?s3.0 = s3])
      (use s1 s3 in \<open>simp_all add: ram_env_def oe_usable_def ram_mm_grab s2_def PAGE_CACHE_SIZE_eq u\<close>)
  then show ?thesis by blast
qed

theorem session_refines_witness:
  "\<exists>s' d. session ram_env mounted_kst [Wrote 4096 5 (\<lambda>_. 42), Got 1 d] s' \<and> d 3 = 42"
proof -
  obtain s' d where s': "session ram_env mounted_kst [Wrote 4096 5 (\<lambda>_. 42), Got 1 d] s'"
    using ram_session by blast
  have "grown 5 (i_size (l_inodes (low mounted_kst) 13)) 4096 = 4101" by (simp add: grown_def state_defs)
  with session_refines [OF s' ram_env_ready] have "d 3 = 42"
    by (auto simp: ram_env_def PAGE_CACHE_SIZE_eq page_offset_eq buf_write_def)
  with s' show ?thesis by blast
qed

text \<open>C8: the same password gives the data back.  When a file below was written under the digest of a key
  string, then setting the key to that string, on any mount of it and whatever key was set before,
  makes \<open>readpage\<close> return the plaintext.  Under another string the plaintext comes out combined with the
  key streams of both digests, and nothing reports it.\<close>

theorem password_recovers_data:
  assumes cipher: "ctr_cipher C ks" "cipher_loaded C" and V: "lower_reads V"
    and req: "md5_service C md5" "memory_available M" "alloc_fresh M" "key_request U arg len name" "\<not> strcmp_eq name [48]"
    and sb: "s_fs_info (sbs s (file_sb s fl)) = Some p" and opened: "open_below s fl lf i li"
    and written: "\<forall>k. l_bytes (low s) li k = content k XOR ks digest (k mod PAGE_CACHE_SIZE)"
    and pages: "\<forall>t. \<exists>dst. alloc_page M t = Some dst \<and> dst \<noteq> page"
    and j: "j < PAGE_CACHE_SIZE" "page_offset (pg_index (pages s page)) + int j < i_size (l_inodes (low s) li)"
  shows "\<exists>s1 s2. wrapfs_unlocked_ioctl C M U fl WRAPFS_SETEKEY arg s = Some (0, s1) \<and>
    wrapfs_readpage C V M fl page s1 = Some (0, s2) \<and>
    (let digest' = bytes_of (md5 (bytes_of name (unat (to_u32 len)))) MD5_SIGNATURE_SIZE;
         c = content (nat (page_offset (pg_index (pages s page))) + j)
     in pg_data (pages s2 page) j = (if digest' = digest then c else c XOR ks digest j XOR ks digest' j))"
proof -
  let ?digest' = "bytes_of (md5 (bytes_of name (unat (to_u32 len)))) MD5_SIGNATURE_SIZE"
  let ?k = "nat (page_offset (pg_index (pages s page))) + j"
  obtain s1 key where s1: "wrapfs_unlocked_ioctl C M U fl WRAPFS_SETEKEY arg s = Some (0, s1)"
    and key: "key_of s1 fl = Some (Some key)" "bytes_of (bufs s1 key) MD5_SIGNATURE_SIZE = ?digest'"
    and fr: "ioctl_frame s s1" "low s1 = low s"
    using setekey_installs [OF req sb] by blast
  obtain dst where dst: "alloc_page M s1 = Some dst" "dst \<noteq> page" using pages by blast
  have o': "open_below s1 fl lf i li" using opened ioctl_keeps_open [OF fr] by simp
  have p: "pages s1 = pages s" using fr(1) by (simp add: ioctl_frame_def)
  obtain s2 where s2: "wrapfs_readpage C V M fl page s1 = Some (0, s2)"
    and d: "pg_data (pages s2 page) j = l_bytes (low s) li ?k XOR ks ?digest' j"
    using setekey_then_read [OF cipher V key(1) o' dst j(1)] j(2) fr(2) p key(2) by auto
  have "l_bytes (low s) li ?k = content ?k XOR ks digest j"
    using written [rule_format, of ?k] j(1) by (simp add: page_byte_mod)
  with s1 s2 d show ?thesis by (auto simp: Let_def xor.assoc)
qed

text \<open>A file of 8192 bytes that was written, all bytes 42, under the digest of the string with bytes 3 and 4.\<close>

definition stored_digest :: "byte list" where
  "stored_digest = bytes_of (sum_digest (bytes_of (c_string [3, 4]) (unat (to_u32 (int (length [3, 4 :: byte])))))) MD5_SIGNATURE_SIZE"

definition stored_kst :: kst where
  "stored_kst = keyless_kst\<lparr>low := (low keyless_kst)
     \<lparr>l_inodes := (l_inodes (low keyless_kst))(13 := (l_inodes (low keyless_kst) 13)\<lparr>i_size := 8192\<rparr>),
      l_bytes := (l_bytes (low keyless_kst))(13 := (\<lambda>k. 42 XOR xor_stream stored_digest (k mod PAGE_CACHE_SIZE)))\<rparr>\<rparr>"

theorem password_recovers_data_witness:
  "\<exists>s1 s2. wrapfs_unlocked_ioctl xor_crypto ram_mm (demo_user [3, 4]) 2 WRAPFS_SETEKEY 0 stored_kst = Some (0, s1) \<and>
     wrapfs_readpage xor_crypto ram_vfs ram_mm 2 60 s1 = Some (0, s2) \<and> pg_data (pages s2 60) 7 = 42"
proof -
  have n: "\<not> strcmp_eq (c_string [3, 4]) [48]" by (simp add: strcmp_eq_def)
  have p: "s_fs_info (sbs stored_kst (file_sb stored_kst 2)) = Some 5"
    by (simp add: stored_kst_def keyless_kst_def state_defs)
  have o': "open_below stored_kst 2 11 1 13"
    by (simp add: stored_kst_def keyless_kst_def open_below_def link_simps state_defs lower_file_inode_def
        FMODE_WRITE_def O_APPEND_def)
  have w: "\<forall>k. l_bytes (low stored_kst) 13 k = 42 XOR xor_stream stored_digest (k mod PAGE_CACHE_SIZE)"
    by (simp add: stored_kst_def)
  have a: "\<forall>t. \<exists>dst. alloc_page ram_mm t = Some dst \<and> dst \<noteq> 60" by simp
  have j: "(7::nat) < PAGE_CACHE_SIZE"
    "page_offset (pg_index (pages stored_kst 60)) + int 7 < i_size (l_inodes (low stored_kst) 13)"
    by (simp_all add: PAGE_CACHE_SIZE_eq page_offset_eq stored_kst_def keyless_kst_def state_defs)
  from password_recovers_data [OF xor_crypto_ctr xor_crypto_loaded ram_vfs_reads xor_crypto_md5 ram_mm_available
      ram_mm_fresh demo_user_request n p o' w a j, of 0]
  show ?thesis by (auto simp: Let_def stored_digest_def)
qed

text \<open>C31: clearing the key while a write is under way puts plaintext below.  When another process clears the
  key after \<open>write_begin\<close> has prepared the page and the user bytes were copied, \<open>write_end\<close> returns \<open>len\<close> and
  has stored the user bytes unencrypted in the lower file, and at the start of the page rather than at
  the position of the write.\<close>

theorem clear_during_write_leaks:
  assumes V: "lower_writes V" and f: "enc_file s fl key lf i li" and pos: "0 \<le> pos" "pos < 2 ^ 44"
    and grab: "grab_cache_page_write_begin M i (page_of pos) flags s = Some (page, pg)"
      "pg_index pg = page_of pos" "pg_host pg = Some i"
    and len: "in_page pos + unat len \<le> PAGE_CACHE_SIZE"
    and s1: "wrapfs_write_begin M fl i pos len flags s = Some ((0, Some page), s1)"
    and s2: "s2 = upd_page page (pg_data_update (\<lambda>d. buf_write d (in_page pos) (unat len) u)) s1"
    and req: "memory_available M" "key_request U arg klen name" "strcmp_eq name [48]"
  shows "\<exists>s3 s4. wrapfs_unlocked_ioctl C M U fl WRAPFS_SETEKEY arg s2 = Some (0, s3) \<and>
    wrapfs_write_end C V M fl i pos len len page s3 = Some (u32_to_int len, s4) \<and>
    (\<forall>k < unat len. l_bytes (low s4) li (nat (pos - pos mod int PAGE_CACHE_SIZE) + k) = u k)"
proof -
  note c = write_begin_copy [OF f grab len s1 s2]
  have k2: "key_of s2 fl = Some (Some key)" and o2: "open_below s2 fl lf i li" using c(1) by (simp_all add: enc_file_open)
  from k2 obtain p where p: "s_fs_info (sbs s2 (file_sb s2 fl)) = Some p" by (auto simp: link_simps)
  obtain s3 where s3: "wrapfs_unlocked_ioctl C M U fl WRAPFS_SETEKEY arg s2 = Some (0, s3)"
    and k3: "key_of s3 fl = Some None" and fr: "ioctl_frame s2 s3" "low s3 = low s2"
    using setekey_clears [where C = C, OF req p] by blast
  have o3: "open_below s3 fl lf i li" using o2 ioctl_keeps_open [OF fr] by simp
  have p3: "pages s3 page = pages s2 page" using fr(1) by (simp add: ioctl_frame_def)
  obtain s4 where s4: "wrapfs_write_end C V M fl i pos len len page s3 = Some (u32_to_int len, s4)"
    and b: "l_bytes (low s4) li = buf_write (l_bytes (low s3) li) (nat (page_offset (pg_index (pages s3 page)))) (unat len)
       (\<lambda>k. pg_data (pages s3 page) (in_page pos + k))"
    using write_end_plain_stores [where C = C and M = M and len = len and pos = pos and i = i, OF V k3, of lf li page i len] o3 p3 c(2)
    by (auto simp: open_below_def)
  have "l_bytes (low s4) li (nat (pos - pos mod int PAGE_CACHE_SIZE) + k) = u k" if "k < unat len" for k
    using that p3 c(3,4) by (simp add: b page_offset_of_pos [OF pos] buf_write_def)
  with s3 s4 show ?thesis by blast
qed

theorem clear_during_write_leaks_witness:
  "\<exists>s1 s3 s4. wrapfs_write_begin ram_mm 2 1 4100 5 0 mounted_kst = Some ((0, Some 50), s1) \<and>
     wrapfs_unlocked_ioctl xor_crypto ram_mm (demo_user [48]) 2 WRAPFS_SETEKEY 0
       (upd_page 50 (pg_data_update (\<lambda>d. buf_write d (in_page 4100) (unat (5::u32)) (\<lambda>_. 42))) s1) = Some (0, s3) \<and>
     wrapfs_write_end xor_crypto ram_vfs ram_mm 2 1 4100 5 5 50 s3 = Some (5, s4) \<and> l_bytes (low s4) 13 4098 = 42"
proof -
  have z: "strcmp_eq (c_string [48]) [48]" by (simp add: strcmp_eq_def)
  obtain s1 where s1: "wrapfs_write_begin ram_mm 2 1 4100 5 0 mounted_kst = Some ((0, Some 50), s1)"
    using write_begin_page [OF mounted_key(1) ram_mm_grab, of 4100 5] by (simp add: PAGE_CACHE_SIZE_eq)
  from clear_during_write_leaks [OF ram_vfs_writes mounted_enc_file _ _ ram_mm_grab _ _ _ s1 refl ram_mm_available
      demo_user_request z, where u = "\<lambda>_. 42" and C = xor_crypto and arg = 0]
  obtain s3 s4 where "wrapfs_unlocked_ioctl xor_crypto ram_mm (demo_user [48]) 2 WRAPFS_SETEKEY 0
       (upd_page 50 (pg_data_update (\<lambda>d. buf_write d (in_page 4100) (unat (5::u32)) (\<lambda>_. 42))) s1) = Some (0, s3)"
    "wrapfs_write_end xor_crypto ram_vfs ram_mm 2 1 4100 5 5 50 s3 = Some (5, s4)"
    and b: "\<forall>k<5. l_bytes (low s4) 13 (4096 + k) = 42"
    by (auto simp: PAGE_CACHE_SIZE_eq u32_to_int_def)
  moreover have "l_bytes (low s4) 13 4098 = 42" using b [rule_format, of 2] by simp
  ultimately show ?thesis using s1 by blast
qed

text \<open>C19: a mount refuses page input and output until a key is set.  After \<open>wrapfs_mount\<close> has succeeded, with
  whatever options or none, and after any sequence of calls on the file system other than the ioctl that
  sets a key, mounting and unmounting, \<open>readpage\<close> and \<open>write_begin\<close> on any file of the new super block return
  \<open>-EPERM\<close> and change nothing.\<close>

theorem fresh_mount_needs_key:
  assumes "wrapfs_mount V L P dev raw s = Some (Ptr root, s')"
    and "sync_keeps_keys F" and "(use_step I V L F M C U)\<^sup>*\<^sup>* s' t"
    and "file_sb t fl = d_sb (dentries s' root)"
  shows "wrapfs_readpage C V M fl page t = Some (- EPERM, t) \<and>
    wrapfs_write_begin M fl mapping pos len flags t = Some ((- EPERM, None), t)"
proof -
  from mount_key [OF assms(1)] have "wrapfs_get_enc_key s' (d_sb (dentries s' root)) = Some None"
    by (auto simp: link_simps)
  with key_frame_key [OF use_steps_key [OF assms(3,2)]] assms(4) have "key_of t fl = Some None" by simp
  then show ?thesis by (simp add: wrapfs_readpage_def wrapfs_write_begin_def run_simps)
qed

text \<open>File 77 will be open on the root dentry 26 of the new mount.\<close>

definition file_kst :: kst where
  "file_kst = dir_kst\<lparr>files := (files dir_kst)(77 := blank_file\<lparr>f_dentry := 26\<rparr>)\<rparr>"

theorem fresh_mount_needs_key_witness:
  "\<exists>root s'. wrapfs_mount ram_vfs ram_lookup ram_main (Some ''/n'') None file_kst = Some (Ptr root, s') \<and>
     wrapfs_readpage xor_crypto ram_vfs ram_mm 77 60 (upd_page 60 (pg_data_update (\<lambda>_ _. 42)) s') =
       Some (- EPERM, upd_page 60 (pg_data_update (\<lambda>_ _. 42)) s')"
proof -
  obtain s' where s': "wrapfs_mount ram_vfs ram_lookup ram_main (Some ''/n'') None file_kst = Some (Ptr 26, s')"
    and f: "files s' = files file_kst"
    by (simp add: wrapfs_mount_def wrapfs_parse_mount_options_def wrapfs_read_super_def read_super_root_def wrapfs_iget_def
        iget_init_def iget_select_ops_def new_dentry_private_data_def wrapfs_set_lower_path_def ram_main_def ram_lookup_def
        wrapfs_tokens_def file_kst_def state_defs link_simps
        S_ISDIR_def S_ISLNK_def S_ISBLK_def S_ISCHR_def S_ISFIFO_def S_ISSOCK_def Let_def)
  let ?t = "upd_page 60 (pg_data_update (\<lambda>_ _. 42)) s'"
  have y: "sync_keeps_keys ram_file" by (simp add: sync_keeps_keys_def ram_file_def)
  have st: "(use_step ram_inode ram_vfs ram_lookup ram_file ram_mm xor_crypto (demo_user []))\<^sup>*\<^sup>* s' ?t"
    by (rule r_into_rtranclp) (rule use_step.intros(15))
  have "file_sb ?t 77 = d_sb (dentries s' 26)" by (simp add: f file_kst_def)
  with fresh_mount_needs_key [where page = 60, OF s' y st, of 77] s' show ?thesis by blast
qed

text \<open>An inode gives back the lower reference it took: the references to lower inodes are the same before
  \<open>wrapfs_iget\<close> made a new inode and after \<open>wrapfs_evict_inode\<close> removed it, and the link is gone.\<close>

theorem iget_evict_balanced:
  assumes "iget_law L" and "wrapfs_iget V L sb li s = Some (Ptr inode, s1)"
    and "iget5_locked L sb (i_ino (l_inodes (low s) li)) (wrapfs_inode_test li) s = Some (inode, info)"
    and "i_new (vfs_inode info)"
  shows "held (R_inode q) (log (wrapfs_evict_inode inode s1)) = held (R_inode q) (log s) \<and>
    lower_inode (inodes (wrapfs_evict_inode inode s1) inode) = None"
  using iget_then_evict [OF assms] by blast

theorem iget_evict_balanced_witness:
  "\<exists>s1. wrapfs_iget ram_vfs ram_lookup 4 13 dir_kst = Some (Ptr 42, s1) \<and>
     held (R_inode 13) (log (wrapfs_evict_inode 42 s1)) = 0"
proof -
  obtain s1 where s1: "wrapfs_iget ram_vfs ram_lookup 4 13 dir_kst = Some (Ptr 42, s1)" using dir_iget ..
  let ?info = "\<lparr>ii_lower_file = None, lower_inode = None, vfs_inode = blank_inode\<lparr>i_new := True\<rparr>\<rparr>"
  have i: "iget5_locked ram_lookup 4 (i_ino (l_inodes (low dir_kst) 13)) (wrapfs_inode_test 13) dir_kst = Some (42, ?info)"
    by (simp add: ram_lookup_def)
  have "held (R_inode 13) (log dir_kst) = 0" by (simp add: state_defs)
  with iget_evict_balanced [OF ram_lookup_laws(1) s1 i, of 13] s1 show ?thesis by simp
qed

text \<open>C32: unmounting keeps the key in memory.  After a key was set, \<open>wrapfs_put_super\<close> drops the reference to
  the lower super block and frees the private data, which held the only pointer to the key buffer, but
  the buffer with the digest stays allocated and unchanged.\<close>

theorem unmount_leaks_key:
  assumes "md5_service C md5" and "memory_available M" "alloc_fresh M"
    and "key_request U arg len name" and "\<not> strcmp_eq name [48]"
    and sb: "s_fs_info (sbs s (file_sb s fl)) = Some p" "lower_sb (sb_infos s p) = Some lsb"
  shows "\<exists>s1 key s2. wrapfs_unlocked_ioctl C M U fl WRAPFS_SETEKEY arg s = Some (0, s1) \<and>
    wrapfs_get_enc_key s1 (file_sb s1 fl) = Some (Some key) \<and>
    wrapfs_put_super (file_sb s1 fl) s1 = Some s2 \<and> s_fs_info (sbs s2 (file_sb s fl)) = None \<and>
    s_active (l_sbs (low s2) lsb) = s_active (l_sbs (low s) lsb) - 1 \<and>
    held (R_sbinfo p) (log s2) = held (R_sbinfo p) (log s1) - 1 \<and>
    0 < held (R_mem key) (log s2) \<and> bytes_of (bufs s2 key) MD5_SIGNATURE_SIZE
       = bytes_of (md5 (bytes_of name (unat (to_u32 len)))) MD5_SIGNATURE_SIZE"
proof -
  obtain s1 key where s1: "wrapfs_unlocked_ioctl C M U fl WRAPFS_SETEKEY arg s = Some (0, s1)"
    and key: "key_of s1 fl = Some (Some key)" "0 < held (R_mem key) (log s1)"
      "bytes_of (bufs s1 key) MD5_SIGNATURE_SIZE = bytes_of (md5 (bytes_of name (unat (to_u32 len)))) MD5_SIGNATURE_SIZE"
    and fr: "ioctl_frame s s1" "low s1 = low s"
    using setekey_installs [OF assms(1-6)] by blast
  have i: "sbs s1 = sbs s" "file_sb s1 fl = file_sb s fl" using fr(1) by (simp_all add: ioctl_frame_def)
  have "lower_sb (sb_infos s1 p) = Some lsb"
    using ioctl_key_outcome [OF s1] sb by auto
  then obtain s2 where "wrapfs_put_super (file_sb s1 fl) s1 = Some s2" "log s2 = log s1 @ [Sbinfo_free p]" "bufs s2 = bufs s1"
    "s_fs_info (sbs s2 (file_sb s fl)) = None" "s_active (l_sbs (low s2) lsb) = s_active (l_sbs (low s) lsb) - 1"
    using i sb(1) fr(2) by (simp add: wrapfs_put_super_def link_simps)
  with s1 key show ?thesis by (auto simp: held_simps)
qed

theorem unmount_leaks_key_witness:
  "\<exists>s1 key s2. wrapfs_unlocked_ioctl xor_crypto ram_mm (demo_user [3, 4]) 2 WRAPFS_SETEKEY 0 keyless_kst = Some (0, s1) \<and>
     wrapfs_put_super 4 s1 = Some s2 \<and> 0 < held (R_mem key) (log s2) \<and> s_fs_info (sbs s2 4) = None"
proof -
  have n: "\<not> strcmp_eq (c_string [3, 4]) [48]" by (simp add: strcmp_eq_def)
  have l: "lower_sb (sb_infos keyless_kst 5) = Some 14" "file_sb keyless_kst 2 = 4" by (simp_all add: keyless_kst_def state_defs)
  obtain s1 key s2 where r: "wrapfs_unlocked_ioctl xor_crypto ram_mm (demo_user [3, 4]) 2 WRAPFS_SETEKEY 0 keyless_kst = Some (0, s1)"
    "wrapfs_put_super (file_sb s1 2) s1 = Some s2" "s_fs_info (sbs s2 (file_sb keyless_kst 2)) = None"
    "0 < held (R_mem key) (log s2)"
    using unmount_leaks_key [OF xor_crypto_md5 ram_mm_available ram_mm_fresh demo_user_request n mounted_sb(1) l(1), of 0] by blast
  have "file_sb s1 2 = 4" using ioctl_key_outcome [OF r(1)] l(2) by (simp add: ioctl_frame_def)
  with r l(2) show ?thesis by auto
qed

end
